(* ===== verification/GoBase.thy ===== *)
theory GoBase
  imports Main "HOL-Library.AList"
begin

text \<open>
  The prelude of the development: what the Go sources use of the language, of its standard
  library and of \<^verbatim>\<open>github.com/pkg/errors\<close>.

  \<^item> Errors: the type \<open>goerr\<close> keeps what the code can observe of an error (its text, its
    wrapping, the code of an AWS error, the number of a system error, the identity of a
    package-level error variable).
  \<^item> Results and computations: \<open>'a res\<close> is what a call gives back (a value, an error, or a
    run-time panic); \<open>('w, 'a) go\<close> is a computation over a world \<open>'w\<close>, with the combinators
    the code's control flow needs.
  \<^item> Times and durations, in nanoseconds, with the saturation of \<^verbatim>\<open>time.Time.Sub\<close>.
  \<^item> Maps: a Go map is an association list with distinct keys.  The list's order is the
    order of one \<^verbatim>\<open>range\<close> loop; Go leaves that order open, so no theorem depends on it, and
    the step relations of the components let it change at any time.
\<close>

named_theorems go_simps \<open>unfolding rules of the Go combinators\<close>
named_theorems keeps_intros \<open>how an invariant passes through the Go combinators\<close>

section \<open>Errors\<close>

datatype goerr =
    NewErr string            \<comment> \<open>\<^verbatim>\<open>errors.New\<close>, \<^verbatim>\<open>errors.Errorf\<close>, \<^verbatim>\<open>fmt.Errorf\<close>\<close>
  | Sentinel string          \<comment> \<open>a package-level error variable, compared by identity\<close>
  | WrapErr string goerr     \<comment> \<open>\<^verbatim>\<open>errors.Wrap(err, msg)\<close> of an error that is not nil\<close>
  | AwsErr string string     \<comment> \<open>an \<^verbatim>\<open>awserr.Error\<close>: code and message\<close>
  | Errno nat string         \<comment> \<open>a \<^verbatim>\<open>syscall.Errno\<close>: number and text\<close>

fun Error :: "goerr \<Rightarrow> string" where
  "Error (NewErr m) = m"
| "Error (Sentinel m) = m"
| "Error (WrapErr m e) = m @ '': '' @ Error e"
| "Error (AwsErr code m) = code @ '': '' @ m"
| "Error (Errno n m) = m"

text \<open>\<^verbatim>\<open>errors.Wrap\<close>: wrapping nil gives nil, which the callers can get wrong.\<close>

definition Wrap :: "goerr option \<Rightarrow> string \<Rightarrow> goerr option" where
  "Wrap err msg = map_option (WrapErr msg) err"

lemma Wrap_simps [simp]:
  "Wrap None msg = None"
  "Wrap (Some e) msg = Some (WrapErr msg e)"
  by (simp_all add: Wrap_def)

section \<open>Results and computations\<close>

datatype 'a res = Val 'a | Err goerr | Panic string

type_synonym ('w, 'a) go = "'w \<Rightarrow> 'a res \<times> 'w"

definition retG :: "'a \<Rightarrow> ('w, 'a) go" where
  "retG x w = (Val x, w)"

definition errG :: "goerr \<Rightarrow> ('w, 'a) go" where
  "errG e w = (Err e, w)"

definition panicG :: "string \<Rightarrow> ('w, 'a) go" where
  "panicG p w = (Panic p, w)"

text \<open>Sequencing; an error returns early (\<^verbatim>\<open>if err != nil { return err }\<close>).\<close>

definition bindG :: "('w, 'a) go \<Rightarrow> ('a \<Rightarrow> ('w, 'b) go) \<Rightarrow> ('w, 'b) go" where
  "bindG m f w =
     (case m w of
        (Val x, w') \<Rightarrow> f x w'
      | (Err e, w') \<Rightarrow> (Err e, w')
      | (Panic p, w') \<Rightarrow> (Panic p, w'))"

text \<open>\<^verbatim>\<open>if err != nil { return errors.Wrap(err, msg) }\<close>\<close>

definition wrapG :: "string \<Rightarrow> ('w, 'a) go \<Rightarrow> ('w, 'a) go" where
  "wrapG msg m w =
     (case m w of
        (Err e, w') \<Rightarrow> (Err (WrapErr msg e), w')
      | r \<Rightarrow> r)"

text \<open>The error of a call as a value, for code that inspects it; a panic goes on unwinding.\<close>

definition tryG :: "('w, 'a) go \<Rightarrow> ('w, goerr + 'a) go" where
  "tryG m w =
     (case m w of
        (Val x, w') \<Rightarrow> (Val (Inr x), w')
      | (Err e, w') \<Rightarrow> (Val (Inl e), w')
      | (Panic p, w') \<Rightarrow> (Panic p, w'))"

text \<open>A loop over a slice whose body may return early with an error.\<close>

fun forG :: "'b list \<Rightarrow> ('b \<Rightarrow> ('w, unit) go) \<Rightarrow> ('w, unit) go" where
  "forG [] f = retG ()"
| "forG (x # xs) f = bindG (f x) (\<lambda>_. forG xs f)"

text \<open>Reading and changing the world; a result as a computation; a call whose error is dropped.\<close>

definition getG :: "('w \<Rightarrow> 'a) \<Rightarrow> ('w, 'a) go" where
  "getG f w = (Val (f w), w)"

definition modG :: "('w \<Rightarrow> 'w) \<Rightarrow> ('w, unit) go" where
  "modG f w = (Val (), f w)"

definition resG :: "'a res \<Rightarrow> ('w, 'a) go" where
  "resG r w = (r, w)"

definition ignoreG :: "('w, 'a) go \<Rightarrow> ('w, unit) go" where
  "ignoreG m = bindG (tryG m) (\<lambda>_. retG ())"

text \<open>A computation on a part of the world.\<close>

definition zoomG :: "('w \<Rightarrow> 'v) \<Rightarrow> ('v \<Rightarrow> 'w \<Rightarrow> 'w) \<Rightarrow> ('v, 'a) go \<Rightarrow> ('w, 'a) go" where
  "zoomG g p m w = (case m (g w) of (r, v) \<Rightarrow> (r, p v w))"

text \<open>\<^verbatim>\<open>defer\<close>: the action runs however the body ends.\<close>

definition deferG :: "('e \<Rightarrow> 'e) \<Rightarrow> ('e, 'a) go \<Rightarrow> ('e, 'a) go" where
  "deferG f m e = (case m e of (r, e') \<Rightarrow> (r, f e'))"

lemmas go_defs = retG_def errG_def panicG_def bindG_def wrapG_def tryG_def getG_def modG_def
  resG_def ignoreG_def zoomG_def

lemma bindG_simps [simp]:
  "bindG (retG x) f w = f x w"
  "bindG (errG e) f w = (Err e, w)"
  "bindG (panicG p) f w = (Panic p, w)"
  by (simp_all add: go_defs)

lemma bindG_getG_modG [go_simps]:
  "bindG (getG g) f w = f (g w) w"
  "bindG (modG h) k w = k () (h w)"
  by (simp_all add: go_defs)

lemma bindG_assoc: "bindG (bindG m f) g = bindG m (\<lambda>x. bindG (f x) g)"
  by (rule ext) (simp add: bindG_def split: prod.split res.split)

lemma bindG_Val:
  assumes "bindG m f w = (Val x, w')"
  obtains y v where "m w = (Val y, v)" "f y v = (Val x, w')"
  using assms by (auto simp: bindG_def split: prod.splits res.splits)

lemma bindG_run:
  "m w = (Val x, w') \<Longrightarrow> bindG m f w = f x w'"
  "m w = (Err e, w') \<Longrightarrow> bindG m f w = (Err e, w')"
  "m w = (Panic p, w') \<Longrightarrow> bindG m f w = (Panic p, w')"
  by (simp_all add: bindG_def)

lemma bindG_tryG_run:
  "bindG (tryG m) f w =
     (case m w of (Val x, w') \<Rightarrow> f (Inr x) w' | (Err e, w') \<Rightarrow> f (Inl e) w' | (Panic p, w') \<Rightarrow> (Panic p, w'))"
  by (simp add: bindG_def tryG_def split: prod.split res.split)

lemma wrapG_run:
  "m w = (Val x, w') \<Longrightarrow> wrapG msg m w = (Val x, w')"
  "m w = (Err e, w') \<Longrightarrow> wrapG msg m w = (Err (WrapErr msg e), w')"
  "m w = (Panic p, w') \<Longrightarrow> wrapG msg m w = (Panic p, w')"
  by (simp_all add: wrapG_def)

lemma bindG_wrapG_run:
  "bindG (wrapG msg m) f w =
     (case m w of (Val x, w') \<Rightarrow> f x w' | (Err e, w') \<Rightarrow> (Err (WrapErr msg e), w') | (Panic p, w') \<Rightarrow> (Panic p, w'))"
  by (simp add: bindG_def wrapG_def split: prod.split res.split)

lemma bindG_wrapG_resG [go_simps]:
  "bindG (wrapG msg (resG (Val x))) f w = f x w"
  "bindG (wrapG msg (resG (Err e))) f w = (Err (WrapErr msg e), w)"
  "bindG (wrapG msg (resG (Panic p))) f w = (Panic p, w)"
  by (simp_all add: go_defs)

lemma wrapG_Val: "wrapG msg m w = (Val x, w') \<longleftrightarrow> m w = (Val x, w')"
  by (auto simp: wrapG_def split: prod.splits res.splits)

text \<open>
  \<open>keeps I m\<close>: the computation \<open>m\<close> keeps the invariant \<open>I\<close> of the world, whatever it
  returns.
\<close>

definition keeps :: "('w \<Rightarrow> bool) \<Rightarrow> ('w, 'a) go \<Rightarrow> bool" where
  "keeps I m \<longleftrightarrow> (\<forall>w. I w \<longrightarrow> I (snd (m w)))"

lemma keepsI: "(\<And>w. I w \<Longrightarrow> I (snd (m w))) \<Longrightarrow> keeps I m"
  by (simp add: keeps_def)

lemma keepsD: "keeps I m \<Longrightarrow> I w \<Longrightarrow> I (snd (m w))"
  by (simp add: keeps_def)

lemma keeps_retG [keeps_intros]: "keeps I (retG x)"
  by (simp add: keeps_def retG_def)

lemma keeps_errG [keeps_intros]: "keeps I (errG e)"
  by (simp add: keeps_def errG_def)

lemma keeps_panicG [keeps_intros]: "keeps I (panicG p)"
  by (simp add: keeps_def panicG_def)

lemma keeps_bindG [keeps_intros]:
  "keeps I m \<Longrightarrow> (\<And>x. keeps I (f x)) \<Longrightarrow> keeps I (bindG m f)"
  unfolding keeps_def bindG_def by (fastforce split: prod.splits res.splits)

lemma keeps_wrapG [keeps_intros]: "keeps I m \<Longrightarrow> keeps I (wrapG msg m)"
  unfolding keeps_def wrapG_def by (fastforce split: prod.splits res.splits)

lemma keeps_tryG [keeps_intros]: "keeps I m \<Longrightarrow> keeps I (tryG m)"
  unfolding keeps_def tryG_def by (fastforce split: prod.splits res.splits)

lemma keeps_getG [keeps_intros]: "keeps I (getG f)"
  by (simp add: keeps_def getG_def)

lemma keeps_modG [keeps_intros]: "(\<And>w. I w \<Longrightarrow> I (f w)) \<Longrightarrow> keeps I (modG f)"
  by (simp add: keeps_def modG_def)

lemma keeps_resG [keeps_intros]: "keeps I (resG r)"
  by (simp add: keeps_def resG_def)

lemma keeps_ignoreG [keeps_intros]: "keeps I m \<Longrightarrow> keeps I (ignoreG m)"
  unfolding ignoreG_def by (intro keeps_intros)

lemma keeps_zoomG:
  assumes "\<And>w. I w \<Longrightarrow> J w (g w)" "\<And>w. I w \<Longrightarrow> keeps (J w) m" "\<And>w v. I w \<Longrightarrow> J w v \<Longrightarrow> I (p v w)"
  shows "keeps I (zoomG g p m)"
proof (rule keepsI)
  fix w assume "I w"
  with assms have "J w (snd (m (g w)))" by (meson keepsD)
  with assms(3) \<open>I w\<close> show "I (snd (zoomG g p m w))"
    by (cases "m (g w)") (simp add: zoomG_def)
qed

lemma keeps_case_option [keeps_intros]:
  "(x = None \<Longrightarrow> keeps I m) \<Longrightarrow> (\<And>y. x = Some y \<Longrightarrow> keeps I (f y)) \<Longrightarrow>
     keeps I (case x of None \<Rightarrow> m | Some y \<Rightarrow> f y)"
  by (cases x) auto

lemma keeps_case_sum [keeps_intros]:
  "(\<And>y. x = Inl y \<Longrightarrow> keeps I (f y)) \<Longrightarrow> (\<And>y. x = Inr y \<Longrightarrow> keeps I (g y)) \<Longrightarrow>
     keeps I (case x of Inl y \<Rightarrow> f y | Inr y \<Rightarrow> g y)"
  by (cases x) auto

lemma keeps_case_prod [keeps_intros]:
  "(\<And>a b. x = (a, b) \<Longrightarrow> keeps I (f a b)) \<Longrightarrow> keeps I (case x of (a, b) \<Rightarrow> f a b)"
  by (cases x) auto

lemma keeps_if [keeps_intros]:
  "(b \<Longrightarrow> keeps I m) \<Longrightarrow> (\<not> b \<Longrightarrow> keeps I m') \<Longrightarrow> keeps I (if b then m else m')"
  by simp

lemma keeps_forG [keeps_intros]:
  "(\<And>x. x \<in> set xs \<Longrightarrow> keeps I (f x)) \<Longrightarrow> keeps I (forG xs f)"
  by (induction xs) (auto intro!: keeps_intros)

section \<open>Time\<close>

type_synonym time = int
type_synonym duration = int

text \<open>
  A \<^verbatim>\<open>time.Time\<close> is the number of nanoseconds since its zero value (January 1, year 1); a
  field that was never set holds 0.
\<close>

definition nanosecond :: duration where "nanosecond = 1"
definition second :: duration where "second = 1000000000"
definition minute :: duration where "minute = 60 * second"

definition maxDuration :: duration where "maxDuration = 2 ^ 63 - 1"
definition minDuration :: duration where "minDuration = - (2 ^ 63)"

text \<open>\<^verbatim>\<open>t.Sub(u)\<close> saturates at the largest and the smallest duration.\<close>

definition Sub :: "time \<Rightarrow> time \<Rightarrow> duration" where
  "Sub t u = max minDuration (min maxDuration (t - u))"

lemma Sub_ge_iff: "minDuration < d \<Longrightarrow> d \<le> maxDuration \<Longrightarrow> d \<le> Sub t u \<longleftrightarrow> d \<le> t - u"
  by (auto simp: Sub_def minDuration_def maxDuration_def)

lemma Sub_less_iff: "minDuration < d \<Longrightarrow> d \<le> maxDuration \<Longrightarrow> Sub t u < d \<longleftrightarrow> t - u < d"
  by (auto simp: Sub_def minDuration_def maxDuration_def)

lemma Sub_gt_iff: "minDuration \<le> d \<Longrightarrow> d < maxDuration \<Longrightarrow> d < Sub t u \<longleftrightarrow> d < t - u"
  by (auto simp: Sub_def minDuration_def maxDuration_def)

section \<open>Machine integers\<close>

text \<open>Go's \<^verbatim>\<open>int\<close> has 64 bits and wraps around.\<close>

definition wrap64 :: "int \<Rightarrow> int" where
  "wrap64 x = (x + 2 ^ 63) mod 2 ^ 64 - 2 ^ 63"

lemma wrap64_id: "- (2 ^ 63) \<le> x \<Longrightarrow> x < 2 ^ 63 \<Longrightarrow> wrap64 x = x"
  by (simp add: wrap64_def)

lemma wrap64_nonneg: "0 \<le> x \<Longrightarrow> x < 2 ^ 63 \<Longrightarrow> wrap64 x = x"
  by (rule wrap64_id) auto

section \<open>Lists\<close>

lemma find_SomeD:
  assumes "find P xs = Some x"
  shows "x \<in> set xs" and "P x"
  using assms by (auto simp: find_Some_iff)

section \<open>Maps\<close>

type_synonym ('k, 'v) gomap = "('k \<times> 'v) list"

text \<open>
  \<open>map_of m k\<close> is the read \<^verbatim>\<open>v, ok := m[k]\<close>, \<open>AList.update k v m\<close> the write \<^verbatim>\<open>m[k] = v\<close>,
  \<open>AList.delete k m\<close> is \<^verbatim>\<open>delete(m, k)\<close>, \<open>AList.map_entry k f m\<close> a write through a pointer
  stored under \<open>k\<close>, and \<open>length m\<close> is \<^verbatim>\<open>len(m)\<close>.
\<close>

definition mkeys :: "('k, 'v) gomap \<Rightarrow> 'k list" where
  "mkeys m = map fst m"

definition mwf :: "('k, 'v) gomap \<Rightarrow> bool" where
  "mwf m \<longleftrightarrow> distinct (mkeys m)"

text \<open>The sum of a value over all entries, as a \<^verbatim>\<open>range\<close> loop adds it up.\<close>

definition msum :: "('v \<Rightarrow> int) \<Rightarrow> ('k, 'v) gomap \<Rightarrow> int" where
  "msum g m = sum_list (map (g \<circ> snd) m)"

lemma mkeys_simps [simp]:
  "mkeys [] = []" "mkeys (e # m) = fst e # mkeys m"
  by (simp_all add: mkeys_def)

lemma set_mkeys: "set (mkeys m) = dom (map_of m)"
  by (simp add: mkeys_def dom_map_of_conv_image_fst)

lemma mwf_simps [simp]:
  "mwf []" "mwf (e # m) \<longleftrightarrow> fst e \<notin> set (mkeys m) \<and> mwf m"
  by (simp_all add: mwf_def)

lemma mwf_map_of: "mwf m \<Longrightarrow> map_of m k = Some v \<longleftrightarrow> (k, v) \<in> set m"
  by (simp add: mwf_def mkeys_def)

lemma mwf_update [simp]: "mwf m \<Longrightarrow> mwf (AList.update k v m)"
  by (simp add: mwf_def mkeys_def distinct_update)

lemma mwf_delete [simp]: "mwf m \<Longrightarrow> mwf (AList.delete k m)"
  by (simp add: mwf_def mkeys_def distinct_delete)

lemma mkeys_map_entry [simp]: "mkeys (AList.map_entry k f m) = mkeys m"
  by (induction m) auto

lemma mwf_map_entry [simp]: "mwf (AList.map_entry k f m) \<longleftrightarrow> mwf m"
  by (simp add: mwf_def)

lemma map_of_update: "map_of (AList.update k v m) = (map_of m)(k \<mapsto> v)"
  by (rule update_conv')

lemma map_of_delete: "map_of (AList.delete k m) = (map_of m)(k := None)"
  by (rule delete_conv')

lemma map_of_map_entry:
  "map_of (AList.map_entry k f m) =
     (map_of m)(k := case map_of m k of None \<Rightarrow> None | Some v \<Rightarrow> Some (f v))"
  by (induction m) (auto simp: fun_eq_iff)

lemmas gomap_simps = map_of_update map_of_delete map_of_map_entry

lemma length_update: "length (AList.update k v m) =
    (if k \<in> set (mkeys m) then length m else Suc (length m))"
  by (induction m) (auto simp: mkeys_def)

lemma length_delete: "mwf m \<Longrightarrow> length (AList.delete k m) =
    (if k \<in> set (mkeys m) then length m - 1 else length m)"
proof (induction m)
  case (Cons e m)
  have "k \<in> set (mkeys m) \<Longrightarrow> 0 < length m" by (cases m) auto
  with Cons show ?case by (cases e) (auto simp: delete_idem mkeys_def)
qed simp

lemma msum_simps [simp]: "msum g [] = 0" "msum g (e # m) = g (snd e) + msum g m"
  by (simp_all add: msum_def)

lemma msum_update_new:
  "k \<notin> set (mkeys m) \<Longrightarrow> msum g (AList.update k v m) = msum g m + g v"
  by (induction m) auto

lemma msum_map_entry:
  "mwf m \<Longrightarrow> map_of m k = Some v \<Longrightarrow> msum g (AList.map_entry k f m) = msum g m - g v + g (f v)"
proof (induction m)
  case (Cons e m)
  have "k \<notin> set (mkeys m) \<Longrightarrow> msum g (AList.map_entry k f m) = msum g m"
    by (induction m) auto
  with Cons show ?case by (cases e) (auto split: if_splits)
qed simp

lemma msum_delete:
  "mwf m \<Longrightarrow> map_of m k = Some v \<Longrightarrow> msum g (AList.delete k m) = msum g m - g v"
proof (induction m)
  case (Cons e m)
  then show ?case
    by (cases e) (auto simp: set_mkeys delete_idem dom_map_of_conv_image_fst split: if_splits)
qed simp

lemma msum_nonneg: "(\<And>k v. (k, v) \<in> set m \<Longrightarrow> 0 \<le> g v) \<Longrightarrow> 0 \<le> msum g m"
  by (induction m) force+

lemma msum_member_le:
  assumes "\<And>k v. (k, v) \<in> set m \<Longrightarrow> 0 \<le> g v" and "(k, v) \<in> set m"
  shows "g v \<le> msum g m"
  using assms
proof (induction m)
  case (Cons e m)
  then have "0 \<le> msum g m" by (auto intro!: msum_nonneg)
  moreover have "0 \<le> g (snd e)" using Cons.prems(1)[of "fst e" "snd e"] by simp
  ultimately show ?case using Cons by fastforce
qed simp

lemma msum_mono: "(\<And>k v. (k, v) \<in> set m \<Longrightarrow> g v \<le> h v) \<Longrightarrow> msum g m \<le> msum h m"
  by (induction m) (force intro!: add_mono)+

lemma msum_one [simp]: "msum (\<lambda>_. 1) m = int (length m)"
  by (induction m) auto

lemma msum_zero [simp]: "msum (\<lambda>_. 0) m = 0"
  by (induction m) auto

text \<open>Sums and lengths do not depend on the order of the entries.\<close>

lemma msum_dom: "mwf m \<Longrightarrow> msum g m = (\<Sum>k \<in> dom (map_of m). g (the (map_of m k)))"
proof (induction m)
  case (Cons e m)
  obtain k v where e: "e = (k, v)" by (cases e)
  have "k \<notin> dom (map_of m)" using Cons.prems by (simp add: e set_mkeys)
  then have "(\<Sum>x \<in> dom (map_of m). g (the (if x = k then Some v else map_of m x))) =
             (\<Sum>x \<in> dom (map_of m). g (the (map_of m x)))"
    by (intro sum.cong) auto
  moreover have "dom (\<lambda>x. if x = k then Some v else map_of m x) = insert k (dom (map_of m))"
    by auto
  ultimately show ?case using \<open>k \<notin> dom (map_of m)\<close> Cons by (simp add: e finite_dom_map_of)
qed simp

definition same_map :: "('v \<Rightarrow> 'v \<Rightarrow> bool) \<Rightarrow> ('k, 'v) gomap \<Rightarrow> ('k, 'v) gomap \<Rightarrow> bool" where
  "same_map R m m' \<longleftrightarrow> mwf m' \<and> (\<forall>k. rel_option R (map_of m k) (map_of m' k))"

lemma same_map_lookup:
  assumes "same_map R m m'" "map_of m' k = Some v'"
  obtains v where "map_of m k = Some v" "R v v'"
proof -
  have "rel_option R (map_of m k) (Some v')" using assms by (metis same_map_def)
  then show thesis using that by (cases "map_of m k") auto
qed

lemma same_map_msum:
  assumes "mwf m" "same_map R m m'" "\<And>v v'. R v v' \<Longrightarrow> g v = h v'"
  shows "msum g m = msum h m'"
proof -
  have rel: "rel_option R (map_of m k) (map_of m' k)" for k using assms by (simp add: same_map_def)
  have "map_of m k = None \<longleftrightarrow> map_of m' k = None" for k using rel[of k] by (auto elim: option.rel_cases)
  then have "dom (map_of m) = dom (map_of m')" by (auto simp: dom_def)
  moreover have "g (the (map_of m k)) = h (the (map_of m' k))" if "k \<in> dom (map_of m)" for k
    using rel[of k] that assms(3) by (auto simp: option_rel_Some1)
  ultimately show ?thesis
    using assms by (simp add: msum_dom same_map_def)
qed

lemma same_map_length:
  assumes "mwf m" "same_map R m m'"
  shows "length m' = length m"
  using same_map_msum[OF assms, of "\<lambda>_. 1" "\<lambda>_. 1"] by simp

end
