(* ===== verification/DataStore.thy ===== *)
theory DataStore
  imports GoBase
begin

text \<open>
  The node's store of ENIs, IP addresses and pods: \<^verbatim>\<open>ipamd/datastore/data_store.go\<close>.

  The store is one record.  Every exported operation of the code runs under the store's lock,
  so each one is a function from the store to its result and the new store; \<^verbatim>\<open>time.Now()\<close> is
  an argument.  The pointers held in the maps are never shared between two keys, so a write
  through such a pointer is an update of the entry.  The three Prometheus gauges the
  operations set are fields of the record.
\<close>

section \<open>Data\<close>

definition minLifeTime :: duration where "minLifeTime = 1 * minute"
definition addressENICoolingPeriod :: duration where "addressENICoolingPeriod = 1 * minute"
definition addressCoolingPeriod :: duration where "addressCoolingPeriod = 30 * second"

definition DuplicatedENIError :: string where "DuplicatedENIError = ''data store: duplicate ENI''"
definition DuplicateIPError :: string where "DuplicateIPError = ''datastore: duplicated IP''"
definition UnknownIPError :: string where "UnknownIPError = ''datastore: unknown IP''"
definition IPInUseError :: string where
  "IPInUseError = ''datastore: IP is used and can not be deleted''"
definition ENIInUseError :: string where
  "ENIInUseError = ''datastore: ENI is used and can not be deleted''"
definition UnknownENIError :: string where "UnknownENIError = ''datastore: unknown ENI''"

definition ErrUnknownPod :: goerr where "ErrUnknownPod = Sentinel ''datastore: unknown pod''"
definition ErrUnknownPodIP :: goerr where
  "ErrUnknownPodIP = Sentinel ''datastore: pod using unknown IP address''"

lemmas ds_errors = DuplicatedENIError_def DuplicateIPError_def UnknownIPError_def IPInUseError_def
  ENIInUseError_def UnknownENIError_def ErrUnknownPod_def ErrUnknownPodIP_def

record AddressInfo =
  Address :: string
  Assigned :: bool
  UnassignedTime :: time

record ENIIPPool =
  createTime :: time
  lastUnassignedTime :: time
  IsPrimary :: bool
  ID :: string
  DeviceNumber :: int
  AssignedIPv4Addresses :: int
  IPv4Addresses :: "(string, AddressInfo) gomap"

record PodKey =
  pk_name :: string
  pk_namespace :: string
  pk_container :: string

record PodIPInfo =
  pi_IP :: string
  pi_DeviceNumber :: int

text \<open>\<^verbatim>\<open>k8sapi.K8SPodInfo\<close>, the argument of the two pod operations.\<close>

record K8SPodInfo =
  Name :: string
  Namespace :: string
  Container :: string
  IP :: string
  UID :: string

record DataStore =
  total :: int
  assigned :: int
  eniIPPools :: "(string, ENIIPPool) gomap"
  podsIP :: "(PodKey, PodIPInfo) gomap"
  g_enis :: int            \<comment> \<open>gauge \<^verbatim>\<open>awscni_eni_allocated\<close>\<close>
  g_totalIPs :: int        \<comment> \<open>gauge \<^verbatim>\<open>awscni_total_ip_addresses\<close>\<close>
  g_assignedIPs :: int     \<comment> \<open>gauge \<^verbatim>\<open>awscni_assigned_ip_addresses\<close>\<close>

record ENIInfos =
  TotalIPs :: int
  AssignedIPs :: int
  ENIIPPools :: "(string, ENIIPPool) gomap"

section \<open>Operations\<close>

definition NewDataStore :: DataStore where
  "NewDataStore = \<lparr>total = 0, assigned = 0, eniIPPools = [], podsIP = [],
     g_enis = 0, g_totalIPs = 0, g_assignedIPs = 0\<rparr>"

text \<open>A write through the pointer stored for an ENI.\<close>

definition upd_eni :: "string \<Rightarrow> (ENIIPPool \<Rightarrow> ENIIPPool) \<Rightarrow> DataStore \<Rightarrow> DataStore" where
  "upd_eni eniID f ds = ds\<lparr>eniIPPools := AList.map_entry eniID f (eniIPPools ds)\<rparr>"

definition AddENI :: "time \<Rightarrow> string \<Rightarrow> int \<Rightarrow> bool \<Rightarrow> (DataStore, unit) go" where
  "AddENI now eniID deviceNumber isPrimary ds =
     (case map_of (eniIPPools ds) eniID of
        Some _ \<Rightarrow> (Err (NewErr DuplicatedENIError), ds)
      | None \<Rightarrow>
          let pool = \<lparr>createTime = now, lastUnassignedTime = 0, IsPrimary = isPrimary,
                      ID = eniID, DeviceNumber = deviceNumber, AssignedIPv4Addresses = 0,
                      IPv4Addresses = []\<rparr>;
              ds1 = ds\<lparr>eniIPPools := AList.update eniID pool (eniIPPools ds)\<rparr>
          in (Val (), ds1\<lparr>g_enis := int (length (eniIPPools ds1))\<rparr>))"

definition AddIPv4AddressFromStore :: "string \<Rightarrow> string \<Rightarrow> (DataStore, unit) go" where
  "AddIPv4AddressFromStore eniID ipv4 ds =
     (case map_of (eniIPPools ds) eniID of
        None \<Rightarrow> (Err (NewErr ''add ENI's IP to datastore: unknown ENI''), ds)
      | Some curENI \<Rightarrow>
          (case map_of (IPv4Addresses curENI) ipv4 of
             Some _ \<Rightarrow> (Err (NewErr DuplicateIPError), ds)
           | None \<Rightarrow>
               let ds1 = ds\<lparr>total := total ds + 1\<rparr>;
                   ds2 = ds1\<lparr>g_totalIPs := total ds1\<rparr>;
                   info = \<lparr>Address = ipv4, Assigned = False, UnassignedTime = 0\<rparr>
               in (Val (), upd_eni eniID
                     (\<lambda>e. e\<lparr>IPv4Addresses := AList.update ipv4 info (IPv4Addresses e)\<rparr>) ds2)))"

definition DelIPv4AddressFromStore :: "string \<Rightarrow> string \<Rightarrow> (DataStore, unit) go" where
  "DelIPv4AddressFromStore eniID ipv4 ds =
     (case map_of (eniIPPools ds) eniID of
        None \<Rightarrow> (Err (NewErr UnknownENIError), ds)
      | Some curENI \<Rightarrow>
          (case map_of (IPv4Addresses curENI) ipv4 of
             None \<Rightarrow> (Err (NewErr UnknownIPError), ds)
           | Some ipAddr \<Rightarrow>
               if Assigned ipAddr then (Err (NewErr IPInUseError), ds)
               else
                 let ds1 = ds\<lparr>total := total ds - 1\<rparr>;
                     ds2 = ds1\<lparr>g_totalIPs := total ds1\<rparr>
                 in (Val (), upd_eni eniID
                       (\<lambda>e. e\<lparr>IPv4Addresses := AList.delete ipv4 (IPv4Addresses e)\<rparr>) ds2)))"

subsection \<open>Assigning an address to a pod\<close>

definition podKey :: "K8SPodInfo \<Rightarrow> PodKey" where
  "podKey k8sPod = \<lparr>pk_name = Name k8sPod, pk_namespace = Namespace k8sPod,
     pk_container = Container k8sPod\<rparr>"

definition incrementAssignedCount :: "string \<Rightarrow> string \<Rightarrow> DataStore \<Rightarrow> DataStore" where
  "incrementAssignedCount eni addr ds =
     (let ds1 = ds\<lparr>assigned := assigned ds + 1\<rparr>;
          ds2 = upd_eni eni
            (\<lambda>e. e\<lparr>AssignedIPv4Addresses := AssignedIPv4Addresses e + 1,
                   IPv4Addresses := AList.map_entry addr (\<lambda>a. a\<lparr>Assigned := True\<rparr>)
                                      (IPv4Addresses e)\<rparr>) ds1
      in ds2\<lparr>g_assignedIPs := assigned ds2\<rparr>)"

text \<open>The inner loop, over the addresses of one ENI; \<open>None\<close> when it ends without a return.\<close>

fun assign_from_eni ::
  "K8SPodInfo \<Rightarrow> time \<Rightarrow> string \<Rightarrow> ENIIPPool \<Rightarrow> (string, AddressInfo) gomap \<Rightarrow> DataStore
     \<Rightarrow> ((string \<times> int) \<times> DataStore) option" where
  "assign_from_eni k8sPod curTime ek eni [] ds = None"
| "assign_from_eni k8sPod curTime ek eni ((ak, addr) # addrs) ds =
     (if IP k8sPod = Address addr then
        let ds1 = (if \<not> Assigned addr then incrementAssignedCount ek ak ds else ds);
            info = \<lparr>pi_IP = Address addr, pi_DeviceNumber = DeviceNumber eni\<rparr>
        in Some ((Address addr, DeviceNumber eni),
                 ds1\<lparr>podsIP := AList.update (podKey k8sPod) info (podsIP ds1)\<rparr>)
      else if \<not> Assigned addr \<and> IP k8sPod = '''' \<and>
              Sub curTime (UnassignedTime addr) > addressCoolingPeriod then
        let ds1 = incrementAssignedCount ek ak ds;
            info = \<lparr>pi_IP = Address addr, pi_DeviceNumber = DeviceNumber eni\<rparr>
        in Some ((Address addr, DeviceNumber eni),
                 ds1\<lparr>podsIP := AList.update (podKey k8sPod) info (podsIP ds1)\<rparr>)
      else assign_from_eni k8sPod curTime ek eni addrs ds)"

text \<open>The outer loop, over the ENIs.\<close>

fun assign_from_enis ::
  "K8SPodInfo \<Rightarrow> time \<Rightarrow> (string, ENIIPPool) gomap \<Rightarrow> (DataStore, string \<times> int) go" where
  "assign_from_enis k8sPod curTime [] ds =
     (Err (NewErr ''assignPodIPv4AddressUnsafe: no available IP addresses''), ds)"
| "assign_from_enis k8sPod curTime ((ek, eni) # enis) ds =
     (if IP k8sPod = '''' \<and> int (length (IPv4Addresses eni)) = AssignedIPv4Addresses eni then
        assign_from_enis k8sPod curTime enis ds
      else
        case assign_from_eni k8sPod curTime ek eni (IPv4Addresses eni) ds of
          Some (r, ds') \<Rightarrow> (Val r, ds')
        | None \<Rightarrow> assign_from_enis k8sPod curTime enis ds)"

definition assignPodIPv4AddressUnsafe :: "time \<Rightarrow> K8SPodInfo \<Rightarrow> (DataStore, string \<times> int) go" where
  "assignPodIPv4AddressUnsafe curTime k8sPod ds =
     assign_from_enis k8sPod curTime (eniIPPools ds) ds"

definition AssignPodIPv4Address :: "time \<Rightarrow> K8SPodInfo \<Rightarrow> (DataStore, string \<times> int) go" where
  "AssignPodIPv4Address now k8sPod ds =
     (case map_of (podsIP ds) (podKey k8sPod) of
        Some ipAddr \<Rightarrow>
          if pi_IP ipAddr = IP k8sPod \<and> IP k8sPod \<noteq> ''''
          then (Val (pi_IP ipAddr, pi_DeviceNumber ipAddr), ds)
          else (Err (NewErr
            ''AssignPodIPv4Address: invalid pod with multiple IP addresses''), ds)
      | None \<Rightarrow> assignPodIPv4AddressUnsafe now k8sPod ds)"

definition GetStats :: "DataStore \<Rightarrow> int \<times> int" where
  "GetStats ds = (total ds, assigned ds)"

subsection \<open>Releasing an address\<close>

text \<open>The loop over the ENIs: the first one where the address is assigned.\<close>

fun unassign_from_enis ::
  "time \<Rightarrow> PodKey \<Rightarrow> string \<Rightarrow> (string, ENIIPPool) gomap \<Rightarrow> (DataStore, string \<times> int) go" where
  "unassign_from_enis now pk addr [] ds = (Err ErrUnknownPodIP, ds)"
| "unassign_from_enis now pk addr ((ek, eni) # enis) ds =
     (case map_of (IPv4Addresses eni) addr of
        Some ip \<Rightarrow>
          if Assigned ip then
            let ds1 = ds\<lparr>assigned := assigned ds - 1\<rparr>;
                ds2 = ds1\<lparr>g_assignedIPs := assigned ds1\<rparr>;
                ds3 = upd_eni ek
                  (\<lambda>e. e\<lparr>AssignedIPv4Addresses := AssignedIPv4Addresses e - 1,
                         IPv4Addresses := AList.map_entry addr
                           (\<lambda>a. a\<lparr>Assigned := False, UnassignedTime := now\<rparr>) (IPv4Addresses e),
                         lastUnassignedTime := now\<rparr>) ds2
            in (Val (Address ip, DeviceNumber eni),
                ds3\<lparr>podsIP := AList.delete pk (podsIP ds3)\<rparr>)
          else unassign_from_enis now pk addr enis ds
      | None \<Rightarrow> unassign_from_enis now pk addr enis ds)"

definition UnassignPodIPv4Address :: "time \<Rightarrow> K8SPodInfo \<Rightarrow> (DataStore, string \<times> int) go" where
  "UnassignPodIPv4Address now k8sPod ds =
     (case map_of (podsIP ds) (podKey k8sPod) of
        None \<Rightarrow> (Err ErrUnknownPod, ds)
      | Some ipAddr \<Rightarrow>
          unassign_from_enis now (podKey k8sPod) (pi_IP ipAddr) (eniIPPools ds) ds)"

subsection \<open>Removing ENIs\<close>

text \<open>\<^verbatim>\<open>other.ID != eni.ID\<close> compares the IDs stored in the pools.\<close>

fun otherWarmIPs :: "string \<Rightarrow> (string, ENIIPPool) gomap \<Rightarrow> int" where
  "otherWarmIPs eniID [] = 0"
| "otherWarmIPs eniID ((k, other) # pools) =
     (if ID other \<noteq> eniID
      then int (length (IPv4Addresses other)) - AssignedIPv4Addresses other else 0)
     + otherWarmIPs eniID pools"

definition isRequiredForWarmIPTarget :: "int \<Rightarrow> ENIIPPool \<Rightarrow> DataStore \<Rightarrow> bool" where
  "isRequiredForWarmIPTarget warmIPTarget eni ds \<longleftrightarrow>
     otherWarmIPs (ID eni) (eniIPPools ds) < warmIPTarget"

definition isTooYoung :: "time \<Rightarrow> ENIIPPool \<Rightarrow> bool" where
  "isTooYoung now e \<longleftrightarrow> Sub now (createTime e) < minLifeTime"

definition hasIPInCooling :: "time \<Rightarrow> ENIIPPool \<Rightarrow> bool" where
  "hasIPInCooling now e \<longleftrightarrow> Sub now (lastUnassignedTime e) < addressENICoolingPeriod"

definition hasPods :: "ENIIPPool \<Rightarrow> bool" where
  "hasPods e \<longleftrightarrow> AssignedIPv4Addresses e \<noteq> 0"

definition is_deletable :: "time \<Rightarrow> int \<Rightarrow> DataStore \<Rightarrow> ENIIPPool \<Rightarrow> bool" where
  "is_deletable now warmIPTarget ds eni \<longleftrightarrow>
     \<not> IsPrimary eni \<and> \<not> isTooYoung now eni \<and> \<not> hasIPInCooling now eni \<and> \<not> hasPods eni \<and>
     \<not> (warmIPTarget \<noteq> 0 \<and> isRequiredForWarmIPTarget warmIPTarget eni ds)"

definition getDeletableENI :: "time \<Rightarrow> int \<Rightarrow> DataStore \<Rightarrow> ENIIPPool option" where
  "getDeletableENI now warmIPTarget ds =
     map_option snd (find (\<lambda>(k, eni). is_deletable now warmIPTarget ds eni) (eniIPPools ds))"

definition GetENINeedsIP :: "int \<Rightarrow> bool \<Rightarrow> DataStore \<Rightarrow> ENIIPPool option" where
  "GetENINeedsIP maxIPperENI skipPrimary ds =
     map_option snd
       (find (\<lambda>(k, eni). \<not> (skipPrimary \<and> IsPrimary eni) \<and>
                         int (length (IPv4Addresses eni)) < maxIPperENI) (eniIPPools ds))"

text \<open>
  \<^verbatim>\<open>ds.eniIPPools[removableENI].IPv4Addresses\<close> dereferences a nil pointer, and panics, if the
  pool is not stored under its own ID.
\<close>

definition RemoveUnusedENIFromStore :: "time \<Rightarrow> int \<Rightarrow> (DataStore, string) go" where
  "RemoveUnusedENIFromStore now warmIPTarget ds =
     (case getDeletableENI now warmIPTarget ds of
        None \<Rightarrow> (Val '''', ds)
      | Some deletableENI \<Rightarrow>
          let removableENI = ID deletableENI in
          (case map_of (eniIPPools ds) removableENI of
             None \<Rightarrow> (Panic ''nil pointer dereference'', ds)
           | Some pool \<Rightarrow>
               let eniIPCount = int (length (IPv4Addresses pool));
                   ds1 = ds\<lparr>total := total ds - eniIPCount\<rparr>;
                   ds2 = ds1\<lparr>eniIPPools := AList.delete removableENI (eniIPPools ds1)\<rparr>
               in (Val removableENI,
                   ds2\<lparr>g_enis := int (length (eniIPPools ds2)), g_totalIPs := total ds2\<rparr>)))"

definition RemoveENIFromDataStore :: "string \<Rightarrow> (DataStore, unit) go" where
  "RemoveENIFromDataStore eni ds =
     (case map_of (eniIPPools ds) eni of
        None \<Rightarrow> (Err (NewErr UnknownENIError), ds)
      | Some eniIPPool \<Rightarrow>
          if AssignedIPv4Addresses eniIPPool \<noteq> 0 then (Err (NewErr ENIInUseError), ds)
          else
            let ds1 = ds\<lparr>total := total ds - int (length (IPv4Addresses eniIPPool))\<rparr>;
                ds2 = ds1\<lparr>eniIPPools := AList.delete eni (eniIPPools ds1)\<rparr>
            in (Val (), ds2\<lparr>g_enis := int (length (eniIPPools ds2))\<rparr>))"

subsection \<open>Introspection\<close>

definition podInfoKey :: "PodKey \<Rightarrow> string" where
  "podInfoKey pk = pk_name pk @ ''_'' @ pk_namespace pk @ ''_'' @ pk_container pk"

definition GetPodInfos :: "DataStore \<Rightarrow> (string, PodIPInfo) gomap" where
  "GetPodInfos ds = fold (\<lambda>(pk, info). AList.update (podInfoKey pk) info) (podsIP ds) []"

definition GetENIInfos :: "DataStore \<Rightarrow> ENIInfos" where
  "GetENIInfos ds = \<lparr>TotalIPs = total ds, AssignedIPs = assigned ds,
     ENIIPPools = fold (\<lambda>(eni, info). AList.update eni info) (eniIPPools ds) []\<rparr>"

definition GetENIs :: "DataStore \<Rightarrow> int" where
  "GetENIs ds = int (length (eniIPPools ds))"

definition GetENIIPPools :: "string \<Rightarrow> DataStore \<Rightarrow> (string, AddressInfo) gomap res" where
  "GetENIIPPools eni ds =
     (case map_of (eniIPPools ds) eni of
        None \<Rightarrow> Err (NewErr UnknownENIError)
      | Some eniIPPool \<Rightarrow> Val (fold (\<lambda>(ip, a). AList.update ip a) (IPv4Addresses eniIPPool) []))"

end
