(* ===== verification/DataStoreInv.thy ===== *)
theory DataStoreInv
  imports DataStore
begin

text \<open>
  The data store's invariant: its counters agree with its maps, every pool is stored under its
  own ID and every address under itself.  Every operation keeps it, for every order of the
  \<^verbatim>\<open>range\<close> loops; \<open>ds_reach\<close> is the set of stores the operations can reach.
\<close>

named_theorems ds_simps \<open>projections of the store's updates\<close>

section \<open>The invariant\<close>

definition assignedIn :: "ENIIPPool \<Rightarrow> int" where
  "assignedIn p = msum (\<lambda>a. if Assigned a then 1 else 0) (IPv4Addresses p)"

definition numIPs :: "ENIIPPool \<Rightarrow> int" where
  "numIPs p = int (length (IPv4Addresses p))"

definition eni_ok :: "string \<Rightarrow> ENIIPPool \<Rightarrow> bool" where
  "eni_ok k p \<longleftrightarrow> ID p = k \<and> mwf (IPv4Addresses p) \<and>
     (\<forall>ip a. map_of (IPv4Addresses p) ip = Some a \<longrightarrow> Address a = ip) \<and>
     AssignedIPv4Addresses p = assignedIn p"

definition pools_inv :: "(string, ENIIPPool) gomap \<Rightarrow> int \<Rightarrow> int \<Rightarrow> bool" where
  "pools_inv m t a \<longleftrightarrow> mwf m \<and> (\<forall>k p. map_of m k = Some p \<longrightarrow> eni_ok k p) \<and>
     t = msum numIPs m \<and> a = msum AssignedIPv4Addresses m"

definition ds_inv :: "DataStore \<Rightarrow> bool" where
  "ds_inv ds \<longleftrightarrow> pools_inv (eniIPPools ds) (total ds) (assigned ds) \<and> mwf (podsIP ds) \<and>
     g_enis ds = int (length (eniIPPools ds)) \<and> g_assignedIPs ds = assigned ds"

section \<open>Pools\<close>

lemma pools_inv_lookup: "pools_inv m t a \<Longrightarrow> map_of m k = Some p \<Longrightarrow> eni_ok k p"
  by (simp add: pools_inv_def)

lemma pools_inv_map_entry:
  assumes "pools_inv m t a" "map_of m k = Some p" "eni_ok k (f p)"
  shows "pools_inv (AList.map_entry k f m)
           (t - numIPs p + numIPs (f p))
           (a - AssignedIPv4Addresses p + AssignedIPv4Addresses (f p))"
  using assms by (auto simp: pools_inv_def gomap_simps msum_map_entry split: if_splits)

lemma pools_inv_insert:
  assumes "pools_inv m t a" "map_of m k = None" "eni_ok k p"
  shows "pools_inv (AList.update k p m) (t + numIPs p) (a + AssignedIPv4Addresses p)"
proof -
  have "k \<notin> set (mkeys m)" using assms(2) by (simp add: set_mkeys domIff)
  then show ?thesis
    using assms by (auto simp: pools_inv_def gomap_simps msum_update_new split: if_splits)
qed

lemma pools_inv_delete:
  assumes "pools_inv m t a" "map_of m k = Some p"
  shows "pools_inv (AList.delete k m) (t - numIPs p) (a - AssignedIPv4Addresses p)"
  using assms by (auto simp: pools_inv_def gomap_simps msum_delete split: if_splits)

subsection \<open>One pool\<close>

lemma eni_ok_address: "eni_ok k p \<Longrightarrow> map_of (IPv4Addresses p) ip = Some a \<Longrightarrow> Address a = ip"
  by (simp add: eni_ok_def)

lemma eni_ok_new: "eni_ok k \<lparr>createTime = t, lastUnassignedTime = u, IsPrimary = b, ID = k,
    DeviceNumber = d, AssignedIPv4Addresses = 0, IPv4Addresses = []\<rparr>"
  by (simp add: eni_ok_def assignedIn_def)

lemma eni_ok_add_ip:
  assumes "eni_ok k p" "map_of (IPv4Addresses p) ip = None" "\<not> Assigned a" "Address a = ip"
  shows "eni_ok k (p\<lparr>IPv4Addresses := AList.update ip a (IPv4Addresses p)\<rparr>)"
proof -
  have "ip \<notin> set (mkeys (IPv4Addresses p))" using assms(2) by (simp add: set_mkeys domIff)
  then show ?thesis using assms
    by (auto simp: eni_ok_def assignedIn_def gomap_simps msum_update_new split: if_splits)
qed

lemma eni_ok_del_ip:
  assumes "eni_ok k p" "map_of (IPv4Addresses p) ip = Some a" "\<not> Assigned a"
  shows "eni_ok k (p\<lparr>IPv4Addresses := AList.delete ip (IPv4Addresses p)\<rparr>)"
  using assms by (auto simp: eni_ok_def assignedIn_def gomap_simps msum_delete split: if_splits)

lemma eni_ok_assign:
  assumes "eni_ok k p" "map_of (IPv4Addresses p) ip = Some a" "\<not> Assigned a"
  shows "eni_ok k (p\<lparr>AssignedIPv4Addresses := AssignedIPv4Addresses p + 1,
           IPv4Addresses := AList.map_entry ip (\<lambda>a. a\<lparr>Assigned := True\<rparr>) (IPv4Addresses p)\<rparr>)"
  using assms by (auto simp: eni_ok_def assignedIn_def gomap_simps msum_map_entry split: if_splits)

lemma eni_ok_unassign:
  assumes "eni_ok k p" "map_of (IPv4Addresses p) ip = Some a" "Assigned a"
  shows "eni_ok k (p\<lparr>AssignedIPv4Addresses := AssignedIPv4Addresses p - 1,
           IPv4Addresses := AList.map_entry ip (\<lambda>a. a\<lparr>Assigned := False, UnassignedTime := t\<rparr>)
             (IPv4Addresses p), lastUnassignedTime := u\<rparr>)"
  using assms by (auto simp: eni_ok_def assignedIn_def gomap_simps msum_map_entry split: if_splits)

lemma numIPs_simps [ds_simps]:
  "numIPs (p\<lparr>IPv4Addresses := m\<rparr>) = int (length m)"
  "numIPs (p\<lparr>AssignedIPv4Addresses := n\<rparr>) = numIPs p"
  "numIPs (p\<lparr>lastUnassignedTime := u\<rparr>) = numIPs p"
  by (simp_all add: numIPs_def)

lemma length_map_entry [simp]: "length (AList.map_entry k f m) = length m"
  by (induction m) auto

lemma assignedIn_bounds: "0 \<le> assignedIn p \<and> assignedIn p \<le> numIPs p"
proof -
  have "assignedIn p \<le> msum (\<lambda>_. 1) (IPv4Addresses p)"
    unfolding assignedIn_def by (rule msum_mono) simp
  moreover have "0 \<le> assignedIn p"
    unfolding assignedIn_def by (rule msum_nonneg) simp
  ultimately show ?thesis by (simp add: numIPs_def)
qed

lemma msum_lt_length:
  assumes "(k, a) \<in> set m" "\<not> P a"
  shows "msum (\<lambda>a. if P a then 1 else 0) m < int (length m)"
  using assms
proof (induction m)
  case (Cons e m)
  have "msum (\<lambda>a. if P a then 1 else 0) m \<le> msum (\<lambda>_. 1) m" by (rule msum_mono) simp
  with Cons show ?case by fastforce
qed simp

lemma eni_full_iff:
  assumes "eni_ok k p"
  shows "int (length (IPv4Addresses p)) = AssignedIPv4Addresses p \<longleftrightarrow>
           (\<forall>ip a. map_of (IPv4Addresses p) ip = Some a \<longrightarrow> Assigned a)" (is "?l \<longleftrightarrow> ?r")
proof
  assume ?l
  then show ?r using assms msum_lt_length[of _ _ "IPv4Addresses p" Assigned]
    by (fastforce simp: eni_ok_def assignedIn_def dest: map_of_SomeD)
next
  assume r: ?r
  have wf: "mwf (IPv4Addresses p)" using assms by (simp add: eni_ok_def)
  then have "\<forall>(ip, a) \<in> set (IPv4Addresses p). Assigned a"
    using r by (auto simp flip: mwf_map_of)
  then have "msum (\<lambda>_. 1) (IPv4Addresses p) \<le> assignedIn p"
    unfolding assignedIn_def by (intro msum_mono) auto
  with assignedIn_bounds[of p] have "assignedIn p = numIPs p" by (simp add: numIPs_def)
  then show ?l using assms by (simp add: eni_ok_def numIPs_def)
qed

section \<open>The two pod operations in closed form\<close>

definition eligible :: "K8SPodInfo \<Rightarrow> time \<Rightarrow> AddressInfo \<Rightarrow> bool" where
  "eligible pod now a \<longleftrightarrow> IP pod = Address a \<or>
     \<not> Assigned a \<and> IP pod = '''' \<and> Sub now (UnassignedTime a) > addressCoolingPeriod"

definition take_addr ::
  "K8SPodInfo \<Rightarrow> string \<Rightarrow> ENIIPPool \<Rightarrow> string \<Rightarrow> AddressInfo \<Rightarrow> DataStore \<Rightarrow> DataStore" where
  "take_addr pod ek eni ak a ds =
     (let ds1 = (if \<not> Assigned a then incrementAssignedCount ek ak ds else ds)
      in ds1\<lparr>podsIP := AList.update (podKey pod)
               \<lparr>pi_IP = Address a, pi_DeviceNumber = DeviceNumber eni\<rparr> (podsIP ds1)\<rparr>)"

lemma assign_from_eni_find:
  "assign_from_eni pod now ek eni addrs ds =
     map_option (\<lambda>(ak, a). ((Address a, DeviceNumber eni), take_addr pod ek eni ak a ds))
       (find (\<lambda>(ak, a). eligible pod now a) addrs)"
proof (induction addrs)
  case (Cons x addrs)
  obtain ak a where x: "x = (ak, a)" by (cases x)
  show ?case
    using Cons.IH unfolding x
    by (cases "IP pod = Address a"; cases "Assigned a"; cases "IP pod = ''''")
       (simp_all add: eligible_def take_addr_def Let_def)
qed simp

definition skipped :: "K8SPodInfo \<Rightarrow> ENIIPPool \<Rightarrow> bool" where
  "skipped pod p \<longleftrightarrow> IP pod = '''' \<and> int (length (IPv4Addresses p)) = AssignedIPv4Addresses p"

lemma assign_from_enis_Val:
  assumes "assign_from_enis pod now pools ds = (Val (ip, dev), ds')"
  shows "\<exists>ek eni ak a. (ek, eni) \<in> set pools \<and> \<not> skipped pod eni \<and>
           (ak, a) \<in> set (IPv4Addresses eni) \<and> eligible pod now a \<and>
           ip = Address a \<and> dev = DeviceNumber eni \<and> ds' = take_addr pod ek eni ak a ds"
  using assms
proof (induction pools)
  case (Cons x pools)
  obtain ek eni where x: "x = (ek, eni)" by (cases x)
  show ?case
  proof (cases "skipped pod eni \<or> find (\<lambda>(ak, a). eligible pod now a) (IPv4Addresses eni) = None")
    case True
    then have "assign_from_enis pod now pools ds = (Val (ip, dev), ds')"
      using Cons.prems x by (auto simp: skipped_def assign_from_eni_find split: if_splits)
    from Cons.IH[OF this] show ?thesis by (auto simp: x)
  next
    case False
    then obtain ak a where f: "find (\<lambda>(ak, a). eligible pod now a) (IPv4Addresses eni) = Some (ak, a)"
      by fastforce
    from find_SomeD[OF this] have "(ak, a) \<in> set (IPv4Addresses eni)" "eligible pod now a" by auto
    then show ?thesis
      using Cons.prems False f unfolding x
      by (intro exI[of _ ek] exI[of _ eni] exI[of _ ak] exI[of _ a])
         (auto simp: skipped_def assign_from_eni_find)
  qed
qed simp

lemma assign_from_enis_no_panic: "assign_from_enis pod now pools ds \<noteq> (Panic m, ds')"
  by (induction pools) (auto split: option.splits if_splits)

lemma assign_from_enis_Err:
  assumes "assign_from_enis pod now pools ds = (Err e, ds')"
  shows "ds' = ds \<and> e = NewErr ''assignPodIPv4AddressUnsafe: no available IP addresses'' \<and>
         (\<forall>(ek, eni) \<in> set pools. skipped pod eni \<or>
            (\<forall>(ak, a) \<in> set (IPv4Addresses eni). \<not> eligible pod now a))"
  using assms
proof (induction pools)
  case (Cons x pools)
  obtain ek eni where x: "x = (ek, eni)" by (cases x)
  have "skipped pod eni \<or> find (\<lambda>(ak, a). eligible pod now a) (IPv4Addresses eni) = None"
    using Cons.prems x by (auto simp: skipped_def assign_from_eni_find split: if_splits option.splits)
  moreover from this have "assign_from_enis pod now pools ds = (Err e, ds')"
    using Cons.prems x by (auto simp: skipped_def assign_from_eni_find split: if_splits)
  ultimately show ?case using Cons.IH x by (auto simp: find_None_iff)
qed simp

definition release_addr ::
  "time \<Rightarrow> PodKey \<Rightarrow> string \<Rightarrow> string \<Rightarrow> DataStore \<Rightarrow> DataStore" where
  "release_addr now pk addr ek ds =
     (upd_eni ek
        (\<lambda>e. e\<lparr>AssignedIPv4Addresses := AssignedIPv4Addresses e - 1,
               IPv4Addresses := AList.map_entry addr
                 (\<lambda>a. a\<lparr>Assigned := False, UnassignedTime := now\<rparr>) (IPv4Addresses e),
               lastUnassignedTime := now\<rparr>)
        (ds\<lparr>assigned := assigned ds - 1, g_assignedIPs := assigned ds - 1\<rparr>))
     \<lparr>podsIP := AList.delete pk (podsIP ds)\<rparr>"

definition holds :: "string \<Rightarrow> ENIIPPool \<Rightarrow> bool" where
  "holds addr eni \<longleftrightarrow> (\<exists>ip. map_of (IPv4Addresses eni) addr = Some ip \<and> Assigned ip)"

lemma unassign_from_enis_Val:
  assumes "unassign_from_enis now pk addr pools ds = (Val (r, dev), ds')"
  shows "\<exists>ek eni ip. (ek, eni) \<in> set pools \<and> map_of (IPv4Addresses eni) addr = Some ip \<and>
           Assigned ip \<and> r = Address ip \<and> dev = DeviceNumber eni \<and>
           ds' = release_addr now pk addr ek ds"
  using assms
proof (induction pools)
  case (Cons x pools)
  obtain ek eni where x: "x = (ek, eni)" by (cases x)
  show ?case
  proof (cases "holds addr eni")
    case False
    then have "unassign_from_enis now pk addr pools ds = (Val (r, dev), ds')"
      using Cons.prems x by (auto simp: holds_def split: option.splits)
    from Cons.IH[OF this] show ?thesis by (auto simp: x)
  next
    case True
    then obtain ip where "map_of (IPv4Addresses eni) addr = Some ip" "Assigned ip"
      by (auto simp: holds_def)
    then show ?thesis
      using Cons.prems unfolding x
      by (intro exI[of _ ek] exI[of _ eni] exI[of _ ip])
         (auto simp: release_addr_def upd_eni_def Let_def)
  qed
qed simp

lemma unassign_from_enis_no_panic: "unassign_from_enis now pk addr pools ds \<noteq> (Panic m, ds')"
  by (induction pools) (auto simp: Let_def split: option.splits if_splits)

lemma unassign_from_enis_Err:
  assumes "unassign_from_enis now pk addr pools ds = (Err e, ds')"
  shows "ds' = ds \<and> e = ErrUnknownPodIP \<and> (\<forall>(ek, eni) \<in> set pools. \<not> holds addr eni)"
  using assms
proof (induction pools)
  case (Cons x pools)
  obtain ek eni where x: "x = (ek, eni)" by (cases x)
  have "\<not> holds addr eni"
    using Cons.prems x by (auto simp: holds_def Let_def)
  moreover from this have "unassign_from_enis now pk addr pools ds = (Err e, ds')"
    using Cons.prems x by (auto simp: holds_def split: option.splits)
  ultimately show ?case using Cons.IH x by auto
qed simp

section \<open>Every operation keeps the invariant\<close>

lemma upd_eni_simps [ds_simps, simp]:
  "total (upd_eni k f ds) = total ds"
  "assigned (upd_eni k f ds) = assigned ds"
  "podsIP (upd_eni k f ds) = podsIP ds"
  "eniIPPools (upd_eni k f ds) = AList.map_entry k f (eniIPPools ds)"
  "g_enis (upd_eni k f ds) = g_enis ds"
  "g_totalIPs (upd_eni k f ds) = g_totalIPs ds"
  "g_assignedIPs (upd_eni k f ds) = g_assignedIPs ds"
  by (simp_all add: upd_eni_def)

lemma incrementAssignedCount_simps [ds_simps, simp]:
  "total (incrementAssignedCount ek ak ds) = total ds"
  "assigned (incrementAssignedCount ek ak ds) = assigned ds + 1"
  "podsIP (incrementAssignedCount ek ak ds) = podsIP ds"
  "eniIPPools (incrementAssignedCount ek ak ds) = AList.map_entry ek
     (\<lambda>e. e\<lparr>AssignedIPv4Addresses := AssignedIPv4Addresses e + 1,
            IPv4Addresses := AList.map_entry ak (\<lambda>a. a\<lparr>Assigned := True\<rparr>) (IPv4Addresses e)\<rparr>)
     (eniIPPools ds)"
  "g_enis (incrementAssignedCount ek ak ds) = g_enis ds"
  "g_totalIPs (incrementAssignedCount ek ak ds) = g_totalIPs ds"
  "g_assignedIPs (incrementAssignedCount ek ak ds) = assigned ds + 1"
  by (simp_all add: incrementAssignedCount_def Let_def)

lemma ds_inv_pools: "ds_inv ds \<Longrightarrow> pools_inv (eniIPPools ds) (total ds) (assigned ds)"
  by (simp add: ds_inv_def)

lemma ds_inv_mem:
  "ds_inv ds \<Longrightarrow> (ek, eni) \<in> set (eniIPPools ds) \<Longrightarrow> map_of (eniIPPools ds) ek = Some eni"
  by (simp add: ds_inv_def pools_inv_def mwf_map_of)

lemma ds_inv_eni_ok: "ds_inv ds \<Longrightarrow> map_of (eniIPPools ds) ek = Some eni \<Longrightarrow> eni_ok ek eni"
  by (auto simp: ds_inv_def pools_inv_def)

lemma eni_ok_mem:
  "eni_ok ek eni \<Longrightarrow> (ak, a) \<in> set (IPv4Addresses eni) \<Longrightarrow>
     map_of (IPv4Addresses eni) ak = Some a \<and> Address a = ak"
  by (simp add: eni_ok_def mwf_map_of)

lemma ds_inv_NewDataStore: "ds_inv NewDataStore"
  by (simp add: ds_inv_def pools_inv_def NewDataStore_def)

lemma ds_inv_AddENI: "ds_inv ds \<Longrightarrow> ds_inv (snd (AddENI now eniID dev prim ds))"
proof (cases "map_of (eniIPPools ds) eniID")
  case None
  let ?p = "\<lparr>createTime = now, lastUnassignedTime = 0, IsPrimary = prim, ID = eniID,
    DeviceNumber = dev, AssignedIPv4Addresses = 0, IPv4Addresses = []\<rparr>"
  assume "ds_inv ds"
  then have "pools_inv (AList.update eniID ?p (eniIPPools ds)) (total ds + 0) (assigned ds + 0)"
    using pools_inv_insert[OF _ None eni_ok_new] by (fastforce simp: ds_inv_def numIPs_def)
  with None \<open>ds_inv ds\<close> show ?thesis by (simp add: AddENI_def ds_inv_def Let_def)
qed (simp add: AddENI_def)

lemma ds_inv_AddIPv4AddressFromStore:
  assumes "ds_inv ds"
  shows "ds_inv (snd (AddIPv4AddressFromStore eniID ip ds))"
proof (cases "map_of (eniIPPools ds) eniID")
  case None
  then show ?thesis using assms by (simp add: AddIPv4AddressFromStore_def)
next
  case (Some p)
  note ok = ds_inv_eni_ok[OF assms Some]
  show ?thesis
  proof (cases "map_of (IPv4Addresses p) ip")
    case (Some a)
    with \<open>map_of (eniIPPools ds) eniID = Some p\<close> assms show ?thesis
      by (simp add: AddIPv4AddressFromStore_def)
  next
    case None
    let ?a = "\<lparr>Address = ip, Assigned = False, UnassignedTime = 0\<rparr>"
    have "ip \<notin> set (mkeys (IPv4Addresses p))" using None by (simp add: set_mkeys domIff)
    with pools_inv_map_entry[OF ds_inv_pools[OF assms] Some, where
        f = "\<lambda>e. e\<lparr>IPv4Addresses := AList.update ip ?a (IPv4Addresses e)\<rparr>"]
      eni_ok_add_ip[OF ok None, of ?a] None Some assms
    show ?thesis
      by (simp add: AddIPv4AddressFromStore_def Let_def ds_inv_def ds_simps length_update
          numIPs_def)
  qed
qed

lemma ds_inv_DelIPv4AddressFromStore:
  assumes "ds_inv ds"
  shows "ds_inv (snd (DelIPv4AddressFromStore eniID ip ds))"
proof (cases "map_of (eniIPPools ds) eniID")
  case None
  then show ?thesis using assms by (simp add: DelIPv4AddressFromStore_def)
next
  case (Some p)
  note p = Some and ok = ds_inv_eni_ok[OF assms Some]
  show ?thesis
  proof (cases "\<exists>a. map_of (IPv4Addresses p) ip = Some a \<and> \<not> Assigned a")
    case False
    with p assms show ?thesis by (auto simp: DelIPv4AddressFromStore_def split: option.split)
  next
    case True
    then obtain a where a: "map_of (IPv4Addresses p) ip = Some a" "\<not> Assigned a" by blast
    have wf: "mwf (IPv4Addresses p)" using ok by (simp add: eni_ok_def)
    have mem: "ip \<in> set (mkeys (IPv4Addresses p))" using a by (auto simp: set_mkeys)
    then have pos: "0 < length (IPv4Addresses p)" by (cases "IPv4Addresses p") auto
    with pools_inv_map_entry[OF ds_inv_pools[OF assms] p, where
        f = "\<lambda>e. e\<lparr>IPv4Addresses := AList.delete ip (IPv4Addresses e)\<rparr>"]
      eni_ok_del_ip[OF ok a] a p wf mem assms
    show ?thesis
      by (simp add: DelIPv4AddressFromStore_def Let_def ds_inv_def ds_simps length_delete
          numIPs_def of_nat_diff)
  qed
qed

lemma ds_inv_take_addr:
  assumes "ds_inv ds" "map_of (eniIPPools ds) ek = Some eni"
    and "map_of (IPv4Addresses eni) ak = Some a"
  shows "ds_inv (take_addr pod ek eni ak a ds)"
proof (cases "Assigned a")
  case True
  then show ?thesis using assms(1) by (simp add: take_addr_def ds_inv_def)
next
  case False
  with pools_inv_map_entry[OF ds_inv_pools[OF assms(1)] assms(2), where
      f = "\<lambda>e. e\<lparr>AssignedIPv4Addresses := AssignedIPv4Addresses e + 1,
        IPv4Addresses := AList.map_entry ak (\<lambda>a. a\<lparr>Assigned := True\<rparr>) (IPv4Addresses e)\<rparr>"]
    eni_ok_assign[OF ds_inv_eni_ok[OF assms(1,2)] assms(3) False] assms(1)
  show ?thesis by (simp add: take_addr_def Let_def ds_inv_def ds_simps numIPs_def)
qed

lemma AssignPodIPv4Address_Val:
  assumes "ds_inv ds" "AssignPodIPv4Address now pod ds = (Val (ip, dev), ds')"
    and "map_of (podsIP ds) (podKey pod) = None"
  obtains ek eni a where "map_of (eniIPPools ds) ek = Some eni" "\<not> skipped pod eni"
    "map_of (IPv4Addresses eni) ip = Some a" "Address a = ip" "eligible pod now a"
    "dev = DeviceNumber eni" "ds' = take_addr pod ek eni ip a ds"
proof -
  from assms have "assign_from_enis pod now (eniIPPools ds) ds = (Val (ip, dev), ds')"
    by (simp add: AssignPodIPv4Address_def assignPodIPv4AddressUnsafe_def)
  from assign_from_enis_Val[OF this] obtain ek eni ak a where
    *: "(ek, eni) \<in> set (eniIPPools ds)" "\<not> skipped pod eni" "(ak, a) \<in> set (IPv4Addresses eni)"
      "eligible pod now a" "ip = Address a" "dev = DeviceNumber eni"
      "ds' = take_addr pod ek eni ak a ds" by blast
  note m = ds_inv_mem[OF assms(1) *(1)]
  with eni_ok_mem[OF ds_inv_eni_ok[OF assms(1) m] *(3)] * show thesis
    by (intro that[of ek eni a]) auto
qed

lemma ds_inv_AssignPodIPv4Address:
  assumes "ds_inv ds"
  shows "ds_inv (snd (AssignPodIPv4Address now pod ds))"
proof (cases "AssignPodIPv4Address now pod ds")
  case (Pair r ds')
  have "ds_inv ds'"
  proof (cases "map_of (podsIP ds) (podKey pod)")
    case (Some i)
    with Pair assms show ?thesis by (simp add: AssignPodIPv4Address_def split: if_splits)
  next
    case None
    then have run: "assign_from_enis pod now (eniIPPools ds) ds = (r, ds')"
      using Pair by (simp add: AssignPodIPv4Address_def assignPodIPv4AddressUnsafe_def)
    show ?thesis
    proof (cases r)
      case (Val x)
      obtain ip dev where "x = (ip, dev)" by (cases x)
      with Val Pair have "AssignPodIPv4Address now pod ds = (Val (ip, dev), ds')" by simp
      from AssignPodIPv4Address_Val[OF assms this None] show ?thesis
        using ds_inv_take_addr[OF assms] by metis
    next
      case (Err e)
      with assign_from_enis_Err run assms show ?thesis by blast
    next
      case (Panic m)
      with run assign_from_enis_no_panic show ?thesis by metis
    qed
  qed
  with Pair show ?thesis by simp
qed

lemma release_addr_simps [ds_simps, simp]:
  "total (release_addr now pk ip ek ds) = total ds"
  "assigned (release_addr now pk ip ek ds) = assigned ds - 1"
  "podsIP (release_addr now pk ip ek ds) = AList.delete pk (podsIP ds)"
  "eniIPPools (release_addr now pk ip ek ds) = AList.map_entry ek
     (\<lambda>e. e\<lparr>AssignedIPv4Addresses := AssignedIPv4Addresses e - 1,
            IPv4Addresses := AList.map_entry ip
              (\<lambda>a. a\<lparr>Assigned := False, UnassignedTime := now\<rparr>) (IPv4Addresses e),
            lastUnassignedTime := now\<rparr>) (eniIPPools ds)"
  "g_enis (release_addr now pk ip ek ds) = g_enis ds"
  "g_totalIPs (release_addr now pk ip ek ds) = g_totalIPs ds"
  "g_assignedIPs (release_addr now pk ip ek ds) = assigned ds - 1"
  by (simp_all add: release_addr_def)

lemma ds_inv_release_addr:
  assumes "ds_inv ds" "map_of (eniIPPools ds) ek = Some eni"
    and "map_of (IPv4Addresses eni) ip = Some a" "Assigned a"
  shows "ds_inv (release_addr now pk ip ek ds)"
  using pools_inv_map_entry[OF ds_inv_pools[OF assms(1)] assms(2), where
      f = "\<lambda>e. e\<lparr>AssignedIPv4Addresses := AssignedIPv4Addresses e - 1,
        IPv4Addresses := AList.map_entry ip
          (\<lambda>a. a\<lparr>Assigned := False, UnassignedTime := now\<rparr>) (IPv4Addresses e),
        lastUnassignedTime := now\<rparr>"]
    eni_ok_unassign[OF ds_inv_eni_ok[OF assms(1,2)] assms(3,4), of now now] assms(1)
  by (simp add: ds_inv_def numIPs_def)

lemma UnassignPodIPv4Address_Val:
  assumes "ds_inv ds" "UnassignPodIPv4Address now pod ds = (Val (ip, dev), ds')"
  obtains i ek eni a where "map_of (podsIP ds) (podKey pod) = Some i" "pi_IP i = ip"
    "map_of (eniIPPools ds) ek = Some eni" "map_of (IPv4Addresses eni) ip = Some a" "Assigned a"
    "dev = DeviceNumber eni" "ds' = release_addr now (podKey pod) ip ek ds"
proof -
  from assms(2) obtain i where i: "map_of (podsIP ds) (podKey pod) = Some i" and
    run: "unassign_from_enis now (podKey pod) (pi_IP i) (eniIPPools ds) ds = (Val (ip, dev), ds')"
    by (auto simp: UnassignPodIPv4Address_def split: option.splits)
  from unassign_from_enis_Val[OF run] obtain ek eni a where
    *: "(ek, eni) \<in> set (eniIPPools ds)" "map_of (IPv4Addresses eni) (pi_IP i) = Some a" "Assigned a"
      "ip = Address a" "dev = DeviceNumber eni" "ds' = release_addr now (podKey pod) (pi_IP i) ek ds"
    by blast
  note m = ds_inv_mem[OF assms(1) *(1)]
  with eni_ok_address[OF ds_inv_eni_ok[OF assms(1) m] *(2)] * i show thesis
    by (intro that[of i ek eni a]) auto
qed

lemma ds_inv_UnassignPodIPv4Address:
  assumes "ds_inv ds"
  shows "ds_inv (snd (UnassignPodIPv4Address now pod ds))"
proof (cases "UnassignPodIPv4Address now pod ds")
  case (Pair r ds')
  have "ds_inv ds'"
  proof (cases r)
    case (Val x)
    obtain ip dev where "x = (ip, dev)" by (cases x)
    with Val Pair have "UnassignPodIPv4Address now pod ds = (Val (ip, dev), ds')" by simp
    from UnassignPodIPv4Address_Val[OF assms this] show ?thesis
      using ds_inv_release_addr[OF assms] by metis
  next
    case (Err e)
    with Pair have "ds' = ds"
      by (auto simp: UnassignPodIPv4Address_def dest: unassign_from_enis_Err split: option.splits)
    with assms show ?thesis by simp
  next
    case (Panic m)
    with Pair show ?thesis
      by (auto simp: UnassignPodIPv4Address_def unassign_from_enis_no_panic split: option.splits)
  qed
  with Pair show ?thesis by simp
qed

lemma getDeletableENI_Some:
  assumes "ds_inv ds" "getDeletableENI now w ds = Some eni"
  shows "map_of (eniIPPools ds) (ID eni) = Some eni" and "is_deletable now w ds eni"
proof -
  from assms(2) obtain k where f:
    "find (\<lambda>(k, eni). is_deletable now w ds eni) (eniIPPools ds) = Some (k, eni)"
    by (auto simp: getDeletableENI_def)
  note m = ds_inv_mem[OF assms(1) find_SomeD(1)[OF f]]
  with ds_inv_eni_ok[OF assms(1) m] show "map_of (eniIPPools ds) (ID eni) = Some eni"
    by (simp add: eni_ok_def)
  show "is_deletable now w ds eni" using find_SomeD(2)[OF f] by simp
qed

lemma ds_inv_RemoveUnusedENIFromStore:
  assumes "ds_inv ds"
  shows "ds_inv (snd (RemoveUnusedENIFromStore now w ds))"
proof (cases "getDeletableENI now w ds")
  case (Some eni)
  from getDeletableENI_Some[OF assms this] have
    m: "map_of (eniIPPools ds) (ID eni) = Some eni" and "AssignedIPv4Addresses eni = 0"
    by (simp_all add: is_deletable_def hasPods_def)
  with pools_inv_delete[OF ds_inv_pools[OF assms] m] Some assms show ?thesis
    by (simp add: RemoveUnusedENIFromStore_def Let_def ds_inv_def numIPs_def)
qed (use assms in \<open>simp add: RemoveUnusedENIFromStore_def\<close>)

lemma ds_inv_RemoveENIFromDataStore:
  assumes "ds_inv ds"
  shows "ds_inv (snd (RemoveENIFromDataStore eni ds))"
proof (cases "map_of (eniIPPools ds) eni")
  case (Some p)
  from pools_inv_delete[OF ds_inv_pools[OF assms] Some] Some assms show ?thesis
    by (auto simp: RemoveENIFromDataStore_def Let_def ds_inv_def numIPs_def)
qed (use assms in \<open>simp add: RemoveENIFromDataStore_def\<close>)

lemmas ds_inv_ops =
  ds_inv_AddENI ds_inv_AddIPv4AddressFromStore ds_inv_DelIPv4AddressFromStore
  ds_inv_AssignPodIPv4Address ds_inv_UnassignPodIPv4Address
  ds_inv_RemoveUnusedENIFromStore ds_inv_RemoveENIFromDataStore

end
