(* ===== verification/AllocatorSpec.thy ===== *)
theory AllocatorSpec
  imports GoBase
begin

text \<open>
  The contract between the store and the server that answers the CNI plugin: an allocator that
  hands an address to one pod at a time and takes it back.  \<open>held s\<close> says which address and
  device each pod has.  The clients' lemmas are proved here once; \<open>DataStoreProps\<close> interprets
  the locale on the store's operations.
\<close>

locale ip_allocator =
  fixes assign :: "time \<Rightarrow> 'pod \<Rightarrow> 's \<Rightarrow> (string \<times> int) res \<times> 's"
    and release :: "time \<Rightarrow> 'pod \<Rightarrow> 's \<Rightarrow> (string \<times> int) res \<times> 's"
    and held :: "'s \<Rightarrow> 'pod \<Rightarrow> (string \<times> int) option"
    and invar :: "'s \<Rightarrow> bool"
  assumes invar_assign: "invar s \<Longrightarrow> invar (snd (assign now pod s))"
    and invar_release: "invar s \<Longrightarrow> invar (snd (release now pod s))"
    and held_inj: "invar s \<Longrightarrow> held s pod = Some (ip, d) \<Longrightarrow> held s pod' = Some (ip, d') \<Longrightarrow> pod = pod'"
    and assign_Val: "invar s \<Longrightarrow> assign now pod s = (Val r, s') \<Longrightarrow>
          held s pod = None \<and> held s' = (held s)(pod \<mapsto> r)"
    and assign_not_Val: "invar s \<Longrightarrow> assign now pod s = (x, s') \<Longrightarrow> (\<nexists>r. x = Val r) \<Longrightarrow> s' = s"
    and release_held: "invar s \<Longrightarrow> held s pod = Some r \<Longrightarrow>
          \<exists>s'. release now pod s = (Val r, s') \<and> held s' = (held s)(pod := None)"
    and release_not_held: "invar s \<Longrightarrow> held s pod = None \<Longrightarrow> \<exists>e. release now pod s = (Err e, s)"
begin

lemma assign_exclusive:
  assumes "invar s" "assign now pod s = (Val (ip, d), s')" "held s pod' = Some (ip', d')"
  shows "ip' \<noteq> ip"
proof
  assume "ip' = ip"
  note a = assign_Val[OF assms(1,2)]
  have inv': "invar s'" using invar_assign[OF assms(1), of now pod] assms(2) by simp
  have "pod' \<noteq> pod" using a assms(3) by auto
  then have "held s' pod' = Some (ip, d')" "held s' pod = Some (ip, d)"
    using a assms(3) \<open>ip' = ip\<close> by simp_all
  with held_inj[OF inv'] \<open>pod' \<noteq> pod\<close> show False by blast
qed

lemma assign_release:
  assumes "invar s" "assign now pod s = (Val r, s')"
  shows "\<exists>s''. release now' pod s' = (Val r, s'') \<and> held s'' = held s"
proof -
  note a = assign_Val[OF assms]
  have "invar s'" using invar_assign[OF assms(1), of now pod] assms(2) by simp
  moreover have "held s' pod = Some r" using a by simp
  ultimately obtain s'' where "release now' pod s' = (Val r, s'')" "held s'' = (held s')(pod := None)"
    using release_held by blast
  moreover have "(held s')(pod := None) = held s" using a by (auto simp: fun_eq_iff)
  ultimately show ?thesis by auto
qed

lemma assign_frame:
  assumes "invar s" "pod' \<noteq> pod"
  shows "held (snd (assign now pod s)) pod' = held s pod'"
proof (cases "\<exists>r. fst (assign now pod s) = Val r")
  case True
  then obtain r where "assign now pod s = (Val r, snd (assign now pod s))" by (metis prod.collapse)
  from assign_Val[OF assms(1) this] assms(2) show ?thesis by simp
next
  case False
  then have "snd (assign now pod s) = s"
    using assign_not_Val[OF assms(1), of now pod "fst (assign now pod s)" "snd (assign now pod s)"] by simp
  then show ?thesis by simp
qed

lemma release_frame:
  assumes "invar s" "pod' \<noteq> pod"
  shows "held (snd (release now pod s)) pod' = held s pod'"
proof (cases "held s pod")
  case None
  with release_not_held[OF assms(1), of pod now] show ?thesis by auto
next
  case (Some r)
  with release_held[OF assms(1), of pod r now] assms(2) show ?thesis by auto
qed

lemma release_twice:
  assumes "invar s" "release now pod s = (Val r, s')"
  shows "\<exists>e. release now' pod s' = (Err e, s')"
proof -
  have inv': "invar s'" using invar_release[OF assms(1), of now pod] assms(2) by simp
  have "held s pod \<noteq> None"
  proof
    assume "held s pod = None"
    from release_not_held[OF assms(1) this, of now] assms(2) show False by simp
  qed
  then have "held s pod = Some (the (held s pod))" by simp
  from release_held[OF assms(1) this, of now] assms(2) have "held s' pod = None" by auto
  from release_not_held[OF inv' this] show ?thesis .
qed

end

end
