(* ===== verification/DataStoreProps.thy ===== *)
theory DataStoreProps
  imports DataStoreInv AllocatorSpec
begin

text \<open>
  The reachable stores, the abstract specification of the store as an address allocator
  (a locale, interpreted on the operations), and the properties of the store.
\<close>

section \<open>Histories of the store\<close>

datatype ds_op =
    OpAddENI string int bool
  | OpAddIP string string
  | OpDelIP string string
  | OpAssign K8SPodInfo
  | OpUnassign K8SPodInfo
  | OpRemoveUnusedENI int
  | OpRemoveENI string

fun ds_exec :: "time \<Rightarrow> ds_op \<Rightarrow> DataStore \<Rightarrow> DataStore" where
  "ds_exec now (OpAddENI e d b) ds = snd (AddENI now e d b ds)"
| "ds_exec now (OpAddIP e ip) ds = snd (AddIPv4AddressFromStore e ip ds)"
| "ds_exec now (OpDelIP e ip) ds = snd (DelIPv4AddressFromStore e ip ds)"
| "ds_exec now (OpAssign pod) ds = snd (AssignPodIPv4Address now pod ds)"
| "ds_exec now (OpUnassign pod) ds = snd (UnassignPodIPv4Address now pod ds)"
| "ds_exec now (OpRemoveUnusedENI w) ds = snd (RemoveUnusedENIFromStore now w ds)"
| "ds_exec now (OpRemoveENI e) ds = snd (RemoveENIFromDataStore e ds)"

text \<open>
  Go iterates over a map in any order: two stores with the same contents and another order of
  their maps (the maps of addresses included) are the same store to the code.
\<close>

definition same_eni :: "ENIIPPool \<Rightarrow> ENIIPPool \<Rightarrow> bool" where
  "same_eni p p' \<longleftrightarrow> same_map (=) (IPv4Addresses p) (IPv4Addresses p') \<and>
     p'\<lparr>IPv4Addresses := IPv4Addresses p\<rparr> = p"

definition reordered :: "DataStore \<Rightarrow> DataStore \<Rightarrow> bool" where
  "reordered ds ds' \<longleftrightarrow> same_map same_eni (eniIPPools ds) (eniIPPools ds') \<and>
     same_map (=) (podsIP ds) (podsIP ds') \<and>
     ds'\<lparr>eniIPPools := eniIPPools ds, podsIP := podsIP ds\<rparr> = ds"

inductive ds_reach :: "DataStore \<Rightarrow> bool" where
  start: "ds_reach NewDataStore"
| exec: "ds_reach ds \<Longrightarrow> ds_reach (ds_exec now x ds)"
| reorder: "ds_reach ds \<Longrightarrow> reordered ds ds' \<Longrightarrow> ds_reach ds'"

lemma eni_ok_same_eni:
  assumes "eni_ok k p" "same_eni p p'"
  shows "eni_ok k p'"
proof -
  have same: "same_map (=) (IPv4Addresses p) (IPv4Addresses p')"
    and p: "p = p'\<lparr>IPv4Addresses := IPv4Addresses p\<rparr>"
    using assms(2) by (simp_all add: same_eni_def)
  have "ID p' = ID p" "AssignedIPv4Addresses p' = AssignedIPv4Addresses p"
    by (subst p, simp)+
  moreover have "assignedIn p' = assignedIn p"
    using same_map_msum[OF _ same] assms(1) by (simp add: assignedIn_def eni_ok_def)
  ultimately show ?thesis
    using assms(1) same by (auto simp: eni_ok_def same_map_def option.rel_eq)
qed

lemma same_eni_counts:
  assumes "same_eni p p'" "mwf (IPv4Addresses p)"
  shows "numIPs p' = numIPs p" and "AssignedIPv4Addresses p' = AssignedIPv4Addresses p"
proof -
  have p: "p = p'\<lparr>IPv4Addresses := IPv4Addresses p\<rparr>" using assms(1) by (simp add: same_eni_def)
  show "AssignedIPv4Addresses p' = AssignedIPv4Addresses p" by (subst p) simp
  show "numIPs p' = numIPs p"
    using assms same_map_length by (force simp: numIPs_def same_eni_def)
qed

lemma ds_inv_reordered:
  assumes "ds_inv ds" "reordered ds ds'"
  shows "ds_inv ds'"
proof -
  have enis: "same_map same_eni (eniIPPools ds) (eniIPPools ds')"
    and pods: "same_map (=) (podsIP ds) (podsIP ds')"
    and ds: "ds = ds'\<lparr>eniIPPools := eniIPPools ds, podsIP := podsIP ds\<rparr>"
    using assms(2) by (simp_all add: reordered_def)
  have flds: "total ds' = total ds" "assigned ds' = assigned ds" "g_enis ds' = g_enis ds"
    "g_assignedIPs ds' = g_assignedIPs ds"
    by (subst ds, simp)+
  have wf: "mwf (eniIPPools ds)" using assms(1) by (simp add: ds_inv_def pools_inv_def)
  let ?R = "\<lambda>p p'. same_eni p p' \<and> mwf (IPv4Addresses p)"
  have ok: "mwf (IPv4Addresses p)" if "map_of (eniIPPools ds) k = Some p" for k p
    using ds_inv_eni_ok[OF assms(1) that] by (simp add: eni_ok_def)
  then have R: "same_map ?R (eniIPPools ds) (eniIPPools ds')"
    using enis unfolding same_map_def
    by (metis (no_types, lifting) option.rel_cases option.rel_intros)
  have "msum numIPs (eniIPPools ds) = msum numIPs (eniIPPools ds')"
    by (rule same_map_msum[OF wf R]) (metis same_eni_counts)
  moreover have "msum AssignedIPv4Addresses (eniIPPools ds) =
      msum AssignedIPv4Addresses (eniIPPools ds')"
    by (rule same_map_msum[OF wf R]) (metis same_eni_counts)
  moreover have "eni_ok k p'" if m: "map_of (eniIPPools ds') k = Some p'" for k p'
    using same_map_lookup[OF enis m] eni_ok_same_eni ds_inv_eni_ok[OF assms(1)] by metis
  ultimately show ?thesis
    using assms(1) enis pods flds same_map_length[OF wf enis]
    by (simp add: ds_inv_def pools_inv_def same_map_def)
qed

lemma ds_inv_exec: "ds_inv ds \<Longrightarrow> ds_inv (ds_exec now x ds)"
  by (cases x) (simp_all add: ds_inv_ops)

section \<open>The abstract specification\<close>

text \<open>
  What the store promises its clients, without counters, orders and gauges: which addresses it
  has on which ENI and whether they are in use, the device number of each ENI, and which
  address each pod holds.
\<close>

record pool_spec =
  s_addr :: "string \<Rightarrow> string \<Rightarrow> AddressInfo option"
  s_dev :: "string \<Rightarrow> int option"
  s_pods :: "PodKey \<Rightarrow> PodIPInfo option"

definition ds_abs :: "DataStore \<Rightarrow> pool_spec" where
  "ds_abs ds =
     \<lparr>s_addr = (\<lambda>ek ip. case map_of (eniIPPools ds) ek of
                   None \<Rightarrow> None | Some p \<Rightarrow> map_of (IPv4Addresses p) ip),
      s_dev = (\<lambda>ek. map_option DeviceNumber (map_of (eniIPPools ds) ek)),
      s_pods = map_of (podsIP ds)\<rparr>"

definition set_addr :: "string \<Rightarrow> string \<Rightarrow> AddressInfo option \<Rightarrow> pool_spec \<Rightarrow> pool_spec" where
  "set_addr ek ip a s = s\<lparr>s_addr := (s_addr s)(ek := (s_addr s ek)(ip := a))\<rparr>"

definition set_pod :: "PodKey \<Rightarrow> PodIPInfo option \<Rightarrow> pool_spec \<Rightarrow> pool_spec" where
  "set_pod pk i s = s\<lparr>s_pods := (s_pods s)(pk := i)\<rparr>"

definition drop_eni :: "string \<Rightarrow> pool_spec \<Rightarrow> pool_spec" where
  "drop_eni ek s = s\<lparr>s_addr := (s_addr s)(ek := \<lambda>_. None), s_dev := (s_dev s)(ek := None)\<rparr>"

lemma ds_abs_eq: "ds_abs ds = ds_abs ds' \<longleftrightarrow>
    s_addr (ds_abs ds) = s_addr (ds_abs ds') \<and> s_dev (ds_abs ds) = s_dev (ds_abs ds') \<and>
    s_pods (ds_abs ds) = s_pods (ds_abs ds')"
  by (simp add: ds_abs_def)

lemma abs_AddENI:
  "AddENI now ek d b ds = (Val (), ds') \<Longrightarrow>
     ds_abs ds' = (drop_eni ek (ds_abs ds))\<lparr>s_dev := (s_dev (ds_abs ds))(ek \<mapsto> d)\<rparr>"
  by (auto simp: AddENI_def ds_abs_def drop_eni_def Let_def gomap_simps fun_eq_iff
      split: option.splits)

lemma abs_AddIP:
  "AddIPv4AddressFromStore ek ip ds = (Val (), ds') \<Longrightarrow>
     ds_abs ds' = set_addr ek ip (Some \<lparr>Address = ip, Assigned = False, UnassignedTime = 0\<rparr>)
       (ds_abs ds)"
  by (auto simp: AddIPv4AddressFromStore_def ds_abs_def set_addr_def Let_def gomap_simps fun_eq_iff
      split: option.splits)

lemma abs_DelIP:
  "DelIPv4AddressFromStore ek ip ds = (Val (), ds') \<Longrightarrow>
     ds_abs ds' = set_addr ek ip None (ds_abs ds)"
  by (auto simp: DelIPv4AddressFromStore_def ds_abs_def set_addr_def Let_def gomap_simps fun_eq_iff
      split: option.splits if_splits)

lemma abs_take_addr:
  assumes "map_of (eniIPPools ds) ek = Some eni" "map_of (IPv4Addresses eni) ip = Some a"
    "Address a = ip"
  shows "ds_abs (take_addr pod ek eni ip a ds) =
    set_pod (podKey pod) (Some \<lparr>pi_IP = ip, pi_DeviceNumber = DeviceNumber eni\<rparr>)
      (set_addr ek ip (Some (a\<lparr>Assigned := True\<rparr>)) (ds_abs ds))"
  using assms
  by (auto simp: take_addr_def ds_abs_def set_addr_def set_pod_def Let_def gomap_simps fun_eq_iff
      split: option.splits)

lemma abs_release_addr:
  assumes "map_of (eniIPPools ds) ek = Some eni" "map_of (IPv4Addresses eni) ip = Some a"
  shows "ds_abs (release_addr now pk ip ek ds) =
    set_pod pk None (set_addr ek ip (Some (a\<lparr>Assigned := False, UnassignedTime := now\<rparr>))
      (ds_abs ds))"
  using assms
  by (auto simp: ds_abs_def set_addr_def set_pod_def gomap_simps fun_eq_iff split: option.splits)

lemma abs_delete_eni:
  "s_addr (ds_abs ds') = s_addr (drop_eni ek (ds_abs ds)) \<and>
   s_dev (ds_abs ds') = s_dev (drop_eni ek (ds_abs ds)) \<and>
   s_pods (ds_abs ds') = s_pods (ds_abs ds)"
  if "eniIPPools ds' = AList.delete ek (eniIPPools ds)" "podsIP ds' = podsIP ds"
  using that by (auto simp: ds_abs_def drop_eni_def gomap_simps fun_eq_iff split: option.splits)

lemma abs_reordered:
  assumes "reordered ds ds'"
  shows "ds_abs ds' = ds_abs ds"
proof -
  have enis: "same_map same_eni (eniIPPools ds) (eniIPPools ds')"
    and pods: "same_map (=) (podsIP ds) (podsIP ds')"
    using assms by (simp_all add: reordered_def)
  have "map_of (podsIP ds') = map_of (podsIP ds)"
    using pods by (simp add: same_map_def option.rel_eq fun_eq_iff)
  moreover have dev: "DeviceNumber p' = DeviceNumber p" if "same_eni p p'" for p p'
  proof -
    from that have "p = p'\<lparr>IPv4Addresses := IPv4Addresses p\<rparr>" by (simp add: same_eni_def)
    then have "DeviceNumber p = DeviceNumber (p'\<lparr>IPv4Addresses := IPv4Addresses p\<rparr>)" by simp
    then show ?thesis by simp
  qed
  moreover have rel: "rel_option same_eni (map_of (eniIPPools ds) k) (map_of (eniIPPools ds') k)" for k
    using enis by (simp add: same_map_def)
  have "map_option DeviceNumber (map_of (eniIPPools ds') k) =
        map_option DeviceNumber (map_of (eniIPPools ds) k)" for k
    using rel[of k] by (cases rule: option.rel_cases) (auto simp: dev)
  moreover have "(case map_of (eniIPPools ds') k of None \<Rightarrow> None | Some p \<Rightarrow> map_of (IPv4Addresses p) ip)
      = (case map_of (eniIPPools ds) k of None \<Rightarrow> None | Some p \<Rightarrow> map_of (IPv4Addresses p) ip)" for k ip
    using rel[of k]
    by (cases rule: option.rel_cases) (auto simp: same_eni_def same_map_def option.rel_eq)
  ultimately show ?thesis by (simp add: ds_abs_def)
qed

lemma spec_simps [simp]:
  "s_addr (set_addr ek ip v s) ek' ip' = (if ek' = ek \<and> ip' = ip then v else s_addr s ek' ip')"
  "s_dev (set_addr ek ip v s) = s_dev s"
  "s_pods (set_addr ek ip v s) = s_pods s"
  "s_addr (set_pod pk i s) = s_addr s"
  "s_dev (set_pod pk i s) = s_dev s"
  "s_pods (set_pod pk i s) pk' = (if pk' = pk then i else s_pods s pk')"
  "s_addr (drop_eni ek s) ek' ip = (if ek' = ek then None else s_addr s ek' ip)"
  "s_dev (drop_eni ek s) ek' = (if ek' = ek then None else s_dev s ek')"
  "s_pods (drop_eni ek s) = s_pods s"
  by (simp_all add: set_addr_def set_pod_def drop_eni_def)

section \<open>Exclusive use of addresses\<close>

text \<open>
  Every pod's address is in use on the ENI with the pod's device number; no two pods have the
  same address; every address is on one ENI; every address in use belongs to a pod; no address
  is the empty string.
\<close>

definition pods_backed :: "pool_spec \<Rightarrow> bool" where
  "pods_backed s \<longleftrightarrow> (\<forall>pk i. s_pods s pk = Some i \<longrightarrow>
     (\<exists>ek a. s_addr s ek (pi_IP i) = Some a \<and> Assigned a \<and> s_dev s ek = Some (pi_DeviceNumber i)))"

definition pods_distinct :: "pool_spec \<Rightarrow> bool" where
  "pods_distinct s \<longleftrightarrow> (\<forall>pk pk' i i'. s_pods s pk = Some i \<longrightarrow> s_pods s pk' = Some i' \<longrightarrow>
     pi_IP i = pi_IP i' \<longrightarrow> pk = pk')"

definition addr_unique :: "pool_spec \<Rightarrow> bool" where
  "addr_unique s \<longleftrightarrow> (\<forall>ek ek' ip a a'. s_addr s ek ip = Some a \<longrightarrow> s_addr s ek' ip = Some a' \<longrightarrow> ek = ek')"

definition used_backed :: "pool_spec \<Rightarrow> bool" where
  "used_backed s \<longleftrightarrow> (\<forall>ek ip a. s_addr s ek ip = Some a \<longrightarrow> Assigned a \<longrightarrow>
     (\<exists>pk i. s_pods s pk = Some i \<and> pi_IP i = ip))"

definition addr_nonempty :: "pool_spec \<Rightarrow> bool" where
  "addr_nonempty s \<longleftrightarrow> (\<forall>ek ip a. s_addr s ek ip = Some a \<longrightarrow> ip \<noteq> '''')"

definition excl :: "pool_spec \<Rightarrow> bool" where
  "excl s \<longleftrightarrow> pods_backed s \<and> pods_distinct s \<and> addr_unique s \<and> used_backed s \<and> addr_nonempty s"

lemmas excl_defs = excl_def pods_backed_def pods_distinct_def addr_unique_def used_backed_def
  addr_nonempty_def

lemma excl_add_eni:
  assumes "excl s" "s_dev s ek = None"
    and "\<And>ip. s_addr s ek ip = None"
  shows "excl ((drop_eni ek s)\<lparr>s_dev := (s_dev s)(ek \<mapsto> d)\<rparr>)"
proof -
  have "s_addr (drop_eni ek s) = s_addr s" by (intro ext) (simp add: assms(3))
  then show ?thesis using assms unfolding excl_defs by simp metis
qed

lemma excl_add_addr:
  assumes "excl s" "\<And>ek'. s_addr s ek' ip = None" "ip \<noteq> ''''" "\<not> Assigned a"
  shows "excl (set_addr ek ip (Some a) s)"
proof -
  have "pods_backed (set_addr ek ip (Some a) s)"
    using assms unfolding excl_defs by simp (metis option.distinct(1))
  then show ?thesis using assms unfolding excl_defs by simp
qed

lemma excl_del_addr:
  assumes "excl s" "s_addr s ek ip = Some a" "\<not> Assigned a"
  shows "excl (set_addr ek ip None s)"
proof -
  have "pods_backed (set_addr ek ip None s)"
    using assms unfolding excl_defs by simp (metis option.inject)
  then show ?thesis using assms unfolding excl_defs by simp
qed

lemma excl_drop_eni:
  assumes "excl s" "\<And>ip a. s_addr s ek ip = Some a \<Longrightarrow> \<not> Assigned a"
  shows "excl (drop_eni ek s)"
proof -
  have "pods_backed (drop_eni ek s)"
    using assms unfolding excl_defs by simp metis
  then show ?thesis using assms unfolding excl_defs by simp
qed

lemma excl_assign:
  assumes "excl s" "s_addr s ek ip = Some a" "\<not> Assigned a" "s_dev s ek = Some d" "s_pods s pk = None"
  shows "excl (set_pod pk (Some \<lparr>pi_IP = ip, pi_DeviceNumber = d\<rparr>)
           (set_addr ek ip (Some (a\<lparr>Assigned := True\<rparr>)) s))" (is "excl ?s")
proof -
  have fresh: "pi_IP i \<noteq> ip" if "s_pods s pk' = Some i" for pk' i
    using assms(1-3) that unfolding excl_defs by (metis option.inject)
  have "pods_backed ?s" using assms fresh unfolding excl_defs by simp metis
  moreover have "pods_distinct ?s" using assms fresh unfolding excl_defs by auto
  moreover have "addr_unique ?s"
    using assms unfolding excl_def addr_unique_def by simp (metis not_None_eq)
  moreover have "addr_nonempty ?s"
    using assms unfolding excl_def addr_nonempty_def by simp metis
  moreover have "used_backed ?s" using assms unfolding excl_defs by simp
      (metis PodIPInfo.select_convs(1) option.distinct(1))
  ultimately show ?thesis by (simp add: excl_def)
qed

lemma excl_release:
  assumes "excl s" "s_addr s ek ip = Some a" "Assigned a" "s_pods s pk = Some i" "pi_IP i = ip"
    and "\<not> Assigned a'"
  shows "excl (set_pod pk None (set_addr ek ip (Some a') s))" (is "excl ?s")
proof -
  have "pods_backed ?s" using assms unfolding excl_defs by simp metis
  moreover have "pods_distinct ?s" using assms unfolding excl_defs by simp
  moreover have "addr_unique ?s"
    using assms unfolding excl_def addr_unique_def by simp (metis not_None_eq)
  moreover have "addr_nonempty ?s"
    using assms unfolding excl_def addr_nonempty_def by simp metis
  moreover have "used_backed ?s" using assms unfolding excl_defs by simp
      (metis option.inject)
  ultimately show ?thesis by (simp add: excl_def)
qed

subsection \<open>Histories that keep addresses exclusive\<close>

text \<open>
  What the rest of the system owes the store: an address it adds is on no other ENI (EC2
  gives an address to one interface) and is not empty; a pod that asks for a given address
  (only when ipamd restarts and finds the pod running) is the only one that asks for it.
\<close>

fun op_ok :: "ds_op \<Rightarrow> DataStore \<Rightarrow> bool" where
  "op_ok (OpAddIP e ip) ds \<longleftrightarrow> ip \<noteq> '''' \<and>
     list_all (\<lambda>(k, p). k = e \<or> ip \<notin> set (mkeys (IPv4Addresses p))) (eniIPPools ds)"
| "op_ok (OpAssign pod) ds \<longleftrightarrow> IP pod = '''' \<or>
     list_all (\<lambda>(pk, i). pi_IP i = IP pod \<longrightarrow> pk = podKey pod) (podsIP ds)"
| "op_ok _ ds \<longleftrightarrow> True"

inductive cni_reach :: "DataStore \<Rightarrow> bool" where
  start: "cni_reach NewDataStore"
| exec: "cni_reach ds \<Longrightarrow> op_ok x ds \<Longrightarrow> cni_reach (ds_exec now x ds)"
| reorder: "cni_reach ds \<Longrightarrow> reordered ds ds' \<Longrightarrow> cni_reach ds'"

definition pods_inv :: "DataStore \<Rightarrow> bool" where
  "pods_inv ds \<longleftrightarrow> excl (ds_abs ds) \<and> assigned ds = int (length (podsIP ds))"

lemma s_addr_iff:
  "s_addr (ds_abs ds) ek ip = Some a \<longleftrightarrow>
     (\<exists>p. map_of (eniIPPools ds) ek = Some p \<and> map_of (IPv4Addresses p) ip = Some a)"
  by (simp add: ds_abs_def split: option.split)

lemma s_pods_iff [simp]: "s_pods (ds_abs ds) = map_of (podsIP ds)"
  by (simp add: ds_abs_def)

lemma s_dev_iff: "s_dev (ds_abs ds) ek = map_option DeviceNumber (map_of (eniIPPools ds) ek)"
  by (simp add: ds_abs_def)

lemma pods_inv_NewDataStore: "pods_inv NewDataStore"
  by (simp add: pods_inv_def excl_defs ds_abs_def NewDataStore_def)

lemma res_unchanged:
  "fst (AddENI now e d b ds) \<noteq> Val () \<Longrightarrow> snd (AddENI now e d b ds) = ds"
  "fst (AddIPv4AddressFromStore e ip ds) \<noteq> Val () \<Longrightarrow> snd (AddIPv4AddressFromStore e ip ds) = ds"
  "fst (DelIPv4AddressFromStore e ip ds) \<noteq> Val () \<Longrightarrow> snd (DelIPv4AddressFromStore e ip ds) = ds"
  "fst (RemoveENIFromDataStore e ds) \<noteq> Val () \<Longrightarrow> snd (RemoveENIFromDataStore e ds) = ds"
  by (auto simp: AddENI_def AddIPv4AddressFromStore_def DelIPv4AddressFromStore_def
      RemoveENIFromDataStore_def Let_def split: option.splits if_splits)

lemma pods_inv_AddENI: "pods_inv ds \<Longrightarrow> pods_inv (snd (AddENI now e d b ds))"
proof (cases "fst (AddENI now e d b ds) = Val ()")
  case True
  assume inv: "pods_inv ds"
  from True obtain ds' where r: "AddENI now e d b ds = (Val (), ds')"
    by (cases "AddENI now e d b ds") simp
  then have "map_of (eniIPPools ds) e = None" and f: "assigned ds' = assigned ds" "podsIP ds' = podsIP ds"
    by (auto simp: AddENI_def Let_def split: option.splits)
  then have "excl (ds_abs ds')"
    using inv abs_AddENI[OF r] excl_add_eni[of "ds_abs ds" e d]
    by (simp add: pods_inv_def s_dev_iff ds_abs_def)
  then show ?thesis using inv f by (simp add: r pods_inv_def)
qed (simp add: res_unchanged)

lemma pods_inv_AddIP:
  assumes "pods_inv ds" "op_ok (OpAddIP e ip) ds"
  shows "pods_inv (snd (AddIPv4AddressFromStore e ip ds))"
proof (cases "fst (AddIPv4AddressFromStore e ip ds) = Val ()")
  case True
  then obtain ds' where r: "AddIPv4AddressFromStore e ip ds = (Val (), ds')"
    by (cases "AddIPv4AddressFromStore e ip ds") simp
  then obtain p where p: "map_of (eniIPPools ds) e = Some p" "map_of (IPv4Addresses p) ip = None"
    and f: "assigned ds' = assigned ds" "podsIP ds' = podsIP ds"
    by (auto simp: AddIPv4AddressFromStore_def Let_def split: option.splits)
  have "s_addr (ds_abs ds) ek ip = None" for ek
  proof (rule ccontr)
    assume "s_addr (ds_abs ds) ek ip \<noteq> None"
    then obtain q a where q: "map_of (eniIPPools ds) ek = Some q" "map_of (IPv4Addresses q) ip = Some a"
      by (auto simp: s_addr_iff)
    have "ek = e \<or> ip \<notin> set (mkeys (IPv4Addresses q))"
      using assms(2) map_of_SomeD[OF q(1)] by (auto simp: list_all_iff)
    moreover have "ip \<in> set (mkeys (IPv4Addresses q))" using q(2) by (auto simp: set_mkeys)
    ultimately show False using p q by simp
  qed
  then have "excl (ds_abs ds')"
    using assms abs_AddIP[OF r] excl_add_addr[of "ds_abs ds" ip _ e] by (simp add: pods_inv_def)
  then show ?thesis using assms f by (simp add: r pods_inv_def)
qed (use assms in \<open>simp add: res_unchanged\<close>)

lemma pods_inv_DelIP: "pods_inv ds \<Longrightarrow> pods_inv (snd (DelIPv4AddressFromStore e ip ds))"
proof (cases "fst (DelIPv4AddressFromStore e ip ds) = Val ()")
  case True
  assume inv: "pods_inv ds"
  from True obtain ds' where r: "DelIPv4AddressFromStore e ip ds = (Val (), ds')"
    by (cases "DelIPv4AddressFromStore e ip ds") simp
  then obtain p a where p: "map_of (eniIPPools ds) e = Some p" "map_of (IPv4Addresses p) ip = Some a"
    "\<not> Assigned a" and f: "assigned ds' = assigned ds" "podsIP ds' = podsIP ds"
    by (auto simp: DelIPv4AddressFromStore_def Let_def split: option.splits if_splits)
  then have "excl (ds_abs ds')"
    using inv abs_DelIP[OF r] excl_del_addr[of "ds_abs ds" e ip a]
    by (simp add: pods_inv_def s_addr_iff)
  then show ?thesis using inv f by (simp add: r pods_inv_def)
qed (simp add: res_unchanged)

lemma pods_inv_drop_eni:
  assumes "ds_inv ds" "pods_inv ds" "map_of (eniIPPools ds) ek = Some p" "AssignedIPv4Addresses p = 0"
    and "eniIPPools ds' = AList.delete ek (eniIPPools ds)" "podsIP ds' = podsIP ds"
    and "assigned ds' = assigned ds"
  shows "pods_inv ds'"
proof -
  have "\<not> Assigned a" if "map_of (IPv4Addresses p) ip = Some a" for ip a
  proof
    assume "Assigned a"
    then have "1 \<le> assignedIn p"
      using msum_member_le[of "IPv4Addresses p" "\<lambda>a. if Assigned a then 1 else 0" ip a] that
      by (simp add: assignedIn_def map_of_SomeD)
    then show False
      using ds_inv_eni_ok[OF assms(1,3)] assms(4) by (simp add: eni_ok_def)
  qed
  then have "excl (drop_eni ek (ds_abs ds))"
    using assms(2,3) by (intro excl_drop_eni) (auto simp: pods_inv_def s_addr_iff)
  moreover have "ds_abs ds' = drop_eni ek (ds_abs ds)"
    using abs_delete_eni[OF assms(5,6)] by (simp add: drop_eni_def)
  ultimately show ?thesis using assms by (simp add: pods_inv_def)
qed

lemma pods_inv_RemoveENI:
  assumes "ds_inv ds" "pods_inv ds"
  shows "pods_inv (snd (RemoveENIFromDataStore e ds))"
proof (cases "fst (RemoveENIFromDataStore e ds) = Val ()")
  case True
  then obtain ds' p where r: "RemoveENIFromDataStore e ds = (Val (), ds')"
    "map_of (eniIPPools ds) e = Some p" "AssignedIPv4Addresses p = 0"
    by (cases "RemoveENIFromDataStore e ds")
       (auto simp: RemoveENIFromDataStore_def split: option.splits if_splits)
  then show ?thesis
    by (intro pods_inv_drop_eni[OF assms r(2,3)])
       (auto simp: RemoveENIFromDataStore_def Let_def)
qed (use assms in \<open>simp add: res_unchanged\<close>)

lemma pods_inv_RemoveUnusedENI:
  assumes "ds_inv ds" "pods_inv ds"
  shows "pods_inv (snd (RemoveUnusedENIFromStore now w ds))"
proof (cases "getDeletableENI now w ds")
  case (Some eni)
  note d = getDeletableENI_Some[OF assms(1) Some]
  from d(2) have "AssignedIPv4Addresses eni = 0" by (simp add: is_deletable_def hasPods_def)
  then show ?thesis
    using Some d(1)
    by (intro pods_inv_drop_eni[OF assms d(1)]) (simp_all add: RemoveUnusedENIFromStore_def Let_def)
qed (use assms in \<open>simp add: RemoveUnusedENIFromStore_def\<close>)

lemma AssignPodIPv4Address_unchanged:
  assumes "\<nexists>r. fst (AssignPodIPv4Address now pod ds) = Val r \<and> map_of (podsIP ds) (podKey pod) = None"
  shows "snd (AssignPodIPv4Address now pod ds) = ds"
proof (cases "map_of (podsIP ds) (podKey pod)")
  case None
  obtain r ds' where run: "assign_from_enis pod now (eniIPPools ds) ds = (r, ds')"
    by (cases "assign_from_enis pod now (eniIPPools ds) ds")
  then have eq: "AssignPodIPv4Address now pod ds = (r, ds')"
    using None by (simp add: AssignPodIPv4Address_def assignPodIPv4AddressUnsafe_def)
  from run eq None assms obtain e where "r = Err e"
    by (cases r) (auto simp: assign_from_enis_no_panic)
  with assign_from_enis_Err run eq show ?thesis by fastforce
qed (simp add: AssignPodIPv4Address_def)

lemma UnassignPodIPv4Address_unchanged:
  assumes "\<nexists>r. fst (UnassignPodIPv4Address now pod ds) = Val r"
  shows "snd (UnassignPodIPv4Address now pod ds) = ds"
proof (cases "map_of (podsIP ds) (podKey pod)")
  case (Some i)
  obtain r ds' where
    run: "unassign_from_enis now (podKey pod) (pi_IP i) (eniIPPools ds) ds = (r, ds')"
    by (cases "unassign_from_enis now (podKey pod) (pi_IP i) (eniIPPools ds) ds")
  then have eq: "UnassignPodIPv4Address now pod ds = (r, ds')"
    using Some by (simp add: UnassignPodIPv4Address_def)
  from run eq assms obtain e where "r = Err e"
    by (cases r) (auto simp: unassign_from_enis_no_panic)
  with unassign_from_enis_Err run eq show ?thesis by fastforce
qed (simp add: UnassignPodIPv4Address_def)

lemma pods_inv_Assign:
  assumes "ds_inv ds" "pods_inv ds" "op_ok (OpAssign pod) ds"
  shows "pods_inv (snd (AssignPodIPv4Address now pod ds))"
proof (cases "\<exists>r. fst (AssignPodIPv4Address now pod ds) = Val r \<and>
                  map_of (podsIP ds) (podKey pod) = None")
  case True
  then obtain ip dev ds' where r: "AssignPodIPv4Address now pod ds = (Val (ip, dev), ds')"
    and new: "map_of (podsIP ds) (podKey pod) = None"
    by (cases "AssignPodIPv4Address now pod ds") auto
  obtain ek eni a where h: "map_of (eniIPPools ds) ek = Some eni" "\<not> skipped pod eni"
    "map_of (IPv4Addresses eni) ip = Some a" "Address a = ip" "eligible pod now a"
    "dev = DeviceNumber eni" "ds' = take_addr pod ek eni ip a ds"
    by (rule AssignPodIPv4Address_Val[OF assms(1) r new])
  have ex: "excl (ds_abs ds)" using assms(2) by (simp add: pods_inv_def)
  have at: "s_addr (ds_abs ds) ek ip = Some a" using h by (simp add: s_addr_iff)
  have unused: "\<not> Assigned a"
  proof
    assume "Assigned a"
    from ex at this obtain pk i where i: "map_of (podsIP ds) pk = Some i" "pi_IP i = ip"
      unfolding excl_def used_backed_def by (metis s_pods_iff)
    have "ip \<noteq> ''''" using ex at unfolding excl_def addr_nonempty_def by blast
    then have "IP pod = ip" using h(4,5) \<open>Assigned a\<close> by (auto simp: eligible_def)
    with assms(3) map_of_SomeD[OF i(1)] i(2) \<open>ip \<noteq> ''''\<close> have "pk = podKey pod"
      by (auto simp: list_all_iff)
    with i new show False by simp
  qed
  have "podKey pod \<notin> set (mkeys (podsIP ds))" using new by (simp add: set_mkeys domIff)
  then have "assigned ds' = int (length (podsIP ds'))"
    using assms(2) unused by (simp add: h(7) take_addr_def Let_def pods_inv_def length_update)
  moreover have "excl (ds_abs ds')"
    using excl_assign[OF ex at unused] abs_take_addr[OF h(1,3,4)] h new
    by (simp add: s_dev_iff)
  ultimately show ?thesis by (simp add: r pods_inv_def)
next
  case False
  then have "snd (AssignPodIPv4Address now pod ds) = ds"
    using AssignPodIPv4Address_unchanged by blast
  then show ?thesis using assms by simp
qed

lemma pods_inv_Unassign:
  assumes "ds_inv ds" "pods_inv ds"
  shows "pods_inv (snd (UnassignPodIPv4Address now pod ds))"
proof (cases "\<exists>r. fst (UnassignPodIPv4Address now pod ds) = Val r")
  case True
  then obtain ip dev ds' where r: "UnassignPodIPv4Address now pod ds = (Val (ip, dev), ds')"
    by (cases "UnassignPodIPv4Address now pod ds") auto
  obtain i ek eni a where h: "map_of (podsIP ds) (podKey pod) = Some i" "pi_IP i = ip"
    "map_of (eniIPPools ds) ek = Some eni" "map_of (IPv4Addresses eni) ip = Some a" "Assigned a"
    "dev = DeviceNumber eni" "ds' = release_addr now (podKey pod) ip ek ds"
    by (rule UnassignPodIPv4Address_Val[OF assms(1) r])
  have "podKey pod \<in> set (mkeys (podsIP ds))" using h(1) by (auto simp: set_mkeys)
  moreover from this have "1 \<le> length (podsIP ds)" by (cases "podsIP ds") auto
  ultimately have "assigned ds' = int (length (podsIP ds'))"
    using assms by (simp add: h(7) pods_inv_def length_delete ds_inv_def of_nat_diff)
  moreover have "excl (ds_abs ds')"
    using excl_release[of "ds_abs ds" ek ip a "podKey pod" i] abs_release_addr[OF h(3,4)] h assms(2)
    by (simp add: pods_inv_def s_addr_iff)
  ultimately show ?thesis by (simp add: r pods_inv_def)
next
  case False
  then have "snd (UnassignPodIPv4Address now pod ds) = ds"
    using UnassignPodIPv4Address_unchanged by blast
  then show ?thesis using assms by simp
qed

lemma pods_inv_exec:
  "ds_inv ds \<Longrightarrow> pods_inv ds \<Longrightarrow> op_ok x ds \<Longrightarrow> pods_inv (ds_exec now x ds)"
  by (cases x) (simp_all add: pods_inv_AddENI pods_inv_AddIP pods_inv_DelIP pods_inv_Assign
      pods_inv_Unassign pods_inv_RemoveENI pods_inv_RemoveUnusedENI)

lemma pods_inv_reordered: "ds_inv ds \<Longrightarrow> pods_inv ds \<Longrightarrow> reordered ds ds' \<Longrightarrow> pods_inv ds'"
proof -
  assume a: "ds_inv ds" "pods_inv ds" "reordered ds ds'"
  have "ds = ds'\<lparr>eniIPPools := eniIPPools ds, podsIP := podsIP ds\<rparr>"
    using a(3) by (simp add: reordered_def)
  then have "assigned ds = assigned (ds'\<lparr>eniIPPools := eniIPPools ds, podsIP := podsIP ds\<rparr>)" by simp
  moreover have "length (podsIP ds') = length (podsIP ds)"
    using a by (intro same_map_length[where R = "(=)"]) (simp_all add: reordered_def ds_inv_def)
  ultimately show ?thesis using a(2) abs_reordered[OF a(3)] by (simp add: pods_inv_def)
qed

lemma ds_reach_inv: "ds_reach ds \<Longrightarrow> ds_inv ds"
  by (induction rule: ds_reach.induct)
     (simp_all add: ds_inv_NewDataStore ds_inv_exec ds_inv_reordered)

lemma cni_reach_inv: "cni_reach ds \<Longrightarrow> ds_inv ds \<and> pods_inv ds"
  by (induction rule: cni_reach.induct)
     (blast intro: ds_inv_NewDataStore pods_inv_NewDataStore ds_inv_exec pods_inv_exec
       ds_inv_reordered pods_inv_reordered)+

section \<open>The store implements the allocator\<close>

text \<open>
  The requests of the CNI plugin name a pod and no address; this is how the server turns one
  into the store's argument.
\<close>

definition cniPod :: "PodKey \<Rightarrow> K8SPodInfo" where
  "cniPod pk = \<lparr>Name = pk_name pk, Namespace = pk_namespace pk, Container = pk_container pk,
     IP = '''', UID = ''''\<rparr>"

lemma podKey_cniPod [simp]: "podKey (cniPod pk) = pk"
  by (simp add: podKey_def cniPod_def)

lemma IP_cniPod [simp]: "IP (cniPod pk) = ''''"
  by (simp add: cniPod_def)

definition ds_held :: "DataStore \<Rightarrow> PodKey \<Rightarrow> (string \<times> int) option" where
  "ds_held ds pk = map_option (\<lambda>i. (pi_IP i, pi_DeviceNumber i)) (map_of (podsIP ds) pk)"

abbreviation ds_full_inv :: "DataStore \<Rightarrow> bool" where
  "ds_full_inv ds \<equiv> ds_inv ds \<and> pods_inv ds"

lemma cni_assign_new:
  assumes "AssignPodIPv4Address now (cniPod pk) ds = (Val r, ds')"
  shows "map_of (podsIP ds) pk = None"
  using assms by (auto simp: AssignPodIPv4Address_def split: option.splits)

lemma podsIP_take_addr [simp]:
  "podsIP (take_addr pod ek eni ak a ds) =
     AList.update (podKey pod) \<lparr>pi_IP = Address a, pi_DeviceNumber = DeviceNumber eni\<rparr> (podsIP ds)"
  by (simp add: take_addr_def Let_def)

lemma release_known:
  assumes "ds_full_inv ds" "map_of (podsIP ds) (podKey pod) = Some i"
  shows "\<exists>ek. UnassignPodIPv4Address now pod ds =
           (Val (pi_IP i, pi_DeviceNumber i), release_addr now (podKey pod) (pi_IP i) ek ds) \<and>
           s_addr (ds_abs ds) ek (pi_IP i) \<noteq> None"
proof -
  have ex: "excl (ds_abs ds)" using assms by (simp add: pods_inv_def)
  with assms(2) obtain ek a where b: "s_addr (ds_abs ds) ek (pi_IP i) = Some a" "Assigned a"
    "s_dev (ds_abs ds) ek = Some (pi_DeviceNumber i)"
    unfolding excl_def pods_backed_def by (metis s_pods_iff)
  then obtain p where p: "map_of (eniIPPools ds) ek = Some p" "map_of (IPv4Addresses p) (pi_IP i) = Some a"
    by (auto simp: s_addr_iff)
  obtain x ds' where run: "UnassignPodIPv4Address now pod ds = (x, ds')"
    by (cases "UnassignPodIPv4Address now pod ds")
  have un: "unassign_from_enis now (podKey pod) (pi_IP i) (eniIPPools ds) ds = (x, ds')"
    using run assms(2) by (simp add: UnassignPodIPv4Address_def)
  show ?thesis
  proof (cases x)
    case (Val r)
    obtain ip dev where "x = Val (ip, dev)" using Val by (cases r) simp
    then have "UnassignPodIPv4Address now pod ds = (Val (ip, dev), ds')" using run by simp
    then obtain i' ek' eni a' where h: "map_of (podsIP ds) (podKey pod) = Some i'" "pi_IP i' = ip"
      "map_of (eniIPPools ds) ek' = Some eni" "map_of (IPv4Addresses eni) ip = Some a'"
      "dev = DeviceNumber eni" "ds' = release_addr now (podKey pod) ip ek' ds"
      using UnassignPodIPv4Address_Val[of ds now pod ip dev ds'] assms(1) by metis
    have "s_addr (ds_abs ds) ek' (pi_IP i) = Some a'" using h assms(2) by (auto simp: s_addr_iff)
    with b(1) ex have "ek' = ek" unfolding excl_def addr_unique_def by blast
    then show ?thesis
      using run h b assms(2) \<open>x = Val (ip, dev)\<close> by (auto simp: s_dev_iff)
  next
    case (Err e)
    with unassign_from_enis_Err un map_of_SomeD[OF p(1)] have "\<not> holds (pi_IP i) p" by fastforce
    then show ?thesis using p(2) b(2) by (simp add: holds_def)
  next
    case (Panic m)
    with un unassign_from_enis_no_panic show ?thesis by metis
  qed
qed

interpretation store: ip_allocator
  "\<lambda>now pk. AssignPodIPv4Address now (cniPod pk)"
  "\<lambda>now pk. UnassignPodIPv4Address now (cniPod pk)"
  ds_held ds_full_inv
proof (unfold_locales, goal_cases)
  case (1 s now pk)
  then show ?case by (simp add: ds_inv_ops pods_inv_Assign)
next
  case (2 s now pk)
  then show ?case by (simp add: ds_inv_ops pods_inv_Unassign)
next
  case (3 s pk ip d pk' d')
  then obtain i i' where "map_of (podsIP s) pk = Some i" "pi_IP i = ip"
    "map_of (podsIP s) pk' = Some i'" "pi_IP i' = ip" by (auto simp: ds_held_def)
  moreover have "pods_distinct (ds_abs s)" using 3(1) by (simp add: pods_inv_def excl_def)
  ultimately show ?case unfolding pods_distinct_def by (metis s_pods_iff)
next
  case (4 s now pk r s')
  note new = cni_assign_new[OF 4(2)]
  obtain ip dev where r: "r = (ip, dev)" by (cases r)
  have "AssignPodIPv4Address now (cniPod pk) s = (Val (ip, dev), s')" using 4(2) r by simp
  with new 4(1) obtain ek eni a where "Address a = ip" "dev = DeviceNumber eni"
    "s' = take_addr (cniPod pk) ek eni ip a s"
    using AssignPodIPv4Address_Val[of s now "cniPod pk" ip dev s'] by (metis podKey_cniPod)
  with new r show ?case by (auto simp: ds_held_def gomap_simps fun_eq_iff)
next
  case (5 s now pk x s')
  then show ?case using AssignPodIPv4Address_unchanged[of now "cniPod pk" s] by simp
next
  case (6 s pk r now)
  then obtain i where i: "map_of (podsIP s) (podKey (cniPod pk)) = Some i"
    and "r = (pi_IP i, pi_DeviceNumber i)" by (auto simp: ds_held_def)
  with release_known[OF 6(1) i, of now] show ?case
    by (auto simp: ds_held_def gomap_simps fun_eq_iff)
next
  case (7 s pk now)
  then show ?case by (simp add: ds_held_def UnassignPodIPv4Address_def)
qed

end
