(* ===== verification/DataStoreThms.thy ===== *)
theory DataStoreThms
  imports DataStoreProps
begin

text \<open>
  The properties of the data store: its counters, exclusive use of addresses, the refinement
  of the abstract store, the behaviour of assignment and release on every branch, the cooling
  period, and which ENIs may be removed.
\<close>

section \<open>A concrete history\<close>

fun ds_run :: "(time \<times> ds_op) list \<Rightarrow> DataStore \<Rightarrow> DataStore" where
  "ds_run [] ds = ds"
| "ds_run ((now, x) # xs) ds = ds_run xs (ds_exec now x ds)"

fun ops_ok :: "(time \<times> ds_op) list \<Rightarrow> DataStore \<Rightarrow> bool" where
  "ops_ok [] ds \<longleftrightarrow> True"
| "ops_ok ((now, x) # xs) ds \<longleftrightarrow> op_ok x ds \<and> ops_ok xs (ds_exec now x ds)"

lemma ds_reach_run: "ds_reach ds \<Longrightarrow> ds_reach (ds_run h ds)"
  by (induction h ds rule: ds_run.induct) (auto intro: ds_reach.exec)

lemma cni_reach_run: "cni_reach ds \<Longrightarrow> ops_ok h ds \<Longrightarrow> cni_reach (ds_run h ds)"
  by (induction h ds rule: ds_run.induct) (auto intro: cni_reach.exec)

lemma cni_reach_ds_reach: "cni_reach ds \<Longrightarrow> ds_reach ds"
  by (induction rule: cni_reach.induct) (auto intro: ds_reach.intros)

definition pod_a :: K8SPodInfo where
  "pod_a = cniPod \<lparr>pk_name = ''a'', pk_namespace = ''ns'', pk_container = ''c1''\<rparr>"

definition pod_b :: K8SPodInfo where
  "pod_b = cniPod \<lparr>pk_name = ''b'', pk_namespace = ''ns'', pk_container = ''c2''\<rparr>"

definition hist0 :: "(time \<times> ds_op) list" where
  "hist0 = [(1, OpAddENI ''eni-1'' 0 True), (2, OpAddIP ''eni-1'' ''10.0.0.1''),
            (3, OpAddIP ''eni-1'' ''10.0.0.2''), (4, OpAddENI ''eni-2'' 1 False),
            (5, OpAddIP ''eni-2'' ''10.0.1.1'')]"

definition store0 :: DataStore where
  "store0 = ds_run hist0 NewDataStore"

definition storeA :: DataStore where
  "storeA = snd (AssignPodIPv4Address (100 * second) pod_a store0)"

lemma store0_cni_reach: "cni_reach store0"
proof -
  have "ops_ok hist0 NewDataStore" by code_simp
  then show ?thesis unfolding store0_def by (intro cni_reach_run cni_reach.start)
qed

lemma storeA_cni_reach: "cni_reach storeA"
proof -
  have "op_ok (OpAssign pod_a) store0" by code_simp
  from cni_reach.exec[OF store0_cni_reach this, of "100 * second"] show ?thesis
    by (simp add: storeA_def)
qed

lemmas store0_reach = store0_cni_reach[THEN cni_reach_ds_reach]
lemmas storeA_reach = storeA_cni_reach[THEN cni_reach_ds_reach]

section \<open>Counters\<close>

lemma msum_cong_lookup:
  assumes "mwf m" "\<And>k v. map_of m k = Some v \<Longrightarrow> g v = h v"
  shows "msum g m = msum h m"
  unfolding msum_dom[OF assms(1)] using assms(2) by (intro sum.cong) auto

text \<open>
  C1: in every store the operations can reach, in whatever order Go ranges over its maps, the
  counter of addresses is the number of addresses on all ENIs, the counter of assigned
  addresses is the number of addresses marked assigned, on every ENI and in all, and the
  gauges of ENIs and of assigned addresses show the true counts.
\<close>

theorem store_counters:
  assumes "ds_reach ds"
  shows "total ds = msum (\<lambda>p. int (length (IPv4Addresses p))) (eniIPPools ds) \<and>
         assigned ds = msum (\<lambda>p. msum (\<lambda>a. if Assigned a then 1 else 0) (IPv4Addresses p))
                         (eniIPPools ds) \<and>
         0 \<le> assigned ds \<and> assigned ds \<le> total ds \<and>
         (\<forall>k p. map_of (eniIPPools ds) k = Some p \<longrightarrow>
            AssignedIPv4Addresses p = msum (\<lambda>a. if Assigned a then 1 else 0) (IPv4Addresses p)) \<and>
         g_enis ds = GetENIs ds \<and> g_assignedIPs ds = snd (GetStats ds)"
proof -
  note inv = ds_reach_inv[OF assms]
  have wf: "mwf (eniIPPools ds)" and
    t: "total ds = msum numIPs (eniIPPools ds)" and
    a: "assigned ds = msum AssignedIPv4Addresses (eniIPPools ds)"
    using inv by (simp_all add: ds_inv_def pools_inv_def)
  have p: "AssignedIPv4Addresses q = assignedIn q" if "map_of (eniIPPools ds) k' = Some q" for k' q
    using ds_inv_eni_ok[OF inv that] by (simp add: eni_ok_def)
  then have a': "assigned ds = msum assignedIn (eniIPPools ds)"
    unfolding a by (intro msum_cong_lookup[OF wf])
  have "0 \<le> assigned ds \<and> assigned ds \<le> total ds"
    unfolding a' t using assignedIn_bounds by (auto intro: msum_nonneg msum_mono)
  then show ?thesis
    using inv t a' p
    by (simp add: ds_inv_def GetENIs_def GetStats_def numIPs_def[abs_def] assignedIn_def[abs_def])
qed

theorem store_counters_witness:
  "total storeA = 3 \<and> assigned storeA = 1 \<and> 0 \<le> assigned storeA \<and> assigned storeA \<le> total storeA"
proof -
  have "msum (\<lambda>p. int (length (IPv4Addresses p))) (eniIPPools storeA) = 3" by code_simp
  moreover have "msum (\<lambda>p. msum (\<lambda>a. if Assigned a then 1 else 0) (IPv4Addresses p))
      (eniIPPools storeA) = 1" by code_simp
  ultimately show ?thesis using store_counters[OF storeA_reach] by simp
qed

section \<open>Exclusive use of addresses\<close>



text \<open>
  The store itself does not defend exclusivity against requests that name an address.  Two
  different pods that both name the same address both get it while the counter moves once;
  when the first releases it the address becomes free although the second still has it, and
  the second's release then fails with \<^verbatim>\<open>ErrUnknownPodIP\<close> and leaves the pod in the store.
\<close>

theorem named_address_shared:
  "let a = pod_a\<lparr>IP := ''10.0.0.1''\<rparr>; b = pod_b\<lparr>IP := ''10.0.0.1''\<rparr>;
       (ra, ds1) = AssignPodIPv4Address 0 a store0;
       (rb, ds2) = AssignPodIPv4Address 0 b ds1;
       (rc, ds3) = UnassignPodIPv4Address 0 a ds2
   in ra = Val (''10.0.0.1'', 0) \<and> rb = Val (''10.0.0.1'', 0) \<and>
      length (podsIP ds2) = 2 \<and> assigned ds2 = 1 \<and>
      rc = Val (''10.0.0.1'', 0) \<and> assigned ds3 = 0 \<and>
      map_of (podsIP ds3) (podKey b) = Some \<lparr>pi_IP = ''10.0.0.1'', pi_DeviceNumber = 0\<rparr> \<and>
      UnassignPodIPv4Address 0 b ds3 = (Err ErrUnknownPodIP, ds3)"
  by code_simp

section \<open>Refinement of the abstract store\<close>

text \<open>
  The steps of the abstract store.  An operation either takes effect or is refused, and each
  rule says exactly when.  Which free address a pod gets is left open, as Go's map order
  leaves it open.
\<close>

definition may_take :: "time \<Rightarrow> K8SPodInfo \<Rightarrow> string \<Rightarrow> AddressInfo \<Rightarrow> bool" where
  "may_take now pod ip a \<longleftrightarrow> (if IP pod = '''' then \<not> Assigned a \<and> 30 * second < now - UnassignedTime a
                               else IP pod = ip)"

inductive spec_step :: "time \<Rightarrow> ds_op \<Rightarrow> pool_spec \<Rightarrow> pool_spec \<Rightarrow> bool" where
  add_eni: "s_dev s ek = None \<Longrightarrow>
    spec_step now (OpAddENI ek d b) s ((drop_eni ek s)\<lparr>s_dev := (s_dev s)(ek \<mapsto> d)\<rparr>)"
| add_eni_dup: "s_dev s ek \<noteq> None \<Longrightarrow> spec_step now (OpAddENI ek d b) s s"
| add_ip: "s_dev s ek \<noteq> None \<Longrightarrow> s_addr s ek ip = None \<Longrightarrow>
    spec_step now (OpAddIP ek ip) s
      (set_addr ek ip (Some \<lparr>Address = ip, Assigned = False, UnassignedTime = 0\<rparr>) s)"
| add_ip_refused: "s_dev s ek = None \<or> s_addr s ek ip \<noteq> None \<Longrightarrow> spec_step now (OpAddIP ek ip) s s"
| del_ip: "s_addr s ek ip = Some a \<Longrightarrow> \<not> Assigned a \<Longrightarrow>
    spec_step now (OpDelIP ek ip) s (set_addr ek ip None s)"
| del_ip_refused: "(\<And>a. s_addr s ek ip = Some a \<Longrightarrow> Assigned a) \<Longrightarrow> spec_step now (OpDelIP ek ip) s s"
| assign: "s_pods s (podKey pod) = None \<Longrightarrow> s_addr s ek ip = Some a \<Longrightarrow> may_take now pod ip a \<Longrightarrow>
    s_dev s ek = Some d \<Longrightarrow>
    spec_step now (OpAssign pod) s (set_pod (podKey pod) (Some \<lparr>pi_IP = ip, pi_DeviceNumber = d\<rparr>)
      (set_addr ek ip (Some (a\<lparr>Assigned := True\<rparr>)) s))"
| assign_known: "s_pods s (podKey pod) \<noteq> None \<Longrightarrow> spec_step now (OpAssign pod) s s"
| assign_none: "(\<And>ek ip a. s_addr s ek ip = Some a \<Longrightarrow> \<not> may_take now pod ip a) \<Longrightarrow>
    spec_step now (OpAssign pod) s s"
| release: "s_pods s (podKey pod) = Some i \<Longrightarrow> s_addr s ek (pi_IP i) = Some a \<Longrightarrow> Assigned a \<Longrightarrow>
    spec_step now (OpUnassign pod) s (set_pod (podKey pod) None
      (set_addr ek (pi_IP i) (Some (a\<lparr>Assigned := False, UnassignedTime := now\<rparr>)) s))"
| release_unknown: "s_pods s (podKey pod) = None \<Longrightarrow> spec_step now (OpUnassign pod) s s"
| release_unbacked: "s_pods s (podKey pod) = Some i \<Longrightarrow>
    (\<And>ek a. s_addr s ek (pi_IP i) = Some a \<Longrightarrow> \<not> Assigned a) \<Longrightarrow> spec_step now (OpUnassign pod) s s"
| remove_unused: "(\<And>ip a. s_addr s ek ip = Some a \<Longrightarrow> \<not> Assigned a) \<Longrightarrow>
    spec_step now (OpRemoveUnusedENI w) s (drop_eni ek s)"
| remove_unused_none: "spec_step now (OpRemoveUnusedENI w) s s"
| remove_eni: "s_dev s ek \<noteq> None \<Longrightarrow> (\<And>ip a. s_addr s ek ip = Some a \<Longrightarrow> \<not> Assigned a) \<Longrightarrow>
    spec_step now (OpRemoveENI ek) s (drop_eni ek s)"
| remove_eni_refused: "s_dev s ek = None \<or> (\<exists>ip a. s_addr s ek ip = Some a \<and> Assigned a) \<Longrightarrow>
    spec_step now (OpRemoveENI ek) s s"

inductive_cases spec_step_assignE: "spec_step now (OpAssign pod) s s'"

lemma addr_nonempty_not_eligible:
  assumes "eligible pod now a" "Address a = ip" "ip \<noteq> ''''"
  shows "may_take now pod ip a"
  using assms Sub_gt_iff[of "30 * second" now "UnassignedTime a"]
  by (auto simp: eligible_def may_take_def addressCoolingPeriod_def minDuration_def maxDuration_def
      second_def)

lemma may_take_eligible:
  assumes "may_take now pod ip a" "Address a = ip"
  shows "eligible pod now a"
  using assms Sub_gt_iff[of "30 * second" now "UnassignedTime a"]
  by (auto simp: eligible_def may_take_def addressCoolingPeriod_def minDuration_def maxDuration_def
      second_def split: if_splits)

lemma no_pods_unassigned:
  assumes "ds_inv ds" "map_of (eniIPPools ds) ek = Some p"
  shows "AssignedIPv4Addresses p = 0 \<longleftrightarrow> (\<forall>ip a. s_addr (ds_abs ds) ek ip = Some a \<longrightarrow> \<not> Assigned a)"
proof -
  note ok = ds_inv_eni_ok[OF assms]
  have "assignedIn p = 0 \<longleftrightarrow> (\<forall>ip a. map_of (IPv4Addresses p) ip = Some a \<longrightarrow> \<not> Assigned a)" (is "?l \<longleftrightarrow> ?r")
  proof
    assume ?l
    then show ?r
      using msum_member_le[of "IPv4Addresses p" "\<lambda>a. if Assigned a then 1 else 0"]
      by (fastforce simp: assignedIn_def dest: map_of_SomeD)
  next
    assume ?r
    then have "assignedIn p = msum (\<lambda>_. 0) (IPv4Addresses p)"
      unfolding assignedIn_def using ok by (intro msum_cong_lookup) (auto simp: eni_ok_def)
    then show ?l by simp
  qed
  then show ?thesis using ok assms(2) by (simp add: eni_ok_def s_addr_iff)
qed

lemma spec_step_Assign:
  assumes "ds_inv ds" "addr_nonempty (ds_abs ds)"
  shows "spec_step now (OpAssign pod) (ds_abs ds) (ds_abs (snd (AssignPodIPv4Address now pod ds)))"
proof (cases "map_of (podsIP ds) (podKey pod)")
  case (Some i)
  then have "snd (AssignPodIPv4Address now pod ds) = ds" by (simp add: AssignPodIPv4Address_def)
  with Some show ?thesis by (simp add: spec_step.assign_known)
next
  case None
  obtain r ds' where run: "AssignPodIPv4Address now pod ds = (r, ds')"
    by (cases "AssignPodIPv4Address now pod ds")
  then have run': "assign_from_enis pod now (eniIPPools ds) ds = (r, ds')"
    using None by (simp add: AssignPodIPv4Address_def assignPodIPv4AddressUnsafe_def)
  show ?thesis
  proof (cases r)
    case (Val x)
    obtain ip dev where x: "x = (ip, dev)" by (cases x)
    obtain ek eni a where h: "map_of (eniIPPools ds) ek = Some eni"
      "map_of (IPv4Addresses eni) ip = Some a" "Address a = ip" "eligible pod now a"
      "dev = DeviceNumber eni" "ds' = take_addr pod ek eni ip a ds"
      by (rule AssignPodIPv4Address_Val[OF assms(1) _ None]) (use run Val x in auto)
    have at: "s_addr (ds_abs ds) ek ip = Some a" using h by (simp add: s_addr_iff)
    then have "ip \<noteq> ''''" using assms(2) unfolding addr_nonempty_def by blast
    with h have "may_take now pod ip a" by (intro addr_nonempty_not_eligible)
    then show ?thesis
      using spec_step.assign[of "ds_abs ds" pod ek ip a now dev] None at h abs_take_addr[OF h(1,2,3)]
      by (simp add: run s_dev_iff)
  next
    case (Err e)
    have "\<not> may_take now pod ip a" if at: "s_addr (ds_abs ds) ek ip = Some a" for ek ip a
    proof
      assume t: "may_take now pod ip a"
      from at obtain p where p: "map_of (eniIPPools ds) ek = Some p" "map_of (IPv4Addresses p) ip = Some a"
        by (auto simp: s_addr_iff)
      note ok = ds_inv_eni_ok[OF assms(1) p(1)]
      have el: "eligible pod now a" using t eni_ok_address[OF ok p(2)] by (rule may_take_eligible)
      have "\<not> skipped pod p"
        using t p(2) eni_full_iff[OF ok] by (auto simp: skipped_def may_take_def)
      with assign_from_enis_Err[of pod now "eniIPPools ds" ds e ds'] run' Err el
        map_of_SomeD[OF p(1)] map_of_SomeD[OF p(2)] show False by fastforce
    qed
    with assign_from_enis_Err run' Err run show ?thesis
      by (fastforce intro: spec_step.assign_none)
  next
    case (Panic m)
    with run' assign_from_enis_no_panic show ?thesis by metis
  qed
qed

lemma spec_step_Unassign:
  assumes "ds_inv ds"
  shows "spec_step now (OpUnassign pod) (ds_abs ds) (ds_abs (snd (UnassignPodIPv4Address now pod ds)))"
proof (cases "UnassignPodIPv4Address now pod ds")
  case (Pair r ds')
  show ?thesis
  proof (cases r)
    case (Val x)
    obtain ip dev where x: "x = (ip, dev)" by (cases x)
    obtain i ek eni a where h: "map_of (podsIP ds) (podKey pod) = Some i" "pi_IP i = ip"
      "map_of (eniIPPools ds) ek = Some eni" "map_of (IPv4Addresses eni) ip = Some a" "Assigned a"
      "dev = DeviceNumber eni" "ds' = release_addr now (podKey pod) ip ek ds"
      by (rule UnassignPodIPv4Address_Val[OF assms]) (use Pair Val x in auto)
    then show ?thesis
      using spec_step.release[of "ds_abs ds" pod i ek a now] abs_release_addr[OF h(3,4)] Pair
      by (simp add: s_addr_iff)
  next
    case (Err e)
    show ?thesis
    proof (cases "map_of (podsIP ds) (podKey pod)")
      case None
      then show ?thesis by (simp add: UnassignPodIPv4Address_def spec_step.release_unknown)
    next
      case (Some i)
      then have "unassign_from_enis now (podKey pod) (pi_IP i) (eniIPPools ds) ds = (Err e, ds')"
        using Pair Err by (simp add: UnassignPodIPv4Address_def)
      from unassign_from_enis_Err[OF this] have "ds' = ds"
        and "\<And>ek a. s_addr (ds_abs ds) ek (pi_IP i) = Some a \<Longrightarrow> \<not> Assigned a"
        by (fastforce simp: s_addr_iff holds_def dest: map_of_SomeD)+
      with Some Pair show ?thesis by (simp add: spec_step.release_unbacked)
    qed
  next
    case (Panic m)
    with Pair show ?thesis
      by (auto simp: UnassignPodIPv4Address_def unassign_from_enis_no_panic split: option.splits)
  qed
qed

lemma spec_step_AddIP: "spec_step now (OpAddIP ek ip) (ds_abs ds) (ds_abs (snd (AddIPv4AddressFromStore ek ip ds)))"
proof (cases "fst (AddIPv4AddressFromStore ek ip ds) = Val ()")
  case True
  then obtain ds' where r: "AddIPv4AddressFromStore ek ip ds = (Val (), ds')"
    by (cases "AddIPv4AddressFromStore ek ip ds") simp
  then have "s_dev (ds_abs ds) ek \<noteq> None" "s_addr (ds_abs ds) ek ip = None"
    by (auto simp: AddIPv4AddressFromStore_def ds_abs_def split: option.splits)
  then show ?thesis using abs_AddIP[OF r] r by (simp add: spec_step.add_ip)
next
  case False
  then have "s_dev (ds_abs ds) ek = None \<or> s_addr (ds_abs ds) ek ip \<noteq> None"
    by (auto simp: AddIPv4AddressFromStore_def ds_abs_def Let_def split: option.splits)
  then show ?thesis using res_unchanged(2)[OF False] by (simp add: spec_step.add_ip_refused)
qed

lemma spec_step_DelIP: "spec_step now (OpDelIP ek ip) (ds_abs ds) (ds_abs (snd (DelIPv4AddressFromStore ek ip ds)))"
proof (cases "fst (DelIPv4AddressFromStore ek ip ds) = Val ()")
  case True
  then obtain ds' where r: "DelIPv4AddressFromStore ek ip ds = (Val (), ds')"
    by (cases "DelIPv4AddressFromStore ek ip ds") simp
  then obtain a where "s_addr (ds_abs ds) ek ip = Some a" "\<not> Assigned a"
    by (auto simp: DelIPv4AddressFromStore_def ds_abs_def split: option.splits if_splits)
  then show ?thesis using abs_DelIP[OF r] r by (simp add: spec_step.del_ip)
next
  case False
  then have "\<And>a. s_addr (ds_abs ds) ek ip = Some a \<Longrightarrow> Assigned a"
    by (auto simp: DelIPv4AddressFromStore_def ds_abs_def Let_def split: option.splits if_splits)
  then show ?thesis using res_unchanged(3)[OF False] by (simp add: spec_step.del_ip_refused)
qed

lemma spec_step_AddENI: "spec_step now (OpAddENI ek d b) (ds_abs ds) (ds_abs (snd (AddENI t ek d b ds)))"
proof (cases "fst (AddENI t ek d b ds) = Val ()")
  case True
  then obtain ds' where r: "AddENI t ek d b ds = (Val (), ds')" by (cases "AddENI t ek d b ds") simp
  then have "s_dev (ds_abs ds) ek = None" by (auto simp: AddENI_def ds_abs_def split: option.splits)
  then show ?thesis using abs_AddENI[OF r] r by (simp add: spec_step.add_eni)
next
  case False
  then have "s_dev (ds_abs ds) ek \<noteq> None" by (auto simp: AddENI_def ds_abs_def Let_def split: option.splits)
  then show ?thesis using res_unchanged(1)[OF False] by (simp add: spec_step.add_eni_dup)
qed

lemma ds_abs_delete_eni:
  assumes "eniIPPools ds' = AList.delete ek (eniIPPools ds)" "podsIP ds' = podsIP ds"
  shows "ds_abs ds' = drop_eni ek (ds_abs ds)"
  using abs_delete_eni[OF assms] by (simp add: drop_eni_def)

lemma spec_step_RemoveENI:
  assumes "ds_inv ds"
  shows "spec_step now (OpRemoveENI ek) (ds_abs ds) (ds_abs (snd (RemoveENIFromDataStore ek ds)))"
proof (cases "map_of (eniIPPools ds) ek")
  case None
  then show ?thesis by (simp add: RemoveENIFromDataStore_def spec_step.remove_eni_refused s_dev_iff)
next
  case (Some p)
  note z = no_pods_unassigned[OF assms Some]
  show ?thesis
  proof (cases "AssignedIPv4Addresses p = 0")
    case True
    then have "ds_abs (snd (RemoveENIFromDataStore ek ds)) = drop_eni ek (ds_abs ds)"
      using Some by (intro ds_abs_delete_eni) (simp_all add: RemoveENIFromDataStore_def Let_def)
    with True z Some show ?thesis by (simp add: spec_step.remove_eni s_dev_iff)
  next
    case False
    with z Some show ?thesis
      by (auto simp: RemoveENIFromDataStore_def intro!: spec_step.remove_eni_refused)
  qed
qed

lemma spec_step_RemoveUnusedENI:
  assumes "ds_inv ds"
  shows "spec_step now (OpRemoveUnusedENI w) (ds_abs ds) (ds_abs (snd (RemoveUnusedENIFromStore t w ds)))"
proof (cases "getDeletableENI t w ds")
  case None
  then show ?thesis by (simp add: RemoveUnusedENIFromStore_def spec_step.remove_unused_none)
next
  case (Some p)
  note d = getDeletableENI_Some[OF assms Some]
  have "ds_abs (snd (RemoveUnusedENIFromStore t w ds)) = drop_eni (ID p) (ds_abs ds)"
    using Some d(1) by (intro ds_abs_delete_eni) (simp_all add: RemoveUnusedENIFromStore_def Let_def)
  moreover have "AssignedIPv4Addresses p = 0" using d(2) by (simp add: is_deletable_def hasPods_def)
  ultimately show ?thesis
    using no_pods_unassigned[OF assms d(1)] by (simp add: spec_step.remove_unused)
qed

lemmas spec_steps = spec_step_AddENI spec_step_AddIP spec_step_DelIP spec_step_Assign
  spec_step_Unassign spec_step_RemoveENI spec_step_RemoveUnusedENI

lemma spec_step_exec:
  assumes "cni_reach ds"
  shows "spec_step now x (ds_abs ds) (ds_abs (ds_exec now x ds))"
proof -
  have "ds_inv ds" "addr_nonempty (ds_abs ds)"
    using cni_reach_inv[OF assms] by (auto simp: pods_inv_def excl_def)
  then show ?thesis by (cases x) (simp_all add: spec_steps)
qed

text \<open>
  C3: the store implements the abstract store.  Every operation, run on a reachable store,
  is a step of the abstract specification on what the store represents: it takes effect
  exactly when the specification lets it, and it is refused, changing nothing, exactly when
  the specification refuses it.  A change of the order of the maps changes nothing of what
  the store represents.
\<close>

theorem store_refines_spec:
  assumes "cni_reach ds"
  shows "spec_step now x (ds_abs ds) (ds_abs (ds_exec now x ds)) \<and>
         (\<forall>ds'. reordered ds ds' \<longrightarrow> ds_abs ds' = ds_abs ds)"
  using spec_step_exec[OF assms] abs_reordered by blast

theorem store_refines_spec_witness:
  "spec_step (100 * second) (OpAssign pod_b) (ds_abs storeA)
     (ds_abs (ds_exec (100 * second) (OpAssign pod_b) storeA))"
  using store_refines_spec[OF storeA_cni_reach] by blast

section \<open>Assignment\<close>

lemma assign_unnamed_Val:
  assumes "cni_reach ds" "IP pod = ''''" "AssignPodIPv4Address now pod ds = (Val (ip, dev), ds')"
  obtains ek p a where "map_of (eniIPPools ds) ek = Some p" "map_of (IPv4Addresses p) ip = Some a"
    "Address a = ip" "\<not> Assigned a" "now - UnassignedTime a > 30 * second" "dev = DeviceNumber p"
    "map_of (podsIP ds) (podKey pod) = None" "ds' = take_addr pod ek p ip a ds"
proof -
  have inv: "ds_inv ds" and ne: "addr_nonempty (ds_abs ds)"
    using cni_reach_inv[OF assms(1)] by (auto simp: pods_inv_def excl_def)
  have new: "map_of (podsIP ds) (podKey pod) = None"
    using assms(2,3) by (auto simp: AssignPodIPv4Address_def split: option.splits)
  obtain ek eni a where h: "map_of (eniIPPools ds) ek = Some eni" "\<not> skipped pod eni"
    "map_of (IPv4Addresses eni) ip = Some a" "Address a = ip" "eligible pod now a"
    "dev = DeviceNumber eni" "ds' = take_addr pod ek eni ip a ds"
    by (rule AssignPodIPv4Address_Val[OF inv assms(3) new])
  have "ip \<noteq> ''''" using ne h(1,3) unfolding addr_nonempty_def s_addr_iff by blast
  with h(4,5) have "may_take now pod ip a" by (intro addr_nonempty_not_eligible)
  then show thesis using assms(2) h new that by (auto simp: may_take_def)
qed

text \<open>
  C18: a pod that names no address and gets one, gets an address that was free and had been
  free for more than 30 seconds, with the device number of its ENI.  Afterwards that address
  is assigned and the pod is recorded with it; the number of assigned addresses grows by one;
  no other address, no ENI and no other pod changes.
\<close>

theorem assign_takes_cooled_address:
  assumes "cni_reach ds" "IP pod = ''''" "AssignPodIPv4Address now pod ds = (Val (ip, dev), ds')"
  shows "\<exists>ek p a. map_of (eniIPPools ds) ek = Some p \<and> map_of (IPv4Addresses p) ip = Some a \<and>
           \<not> Assigned a \<and> now - UnassignedTime a > 30 * second \<and> dev = DeviceNumber p \<and>
           map_of (podsIP ds) (podKey pod) = None \<and>
           ds_abs ds' = set_pod (podKey pod) (Some \<lparr>pi_IP = ip, pi_DeviceNumber = dev\<rparr>)
             (set_addr ek ip (Some (a\<lparr>Assigned := True\<rparr>)) (ds_abs ds)) \<and>
           assigned ds' = assigned ds + 1 \<and> total ds' = total ds"
proof -
  obtain ek p a where h: "map_of (eniIPPools ds) ek = Some p" "map_of (IPv4Addresses p) ip = Some a"
    "Address a = ip" "\<not> Assigned a" "now - UnassignedTime a > 30 * second" "dev = DeviceNumber p"
    "map_of (podsIP ds) (podKey pod) = None" "ds' = take_addr pod ek p ip a ds"
    by (rule assign_unnamed_Val[OF assms])
  then have "assigned ds' = assigned ds + 1" "total ds' = total ds"
    by (simp_all add: take_addr_def Let_def)
  then show ?thesis using h abs_take_addr[OF h(1,2,3), of pod] by blast
qed

theorem assign_takes_cooled_address_witness:
  "\<exists>ds'. AssignPodIPv4Address (100 * second) pod_a store0 = (Val (''10.0.0.1'', 0), ds') \<and>
     assigned ds' = assigned store0 + 1"
proof -
  have *: "AssignPodIPv4Address (100 * second) pod_a store0 = (Val (''10.0.0.1'', 0), storeA)"
    by code_simp
  have "IP pod_a = ''''" by code_simp
  from assign_takes_cooled_address[OF store0_cni_reach this *] show ?thesis using * by blast
qed

lemma exhausted_Err:
  assumes "ds_inv ds" "IP pod = ''''" "assign_from_enis pod now (eniIPPools ds) ds = (Err e, ds')"
  shows "\<not> (map_of (eniIPPools ds) ek = Some p \<and> map_of (IPv4Addresses p) ip = Some a \<and>
            \<not> Assigned a \<and> now - UnassignedTime a > 30 * second)"
proof
  assume free: "map_of (eniIPPools ds) ek = Some p \<and> map_of (IPv4Addresses p) ip = Some a \<and>
      \<not> Assigned a \<and> now - UnassignedTime a > 30 * second"
  then have p: "map_of (eniIPPools ds) ek = Some p" "map_of (IPv4Addresses p) ip = Some a" "may_take now pod ip a"
    using assms(2) by (auto simp: may_take_def)
  note ok = ds_inv_eni_ok[OF assms(1) p(1)]
  have "eligible pod now a" using p(3) eni_ok_address[OF ok p(2)] by (rule may_take_eligible)
  moreover have "\<not> skipped pod p"
    using p(2,3) eni_full_iff[OF ok] assms(2) by (auto simp: skipped_def may_take_def)
  ultimately show False
    using assign_from_enis_Err[OF assms(3)] map_of_SomeD[OF p(1)] map_of_SomeD[OF p(2)] by fastforce
qed

text \<open>
  C19: assignment never panics, and for a new pod that names no address it fails exactly when
  every address of the node is assigned or was released at most 30 seconds ago; then it
  changes nothing.
\<close>

theorem assign_fails_iff_exhausted:
  assumes "cni_reach ds" "IP pod = ''''" "map_of (podsIP ds) (podKey pod) = None"
  shows "(AssignPodIPv4Address now pod ds =
            (Err (NewErr ''assignPodIPv4AddressUnsafe: no available IP addresses''), ds)
          \<longleftrightarrow> (\<forall>ek p ip a. map_of (eniIPPools ds) ek = Some p \<and> map_of (IPv4Addresses p) ip = Some a
                 \<longrightarrow> Assigned a \<or> now - UnassignedTime a \<le> 30 * second)) \<and>
         (\<forall>e ds'. AssignPodIPv4Address now pod ds = (Err e, ds') \<longrightarrow> ds' = ds \<and>
            e = NewErr ''assignPodIPv4AddressUnsafe: no available IP addresses'') \<and>
         (\<forall>m ds'. AssignPodIPv4Address now pod ds \<noteq> (Panic m, ds'))"
proof -
  have inv: "ds_inv ds" and ne: "addr_nonempty (ds_abs ds)"
    using cni_reach_inv[OF assms(1)] by (auto simp: pods_inv_def excl_def)
  have eq: "AssignPodIPv4Address now pod ds = assign_from_enis pod now (eniIPPools ds) ds"
    using assms(3) by (simp add: AssignPodIPv4Address_def assignPodIPv4AddressUnsafe_def)
  let ?free = "\<exists>ek p ip a. map_of (eniIPPools ds) ek = Some p \<and> map_of (IPv4Addresses p) ip = Some a \<and>
      \<not> Assigned a \<and> now - UnassignedTime a > 30 * second"
  have taken: ?free if "AssignPodIPv4Address now pod ds = (Val r, ds')" for r ds'
    using assign_unnamed_Val[OF assms(1,2), of now "fst r" "snd r" ds'] that
    by (metis prod.collapse)
  have exh: "\<not> ?free" if "assign_from_enis pod now (eniIPPools ds) ds = (Err e, ds')" for e ds'
    using exhausted_Err[OF inv assms(2) that] by blast
  obtain r ds' where run: "assign_from_enis pod now (eniIPPools ds) ds = (r, ds')"
    by (cases "assign_from_enis pod now (eniIPPools ds) ds")
  consider x where "r = Val x" | "r = Err (NewErr ''assignPodIPv4AddressUnsafe: no available IP addresses'')"
      "ds' = ds"
    using assign_from_enis_no_panic[of pod now "eniIPPools ds" ds] run
      assign_from_enis_Err[of pod now "eniIPPools ds" ds] by (cases r) auto
  then show ?thesis
  proof cases
    case 1
    then have ?free using taken[of x ds'] run by (simp add: eq)
    then have "\<not> (\<forall>ek p ip a. map_of (eniIPPools ds) ek = Some p \<and> map_of (IPv4Addresses p) ip = Some a
                 \<longrightarrow> Assigned a \<or> now - UnassignedTime a \<le> 30 * second)" by fastforce
    then show ?thesis by (simp add: eq run 1)
  next
    case 2
    then have "\<not> ?free" using exh run by blast
    then have "\<forall>ek p ip a. map_of (eniIPPools ds) ek = Some p \<and> map_of (IPv4Addresses p) ip = Some a
                 \<longrightarrow> Assigned a \<or> now - UnassignedTime a \<le> 30 * second" by (meson not_less)
    then show ?thesis by (simp add: eq run 2)
  qed
qed

theorem assign_fails_iff_exhausted_witness:
  "AssignPodIPv4Address (20 * second) pod_a store0 =
     (Err (NewErr ''assignPodIPv4AddressUnsafe: no available IP addresses''), store0)"
proof -
  have "IP pod_a = ''''" "map_of (podsIP store0) (podKey pod_a) = None" by code_simp+
  note iff = assign_fails_iff_exhausted[OF store0_cni_reach this, of "20 * second"]
  have "AssignPodIPv4Address (20 * second) pod_a store0 =
     (Err (NewErr ''assignPodIPv4AddressUnsafe: no available IP addresses''), store0)" by code_simp
  with iff show ?thesis by blast
qed

section \<open>Release\<close>

text \<open>
  Releasing gives back what was assigned.  A pod that gets an address and then releases
  it, at any later time, gets the same address and device back as the answer, and afterwards
  every pod holds what it held before; a second release reports that the pod is unknown and
  changes nothing.
\<close>

theorem assign_then_release:
  assumes "cni_reach ds" "AssignPodIPv4Address now (cniPod pk) ds = (Val r, ds1)"
  shows "\<exists>ds2. UnassignPodIPv4Address now' (cniPod pk) ds1 = (Val r, ds2) \<and>
           map_of (podsIP ds2) = map_of (podsIP ds) \<and> assigned ds2 = assigned ds \<and>
           UnassignPodIPv4Address now'' (cniPod pk) ds2 = (Err ErrUnknownPod, ds2)"
proof -
  have inv: "ds_full_inv ds" using cni_reach_inv[OF assms(1)] .
  note new = cni_assign_new[OF assms(2)]
  from store.assign_release[OF inv assms(2), of now'] obtain ds2
    where r2: "UnassignPodIPv4Address now' (cniPod pk) ds1 = (Val r, ds2)" and h: "ds_held ds2 = ds_held ds"
    by blast
  have inv1: "ds_full_inv ds1"
    using store.invar_assign[OF inv, of now pk] assms(2) by simp
  have inv2: "ds_full_inv ds2"
    using store.invar_release[OF inv1, of now' pk] r2 by simp
  have pods: "map_of (podsIP ds2) k = map_of (podsIP ds) k" for k
    using fun_cong[OF h, of k]
    by (auto simp: ds_held_def map_option_case split: option.splits)
  then have "length (podsIP ds2) = length (podsIP ds)"
    using inv inv2 by (intro same_map_length[where R = "(=)"]) (simp_all add: same_map_def ds_inv_def option.rel_eq)
  then have "assigned ds2 = assigned ds" using inv inv2 by (simp add: pods_inv_def)
  moreover have "UnassignPodIPv4Address now'' (cniPod pk) ds2 = (Err ErrUnknownPod, ds2)"
    using new by (simp add: UnassignPodIPv4Address_def pods)
  ultimately show ?thesis using r2 pods by (auto simp: fun_eq_iff)
qed

theorem assign_then_release_witness:
  "\<exists>ds2. UnassignPodIPv4Address (200 * second) pod_a storeA = (Val (''10.0.0.1'', 0), ds2) \<and>
     map_of (podsIP ds2) = map_of (podsIP store0)"
proof -
  have "AssignPodIPv4Address (100 * second)
     (cniPod \<lparr>pk_name = ''a'', pk_namespace = ''ns'', pk_container = ''c1''\<rparr>) store0 =
       (Val (''10.0.0.1'', 0), storeA)" by code_simp
  from assign_then_release[OF store0_cni_reach this, of "200 * second"] show ?thesis
    unfolding pod_a_def by blast
qed

subsection \<open>Cooling\<close>

text \<open>\<open>ip\<close> is free wherever it is, and was released at \<open>t\<close> or later.\<close>

definition cooling :: "string \<Rightarrow> time \<Rightarrow> pool_spec \<Rightarrow> bool" where
  "cooling ip t s \<longleftrightarrow> (\<forall>ek a. s_addr s ek ip = Some a \<longrightarrow> \<not> Assigned a \<and> t \<le> UnassignedTime a)"

text \<open>The operations that neither add \<open>ip\<close> anew nor ask for it by name.\<close>

fun leaves_ip :: "string \<Rightarrow> ds_op \<Rightarrow> bool" where
  "leaves_ip ip (OpAddIP e ip') \<longleftrightarrow> ip' \<noteq> ip"
| "leaves_ip ip (OpAssign pod) \<longleftrightarrow> IP pod \<noteq> ip"
| "leaves_ip ip _ \<longleftrightarrow> True"

lemma cooling_step:
  assumes "spec_step now x s s'" "cooling ip t s" "leaves_ip ip x" "now \<le> t + 30 * second"
  shows "cooling ip t s'"
  using assms
proof (induction rule: spec_step.induct)
  case (assign s pod ek ip' a now d)
  have "ip' \<noteq> ip"
    using assign by (force simp: cooling_def may_take_def split: if_splits)
  then show ?case using assign.prems by (simp add: cooling_def)
next
  case (release s pod i ek a now)
  then have "pi_IP i \<noteq> ip" by (auto simp: cooling_def)
  then show ?case using release.prems by (simp add: cooling_def)
qed (auto simp: cooling_def)

lemma cooling_run:
  assumes "cni_reach ds" "ops_ok h ds" "cooling ip t (ds_abs ds)"
    and "\<forall>(now, x) \<in> set h. now \<le> t + 30 * second \<and> leaves_ip ip x"
  shows "cooling ip t (ds_abs (ds_run h ds))"
  using assms
proof (induction h ds rule: ds_run.induct)
  case (2 now x xs ds)
  have "cooling ip t (ds_abs (ds_exec now x ds))"
    using 2 by (intro cooling_step[OF spec_step_exec[OF 2(2)]]) auto
  with 2 show ?case by (auto intro: cni_reach.exec)
qed simp



section \<open>Removing ENIs\<close>

lemma otherWarmIPs_msum:
  "otherWarmIPs eid m = msum (\<lambda>p. if ID p \<noteq> eid then numIPs p - AssignedIPv4Addresses p else 0) m"
  by (induction eid m rule: otherWarmIPs.induct) (auto simp: numIPs_def)

lemma msum_diff: "msum (\<lambda>v. g v - h v) m = msum g m - msum h m"
  by (induction m) auto

lemma otherWarmIPs_delete:
  assumes "ds_inv ds" "map_of (eniIPPools ds) ek = Some p"
  shows "otherWarmIPs ek (eniIPPools ds) =
           msum numIPs (AList.delete ek (eniIPPools ds)) -
           msum AssignedIPv4Addresses (AList.delete ek (eniIPPools ds))"
proof -
  let ?m = "eniIPPools ds" and ?g = "\<lambda>p. numIPs p - AssignedIPv4Addresses p"
  let ?g' = "\<lambda>p. if ID p \<noteq> ek then ?g p else 0"
  have wf: "mwf ?m" using assms(1) by (simp add: ds_inv_def pools_inv_def)
  have id: "ID q = k" if "map_of ?m k = Some q" for k q
    using ds_inv_eni_ok[OF assms(1) that] by (simp add: eni_ok_def)
  have "msum ?g' (AList.delete ek ?m) = msum ?g' ?m - ?g' p" by (rule msum_delete[OF wf assms(2)])
  then have "msum ?g' ?m = msum ?g' (AList.delete ek ?m)" using id[OF assms(2)] by simp
  also have "\<dots> = msum ?g (AList.delete ek ?m)"
    using wf id by (intro msum_cong_lookup) (auto simp: gomap_simps split: if_splits)
  finally show ?thesis by (simp add: otherWarmIPs_msum msum_diff)
qed

text \<open>
  C21: \<^verbatim>\<open>RemoveUnusedENIFromStore\<close> never panics, and when it removes an ENI, that ENI was not
  the primary one, was attached at least a minute ago, had no address released during the
  last minute and none assigned, and, with a warm-IP target, the ENIs that stay hold at
  least that many free addresses.  The removed ENI's addresses, all free, leave the
  total; nothing else changes.
\<close>

theorem removed_eni_was_unused:
  assumes "ds_reach ds" "RemoveUnusedENIFromStore now w ds = (r, ds')" "r \<noteq> Val ''''"
  shows "\<exists>eni p. r = Val eni \<and> map_of (eniIPPools ds) eni = Some p \<and>
           \<not> IsPrimary p \<and> now - createTime p \<ge> 60 * second \<and> now - lastUnassignedTime p \<ge> 60 * second \<and>
           (\<forall>ip a. map_of (IPv4Addresses p) ip = Some a \<longrightarrow> \<not> Assigned a) \<and>
           (w = 0 \<or> w \<le> total ds' - assigned ds') \<and>
           total ds' = total ds - int (length (IPv4Addresses p)) \<and> assigned ds' = assigned ds \<and>
           map_of (eniIPPools ds') = (map_of (eniIPPools ds))(eni := None) \<and>
           podsIP ds' = podsIP ds \<and> g_totalIPs ds' = total ds' \<and> g_enis ds' = GetENIs ds'"
proof -
  note inv = ds_reach_inv[OF assms(1)]
  obtain p where p: "getDeletableENI now w ds = Some p"
    using assms(2,3) by (cases "getDeletableENI now w ds") (auto simp: RemoveUnusedENIFromStore_def)
  note d = getDeletableENI_Some[OF inv p]
  have young: "now - createTime p \<ge> 60 * second" and cool: "now - lastUnassignedTime p \<ge> 60 * second"
    using d(2) Sub_less_iff[of "60 * second" now]
    by (auto simp: is_deletable_def isTooYoung_def hasIPInCooling_def minLifeTime_def
        addressENICoolingPeriod_def minute_def minDuration_def maxDuration_def second_def)
  have free: "\<forall>ip a. map_of (IPv4Addresses p) ip = Some a \<longrightarrow> \<not> Assigned a"
    using d no_pods_unassigned[OF inv d(1)] by (simp add: is_deletable_def hasPods_def s_addr_iff)
  have inv': "ds_inv ds'"
    using ds_inv_RemoveUnusedENIFromStore[OF inv, of now w] assms(2) by simp
  have r: "r = Val (ID p)" "total ds' = total ds - int (length (IPv4Addresses p))"
    "assigned ds' = assigned ds" "eniIPPools ds' = AList.delete (ID p) (eniIPPools ds)"
    "podsIP ds' = podsIP ds" "g_totalIPs ds' = total ds'" "g_enis ds' = GetENIs ds'"
    using assms(2) p d(1) by (auto simp: RemoveUnusedENIFromStore_def Let_def GetENIs_def)
  have "w = 0 \<or> w \<le> total ds' - assigned ds'"
  proof -
    have "total ds' - assigned ds' = otherWarmIPs (ID p) (eniIPPools ds)"
      using inv' otherWarmIPs_delete[OF inv d(1)] by (simp add: ds_inv_def pools_inv_def r(4))
    then show ?thesis using d(2) by (auto simp: is_deletable_def isRequiredForWarmIPTarget_def)
  qed
  with d young cool free r show ?thesis
    by (intro exI[of _ "ID p"] exI[of _ p]) (auto simp: is_deletable_def gomap_simps)
qed

theorem removed_eni_was_unused_witness:
  "fst (RemoveUnusedENIFromStore (200 * second) 1 storeA) = Val ''eni-2'' \<and>
   1 \<le> total (snd (RemoveUnusedENIFromStore (200 * second) 1 storeA)) -
       assigned (snd (RemoveUnusedENIFromStore (200 * second) 1 storeA))"
proof -
  let ?ds = "snd (RemoveUnusedENIFromStore (200 * second) 1 storeA)"
  have r: "RemoveUnusedENIFromStore (200 * second) 1 storeA = (Val ''eni-2'', ?ds)" by code_simp
  have "fst (RemoveUnusedENIFromStore (200 * second) 1 storeA) = Val ''eni-2''" by code_simp
  with removed_eni_was_unused[OF storeA_reach r] show ?thesis by auto
qed

text \<open>
  Unlike its sibling, \<^verbatim>\<open>RemoveENIFromDataStore\<close> does not set the gauge of all addresses:
  after it removes an ENI that has addresses, the gauge shows more addresses than the node has.
\<close>

theorem RemoveENIFromDataStore_stale_gauge:
  assumes "RemoveENIFromDataStore eni ds = (Val (), ds')" "g_totalIPs ds = total ds"
    and "map_of (eniIPPools ds) eni = Some p" "IPv4Addresses p \<noteq> []"
  shows "total ds' = total ds - int (length (IPv4Addresses p)) \<and> g_totalIPs ds' > total ds'"
  using assms by (auto simp: RemoveENIFromDataStore_def Let_def split: if_splits)

theorem RemoveENIFromDataStore_stale_gauge_witness:
  "let ds' = snd (RemoveENIFromDataStore ''eni-2'' storeA) in total ds' = 2 \<and> g_totalIPs ds' > total ds'"
proof -
  let ?ds' = "snd (RemoveENIFromDataStore ''eni-2'' storeA)"
  have "RemoveENIFromDataStore ''eni-2'' storeA = (Val (), ?ds')" by code_simp
  moreover have "g_totalIPs storeA = total storeA" by code_simp
  moreover have "map_of (eniIPPools storeA) ''eni-2'' = Some (the (map_of (eniIPPools storeA) ''eni-2''))"
    by code_simp
  moreover have "IPv4Addresses (the (map_of (eniIPPools storeA) ''eni-2'')) \<noteq> []" by code_simp
  ultimately have "g_totalIPs ?ds' > total ?ds'" by (rule RemoveENIFromDataStore_stale_gauge[THEN conjunct2])
  moreover have "total ?ds' = 2" by code_simp
  ultimately show ?thesis by (simp add: Let_def)
qed

section \<open>Introspection\<close>

lemma map_of_fold_update:
  assumes "mwf m" "inj_on f S" "set (mkeys m) \<subseteq> S" "k \<in> S"
  shows "map_of (fold (\<lambda>(k, v). AList.update (f k) v) m acc) (f k) =
           (case map_of m k of Some v \<Rightarrow> Some v | None \<Rightarrow> map_of acc (f k))"
  using assms
proof (induction m arbitrary: acc)
  case (Cons e m)
  obtain k' v where e: "e = (k', v)" by (cases e)
  have "f k' = f k \<longleftrightarrow> k' = k" using Cons.prems by (auto simp: e inj_on_def)
  moreover have "map_of m k' = None"
    using Cons.prems(1) e domIff set_mkeys[of m] by fastforce
  ultimately show ?case
    using Cons by (auto simp: e gomap_simps split: option.splits)
qed simp

lemma fold_update_id:
  "mwf m \<Longrightarrow> map_of (fold (\<lambda>(k, v). AList.update k v) m []) = map_of m"
  by (rule ext) (simp add: map_of_fold_update[of m "\<lambda>k. k" UNIV] split: option.splits)

lemma split_at_sep:
  assumes "x @ c # y = x' @ c # y'" "c \<notin> set x" "c \<notin> set x'"
  shows "x = x' \<and> y = y'"
  using assms by (induction x arbitrary: x') (metis append_Cons append_Nil in_set_conv_decomp list.inject
      list.set_intros(1) append_eq_Cons_conv, auto simp: Cons_eq_append_conv)

lemma podInfoKey_inj:
  "inj_on podInfoKey {pk. CHR ''_'' \<notin> set (pk_name pk) \<and> CHR ''_'' \<notin> set (pk_namespace pk)}"
proof (rule inj_onI, goal_cases)
  case (1 p q)
  then have eq: "pk_name p @ CHR ''_'' # (pk_namespace p @ CHR ''_'' # pk_container p) =
      pk_name q @ CHR ''_'' # (pk_namespace q @ CHR ''_'' # pk_container q)"
    by (simp add: podInfoKey_def)
  from split_at_sep[OF eq] 1 have n: "pk_name p = pk_name q" and
    eq': "pk_namespace p @ CHR ''_'' # pk_container p = pk_namespace q @ CHR ''_'' # pk_container q"
    by simp_all
  from split_at_sep[OF eq'] 1 n show ?case by simp
qed

text \<open>
  The introspection answers show the store.  As long as the names and namespaces of the
  pods have no underscore (as Kubernetes guarantees), \<^verbatim>\<open>GetPodInfos\<close> shows every pod under
  its own key with its address, and \<^verbatim>\<open>GetENIInfos\<close> shows every ENI and the counters.
\<close>

theorem introspection_shows_store:
  assumes "ds_reach ds" "map_of (podsIP ds) pk = Some i"
    and "\<forall>pk \<in> set (mkeys (podsIP ds)). CHR ''_'' \<notin> set (pk_name pk) \<and> CHR ''_'' \<notin> set (pk_namespace pk)"
  shows "map_of (GetPodInfos ds) (podInfoKey pk) = Some i \<and>
         map_of (ENIIPPools (GetENIInfos ds)) = map_of (eniIPPools ds) \<and>
         (TotalIPs (GetENIInfos ds), AssignedIPs (GetENIInfos ds)) = GetStats ds"
proof -
  note inv = ds_reach_inv[OF assms(1)]
  let ?S = "{pk. CHR ''_'' \<notin> set (pk_name pk) \<and> CHR ''_'' \<notin> set (pk_namespace pk)}"
  have "pk \<in> set (mkeys (podsIP ds))" using assms(2) by (auto simp: set_mkeys)
  then have "map_of (GetPodInfos ds) (podInfoKey pk) = Some i"
    using inv assms(2,3) map_of_fold_update[OF _ podInfoKey_inj, of "podsIP ds" pk "[]"]
    by (auto simp: GetPodInfos_def ds_inv_def subset_iff)
  then show ?thesis
    using inv fold_update_id[of "eniIPPools ds"]
    by (simp add: GetENIInfos_def GetStats_def ds_inv_def pools_inv_def)
qed

theorem introspection_shows_store_witness:
  "map_of (GetPodInfos storeA) ''a_ns_c1'' = Some \<lparr>pi_IP = ''10.0.0.1'', pi_DeviceNumber = 0\<rparr>"
proof -
  have "map_of (podsIP storeA) (podKey pod_a) = Some \<lparr>pi_IP = ''10.0.0.1'', pi_DeviceNumber = 0\<rparr>"
    "\<forall>pk \<in> set (mkeys (podsIP storeA)). CHR ''_'' \<notin> set (pk_name pk) \<and> CHR ''_'' \<notin> set (pk_namespace pk)"
    by code_simp+
  moreover have "podInfoKey (podKey pod_a) = ''a_ns_c1''" by code_simp
  ultimately show ?thesis using introspection_shows_store[OF storeA_reach] by metis
qed

end
