(* ===== verification/GoStrings.thy ===== *)
theory GoStrings
  imports GoBase "HOL-Library.Char_ord"
begin

text \<open>
  What the sources use of Go's packages \<^verbatim>\<open>strings\<close> and \<^verbatim>\<open>strconv\<close> (Go 1.12, the version
  of \<^verbatim>\<open>go.mod\<close>), on strings of ASCII characters, with the lemmas the components need: splitting
  and joining are inverse, what \<^verbatim>\<open>Fields\<close> returns has no white space, printing and parsing of
  decimal numbers are inverse, and what \<^verbatim>\<open>ParseInt\<close> returns fits its width.
\<close>

section \<open>Package strings\<close>

definition isSpace :: "char \<Rightarrow> bool" where
  "isSpace c \<longleftrightarrow> c \<in> {CHR '' '', CHR 0x09, CHR 0x0A, CHR 0x0B, CHR 0x0C, CHR 0x0D}"

definition HasPrefix :: "string \<Rightarrow> string \<Rightarrow> bool" where
  "HasPrefix s pre \<longleftrightarrow> take (length pre) s = pre"

fun Contains :: "string \<Rightarrow> string \<Rightarrow> bool" where
  "Contains [] sub \<longleftrightarrow> sub = []"
| "Contains (c # s) sub \<longleftrightarrow> HasPrefix (c # s) sub \<or> Contains s sub"

text \<open>The maximal runs of characters that are not white space.\<close>

fun fields_from :: "string \<Rightarrow> string \<Rightarrow> string list" where
  "fields_from cur [] = (if cur = [] then [] else [rev cur])"
| "fields_from cur (c # s) =
     (if isSpace c then (if cur = [] then fields_from [] s else rev cur # fields_from [] s)
      else fields_from (c # cur) s)"

definition Fields :: "string \<Rightarrow> string list" where
  "Fields s = fields_from [] s"

text \<open>\<^verbatim>\<open>strings.Split\<close> at a separator of one character; never the empty list.\<close>

fun Split :: "string \<Rightarrow> char \<Rightarrow> string list" where
  "Split [] sep = [[]]"
| "Split (c # s) sep =
     (if c = sep then [] # Split s sep
      else case Split s sep of [] \<Rightarrow> [[c]] | w # ws \<Rightarrow> (c # w) # ws)"

fun Join :: "string list \<Rightarrow> string \<Rightarrow> string" where
  "Join [] sep = []"
| "Join [s] sep = s"
| "Join (s # t # ss) sep = s @ sep @ Join (t # ss) sep"

definition TrimSpace :: "string \<Rightarrow> string" where
  "TrimSpace s = rev (dropWhile isSpace (rev (dropWhile isSpace s)))"

lemma Split_ne [simp]: "Split s sep \<noteq> []"
  by (induction s) (auto split: list.split)

lemma Join_Split: "Join (Split s sep) [sep] = s"
proof (induction s)
  case (Cons c s)
  obtain w ws where "Split s sep = w # ws" by (cases "Split s sep") auto
  with Cons show ?case by (cases ws) auto
qed simp

lemma Split_no_sep: "w \<in> set (Split s sep) \<Longrightarrow> sep \<notin> set w"
proof (induction s arbitrary: w)
  case (Cons c s)
  then show ?case by (cases "Split s sep") (auto split: if_splits)
qed simp

lemma Split_single: "sep \<notin> set s \<Longrightarrow> Split s sep = [s]"
  by (induction s) auto

lemma Split_append_sep: "sep \<notin> set s \<Longrightarrow> Split (s @ sep # t) sep = s # Split t sep"
  by (induction s) auto

lemma fields_from_spec:
  assumes "w \<in> set (fields_from cur s)" "\<forall>c \<in> set cur. \<not> isSpace c"
  shows "w \<noteq> [] \<and> (\<forall>c \<in> set w. \<not> isSpace c)"
  using assms
proof (induction s arbitrary: cur w)
  case (Cons c s)
  show ?case
  proof (cases "w = rev cur \<and> cur \<noteq> []")
    case False
    then have "w \<in> set (fields_from [] s) \<or> \<not> isSpace c \<and> w \<in> set (fields_from (c # cur) s)"
      using Cons.prems(1) by (simp split: if_splits)
    then show ?thesis using Cons.IH[of w "[]"] Cons.IH[of w "c # cur"] Cons.prems(2) by auto
  qed (use Cons.prems(2) in auto)
qed (auto split: if_splits)

lemma Fields_word: "w \<in> set (Fields s) \<Longrightarrow> w \<noteq> [] \<and> (\<forall>c \<in> set w. \<not> isSpace c)"
  unfolding Fields_def by (rule fields_from_spec) auto

lemma HasPrefix_append [simp]: "HasPrefix (p @ s) p"
  by (simp add: HasPrefix_def)

lemma HasPrefix_iff: "HasPrefix s p \<longleftrightarrow> (\<exists>t. s = p @ t)"
  unfolding HasPrefix_def by (metis append_eq_conv_conj append_take_drop_id)

lemma Contains_iff: "Contains s sub \<longleftrightarrow> (\<exists>a b. s = a @ sub @ b)"
proof (induction s)
  case (Cons c s)
  show ?case
  proof
    assume "Contains (c # s) sub"
    then consider t where "c # s = sub @ t" | "Contains s sub" by (auto simp: HasPrefix_iff)
    then show "\<exists>a b. c # s = a @ sub @ b"
      using Cons by cases (metis append_Nil, metis append_Cons)
  next
    assume "\<exists>a b. c # s = a @ sub @ b"
    then obtain a b where ab: "c # s = a @ sub @ b" by blast
    show "Contains (c # s) sub"
    proof (cases a)
      case Nil
      then have "HasPrefix (c # s) sub" using ab by (auto simp: HasPrefix_iff)
      then show ?thesis by simp
    next
      case (Cons x a')
      then have "Contains s sub" using ab \<open>Contains s sub = _\<close> by auto
      then show ?thesis by simp
    qed
  qed
qed auto

lemma Contains_append: "Contains s sub \<Longrightarrow> Contains (p @ s) sub"
  unfolding Contains_iff by (metis append.assoc)

section \<open>Package strconv\<close>

definition digitChar :: "nat \<Rightarrow> char" where
  "digitChar d = char_of (d + 48)"

fun natToStr :: "nat \<Rightarrow> string" where
  "natToStr n = (if n < 10 then [digitChar n] else natToStr (n div 10) @ [digitChar (n mod 10)])"

declare natToStr.simps [simp del]

definition Itoa :: "int \<Rightarrow> string" where
  "Itoa i = (if i < 0 then CHR ''-'' # natToStr (nat (- i)) else natToStr (nat i))"

text \<open>
  The value of a digit in base at most 36.  The error of a failed conversion is a
  \<^verbatim>\<open>*strconv.NumError\<close>; its text does not escape the characters that \<^verbatim>\<open>Quote\<close> would escape.
\<close>

definition digitVal :: "char \<Rightarrow> int option" where
  "digitVal c =
     (let n = of_char c in
      if 48 \<le> n \<and> n \<le> 57 then Some (n - 48)
      else if 97 \<le> n \<and> n \<le> 122 then Some (n - 97 + 10)
      else if 65 \<le> n \<and> n \<le> 90 then Some (n - 65 + 10)
      else None)"

datatype numErr = ErrSyntax | ErrRange

definition numError :: "string \<Rightarrow> string \<Rightarrow> numErr \<Rightarrow> goerr" where
  "numError fn s e = NewErr (''strconv.'' @ fn @ '': parsing '' @ [CHR 0x22] @ s @ [CHR 0x22] @ '': '' @
     (case e of ErrSyntax \<Rightarrow> ''invalid syntax'' | ErrRange \<Rightarrow> ''value out of range''))"

text \<open>The digit loop of \<^verbatim>\<open>ParseUint\<close>, with the largest value of the width.\<close>

fun parseDigits :: "int \<Rightarrow> int \<Rightarrow> int \<Rightarrow> string \<Rightarrow> numErr + int" where
  "parseDigits base maxVal n [] = Inr n"
| "parseDigits base maxVal n (c # s) =
     (case digitVal c of
        None \<Rightarrow> Inl ErrSyntax
      | Some d \<Rightarrow>
          if base \<le> d then Inl ErrSyntax
          else if maxVal < n * base + d then Inl ErrRange
          else parseDigits base maxVal (n * base + d) s)"

text \<open>Base 0 takes the base from the prefix: \<^verbatim>\<open>0x\<close> for 16, \<^verbatim>\<open>0\<close> for 8, else 10.\<close>

definition parseUint :: "string \<Rightarrow> int \<Rightarrow> nat \<Rightarrow> numErr + int" where
  "parseUint s base bits =
     (let maxVal = 2 ^ bits - 1 in
      if s = [] then Inl ErrSyntax
      else if base = 0 then
        (if hd s = CHR ''0'' \<and> 1 < length s \<and> (s ! 1 = CHR ''x'' \<or> s ! 1 = CHR ''X'') then
           (if length s < 3 then Inl ErrSyntax else parseDigits 16 maxVal 0 (drop 2 s))
         else if hd s = CHR ''0'' then parseDigits 8 maxVal 0 (tl s)
         else parseDigits 10 maxVal 0 s)
      else parseDigits base maxVal 0 s)"

definition parseInt :: "string \<Rightarrow> int \<Rightarrow> nat \<Rightarrow> numErr + int" where
  "parseInt s0 base bits =
     (if s0 = [] then Inl ErrSyntax
      else
        let neg = (hd s0 = CHR ''-'');
            s = (if hd s0 = CHR ''+'' \<or> neg then tl s0 else s0) in
        (case parseUint s base bits of
           Inl e \<Rightarrow> Inl e
         | Inr un \<Rightarrow>
             if \<not> neg \<and> 2 ^ (bits - 1) \<le> un then Inl ErrRange
             else if neg \<and> 2 ^ (bits - 1) < un then Inl ErrRange
             else Inr (if neg then - un else un)))"

definition ParseInt :: "string \<Rightarrow> int \<Rightarrow> nat \<Rightarrow> int res" where
  "ParseInt s base bits =
     (case parseInt s base bits of Inl e \<Rightarrow> Err (numError ''ParseInt'' s e) | Inr i \<Rightarrow> Val i)"

definition Atoi :: "string \<Rightarrow> int res" where
  "Atoi s = (case parseInt s 10 64 of Inl e \<Rightarrow> Err (numError ''Atoi'' s e) | Inr i \<Rightarrow> Val i)"

definition ParseBool :: "string \<Rightarrow> bool res" where
  "ParseBool s =
     (if s \<in> {''1'', ''t'', ''T'', ''true'', ''TRUE'', ''True''} then Val True
      else if s \<in> {''0'', ''f'', ''F'', ''false'', ''FALSE'', ''False''} then Val False
      else Err (numError ''ParseBool'' s ErrSyntax))"

lemma digitVal_nonneg: "digitVal c = Some d \<Longrightarrow> 0 \<le> d"
  by (auto simp: digitVal_def Let_def split: if_splits)

lemma parseDigits_nonneg:
  "parseDigits base maxVal n s = Inr r \<Longrightarrow> 0 \<le> base \<Longrightarrow> 0 \<le> n \<Longrightarrow> 0 \<le> r"
  by (induction base maxVal n s rule: parseDigits.induct)
     (auto split: option.splits if_splits dest: digitVal_nonneg)

lemma parseUint_nonneg: "parseUint s base bits = Inr r \<Longrightarrow> 0 \<le> base \<Longrightarrow> 0 \<le> r"
  by (auto simp: parseUint_def Let_def split: if_splits dest: parseDigits_nonneg)

lemma parseInt_bounds:
  assumes "parseInt s base bits = Inr i" "0 \<le> base"
  shows "- (2 ^ (bits - 1)) \<le> i \<and> i < 2 ^ (bits - 1)"
proof -
  from assms obtain un where u: "0 \<le> un" "(if hd s = CHR ''-'' then un \<le> 2 ^ (bits - 1) \<and> i = - un
      else un < 2 ^ (bits - 1) \<and> i = un)"
    by (auto simp: parseInt_def Let_def not_le not_less split: sum.splits if_splits dest: parseUint_nonneg)
  have "(0::int) < 2 ^ (bits - 1)" by simp
  with u show ?thesis by (smt (verit))
qed

end
