(* ===== verification/AwsUtils.thy ===== *)
theory AwsUtils
  imports GoStrings InstanceLimits
begin

text \<open>
  The client of EC2 and of the instance metadata service: \<^verbatim>\<open>pkg/awsutils/awsutils.go\<close>.

  The world of a call is the cache and an environment \<open>'e\<close>; EC2, the metadata service, the
  clock and the process environment are parameters, the fields of \<open>'e EC2API\<close>, that act on the
  environment.  Go pointers that may be nil are options; dereferencing nil and indexing out of
  range panic.  Latency and error metrics and log lines are left out.
\<close>

section \<open>Constants\<close>

definition metadataMACPath :: string where "metadataMACPath = ''network/interfaces/macs/''"
definition metadataAZ :: string where "metadataAZ = ''placement/availability-zone/''"
definition metadataLocalIP :: string where "metadataLocalIP = ''local-ipv4''"
definition metadataInstanceID :: string where "metadataInstanceID = ''instance-id''"
definition metadataInstanceType :: string where "metadataInstanceType = ''instance-type''"
definition metadataMAC :: string where "metadataMAC = ''mac''"
definition metadataSGs :: string where "metadataSGs = ''/security-group-ids/''"
definition metadataSubnetID :: string where "metadataSubnetID = ''/subnet-id/''"
definition metadataVPCcidrs :: string where "metadataVPCcidrs = ''/vpc-ipv4-cidr-blocks/''"
definition metadataVPCcidr :: string where "metadataVPCcidr = ''/vpc-ipv4-cidr-block/''"
definition metadataDeviceNum :: string where "metadataDeviceNum = ''/device-number/''"
definition metadataInterface :: string where "metadataInterface = ''/interface-id/''"
definition metadataSubnetCIDR :: string where "metadataSubnetCIDR = ''/subnet-ipv4-cidr-block''"
definition metadataIPv4s :: string where "metadataIPv4s = ''/local-ipv4s''"
definition metadataOwnerID :: string where "metadataOwnerID = ''/owner-id''"
definition maxENIDeleteRetries :: nat where "maxENIDeleteRetries = 20"
definition eniDescriptionPrefix :: string where "eniDescriptionPrefix = ''aws-K8S-''"
definition maxENIs :: nat where "maxENIs = 128"
definition clusterNameEnvVar :: string where "clusterNameEnvVar = ''CLUSTER_NAME''"
definition eniNodeTagKey :: string where "eniNodeTagKey = ''node.k8s.amazonaws.com/instance_id''"
definition eniClusterTagKey :: string where "eniClusterTagKey = ''cluster.k8s.amazonaws.com/name''"
definition retryDeleteENIInternal :: duration where "retryDeleteENIInternal = 5 * second"

definition UnknownInstanceType :: string where
  "UnknownInstanceType = ''vpc ip resource(eni ip limit): unknown instance type''"

definition ErrENINotFound :: goerr where
  "ErrENINotFound = Sentinel ''ENI is not found''"

section \<open>Data\<close>

text \<open>The parts of the EC2 answers that the code reads.\<close>

record NetworkInterfacePrivateIpAddress =
  Primary :: "bool option"
  PrivateIpAddress :: "string option"

record NetworkInterface =
  PrivateIpAddresses :: "NetworkInterfacePrivateIpAddress list"
  AttachmentId :: "string option option"      \<comment> \<open>\<open>None\<close>: the attachment is nil\<close>

record InstanceNetworkInterface =
  DeviceIndex :: "int option option"          \<comment> \<open>\<open>None\<close>: the attachment is nil\<close>

definition StringValue :: "string option \<Rightarrow> string" where
  "StringValue p = (case p of None \<Rightarrow> '''' | Some s \<Rightarrow> s)"

definition BoolValue :: "bool option \<Rightarrow> bool" where
  "BoolValue p = (p = Some True)"

definition Int64Value :: "int option \<Rightarrow> int" where
  "Int64Value p = (case p of None \<Rightarrow> 0 | Some i \<Rightarrow> i)"

record 'e EC2API =
  Region :: "('e, string) go"
  NewSession :: "string \<Rightarrow> ('e, unit) go"
  GetMetadata :: "string \<Rightarrow> ('e, string) go"
  DescribeInstances :: "string \<Rightarrow> ('e, InstanceNetworkInterface list list list) go"
  CreateNetworkInterface :: "string \<Rightarrow> string list \<Rightarrow> string \<Rightarrow> ('e, string option option) go"
  CreateTags :: "string \<Rightarrow> (string \<times> string) list \<Rightarrow> ('e, unit) go"
  AttachNetworkInterface :: "int \<Rightarrow> string \<Rightarrow> string \<Rightarrow> ('e, string option) go"
  ModifyNetworkInterfaceAttribute :: "string \<Rightarrow> bool \<Rightarrow> string \<Rightarrow> ('e, unit) go"
  DetachNetworkInterface :: "string option \<Rightarrow> ('e, unit) go"
  DeleteNetworkInterface :: "string \<Rightarrow> ('e, unit) go"
  DescribeNetworkInterfaces :: "string \<Rightarrow> ('e, NetworkInterface list) go"
  AssignPrivateIpAddresses :: "string \<Rightarrow> int \<Rightarrow> ('e, unit) go"
  UnassignPrivateIpAddresses :: "string \<Rightarrow> string list \<Rightarrow> ('e, unit) go"
  Sleep :: "duration \<Rightarrow> 'e \<Rightarrow> 'e"
  Getenv :: "string \<Rightarrow> 'e \<Rightarrow> string"

record EC2InstanceMetadataCache =
  securityGroups :: "string list"
  subnetID :: string
  cidrBlock :: string
  localIPv4 :: string
  instanceID :: string
  instanceType :: string
  vpcIPv4CIDR :: string
  vpcIPv4CIDRs :: "string list"
  primaryENI :: string
  primaryENImac :: string
  availabilityZone :: string
  region :: string
  accountID :: string
  currentENIs :: int

record ENIMetadata =
  ENIID :: string
  MAC :: string
  em_DeviceNumber :: int
  SubnetIPv4CIDR :: string
  LocalIPv4s :: "string list"

type_synonym 'e awsw = "EC2InstanceMetadataCache \<times> 'e"

text \<open>Calls on the environment; reads and writes of the cache.\<close>

definition svc :: "('e, 'a) go \<Rightarrow> ('e awsw, 'a) go" where
  "svc m = zoomG snd (\<lambda>e (c, _). (c, e)) m"

definition cacheG :: "(EC2InstanceMetadataCache \<Rightarrow> 'a) \<Rightarrow> ('e awsw, 'a) go" where
  "cacheG f = getG (\<lambda>(c, _). f c)"

definition setC :: "(EC2InstanceMetadataCache \<Rightarrow> EC2InstanceMetadataCache) \<Rightarrow> ('e awsw, unit) go" where
  "setC f = modG (\<lambda>(c, e). (f c, e))"

lemma aws_world_simps [simp]:
  "svc m (c, e) = (fst (m e), (c, snd (m e)))"
  "bindG (cacheG f) k (c, e) = k (f c) (c, e)"
  "bindG (setC g) j (c, e) = j () (g c, e)"
  by (simp_all add: svc_def cacheG_def setC_def go_defs split: prod.split)

lemma bindG_svc:
  "bindG (svc m) k (c, e) =
     (case m e of (Val x, e') \<Rightarrow> k x (c, e') | (Err x, e') \<Rightarrow> (Err x, (c, e'))
                | (Panic p, e') \<Rightarrow> (Panic p, (c, e')))"
  by (cases "m e"; cases "fst (m e)") (auto simp: bindG_def)

section \<open>Reading the instance metadata\<close>

definition emptyCache :: EC2InstanceMetadataCache where
  "emptyCache = \<lparr>securityGroups = [], subnetID = '''', cidrBlock = '''', localIPv4 = '''',
     instanceID = '''', instanceType = '''', vpcIPv4CIDR = '''', vpcIPv4CIDRs = [],
     primaryENI = '''', primaryENImac = '''', availabilityZone = '''', region = '''',
     accountID = '''', currentENIs = 0\<rparr>"

text \<open>The loop over the interfaces, until the one with the primary MAC address.\<close>

fun findPrimaryENI :: "'e EC2API \<Rightarrow> string list \<Rightarrow> ('e awsw, unit) go" where
  "findPrimaryENI api [] = errG (NewErr ''set primary ENI: primary ENI not found'')"
| "findPrimaryENI api (eniMAC # eniMACs) =
     bindG (wrapG (''set primary ENI: failed to retrieve the device-number data of ENI '' @ eniMAC)
              (svc (GetMetadata api (metadataMACPath @ eniMAC @ metadataDeviceNum)))) (\<lambda>device.
     bindG (wrapG (''set primary ENI: invalid device '' @ device) (resG (ParseInt device 0 32))) (\<lambda>_.
     bindG (cacheG accountID) (\<lambda>acc.
     bindG (if acc = '''' then
              bindG (wrapG ''set primary ENI: failed to retrieve ownerID''
                      (svc (GetMetadata api (metadataMACPath @ eniMAC @ metadataOwnerID))))
                (\<lambda>ownerID. setC (\<lambda>c. c\<lparr>accountID := ownerID\<rparr>))
            else retG ()) (\<lambda>_.
     bindG (wrapG ''set primary ENI: failed to retrieve interface-id''
              (svc (GetMetadata api (metadataMACPath @ eniMAC @ metadataInterface)))) (\<lambda>eni.
     bindG (cacheG primaryENImac) (\<lambda>pmac.
     if pmac = hd (Split eniMAC (CHR ''/'')) then setC (\<lambda>c. c\<lparr>primaryENI := eni\<rparr>)
     else findPrimaryENI api eniMACs))))))"

definition setPrimaryENI :: "'e EC2API \<Rightarrow> ('e awsw, unit) go" where
  "setPrimaryENI api =
     bindG (cacheG primaryENI) (\<lambda>p.
     if p \<noteq> '''' then retG ()
     else
       bindG (wrapG ''set primary ENI: failed to retrieve interfaces data''
                (svc (GetMetadata api metadataMACPath))) (\<lambda>metadataENImacs.
       let eniMACs = Fields metadataENImacs in
       bindG (setC (\<lambda>c. c\<lparr>currentENIs := int (length eniMACs)\<rparr>)) (\<lambda>_.
       findPrimaryENI api eniMACs)))"

text \<open>
  A failed read returns at once; the cache is then dropped by the caller, so the field that
  the failed read assigns is not observable.
\<close>

definition readMeta ::
  "'e EC2API \<Rightarrow> string \<Rightarrow> string \<Rightarrow> (string \<Rightarrow> EC2InstanceMetadataCache \<Rightarrow> EC2InstanceMetadataCache)
     \<Rightarrow> ('e awsw, unit) go" where
  "readMeta api path what upd =
     bindG (wrapG (''get instance metadata: '' @ what) (svc (GetMetadata api path)))
       (\<lambda>v. setC (upd v))"

definition initWithEC2Metadata :: "'e EC2API \<Rightarrow> ('e awsw, unit) go" where
  "initWithEC2Metadata api =
     bindG (readMeta api metadataAZ ''failed to retrieve availability zone data''
              (\<lambda>v c. c\<lparr>availabilityZone := v\<rparr>)) (\<lambda>_.
     bindG (readMeta api metadataLocalIP ''failed to retrieve the instance primary ip address data''
              (\<lambda>v c. c\<lparr>localIPv4 := v\<rparr>)) (\<lambda>_.
     bindG (readMeta api metadataInstanceID ''failed to retrieve instance-id''
              (\<lambda>v c. c\<lparr>instanceID := v\<rparr>)) (\<lambda>_.
     bindG (readMeta api metadataInstanceType ''failed to retrieve instance-type''
              (\<lambda>v c. c\<lparr>instanceType := v\<rparr>)) (\<lambda>_.
     bindG (wrapG ''get instance metadata: failed to retrieve primary interface MAC address''
              (svc (GetMetadata api metadataMAC))) (\<lambda>mac.
     bindG (setC (\<lambda>c. c\<lparr>primaryENImac := mac\<rparr>)) (\<lambda>_.
     bindG (wrapG ''get instance metadata: failed to find primary ENI'' (setPrimaryENI api)) (\<lambda>_.
     bindG (readMeta api (metadataMACPath @ mac @ metadataSGs) ''failed to retrieve security-group-ids''
              (\<lambda>v c. c\<lparr>securityGroups := securityGroups c @ Fields v\<rparr>)) (\<lambda>_.
     bindG (readMeta api (metadataMACPath @ mac @ metadataSubnetID) ''failed to retrieve subnet-ids''
              (\<lambda>v c. c\<lparr>subnetID := v\<rparr>)) (\<lambda>_.
     bindG (readMeta api (metadataMACPath @ mac @ metadataVPCcidr)
              ''failed to retrieve vpc-ipv4-cidr-block data'' (\<lambda>v c. c\<lparr>vpcIPv4CIDR := v\<rparr>)) (\<lambda>_.
     readMeta api (metadataMACPath @ mac @ metadataVPCcidrs)
              ''failed to retrieve vpc-ipv4-cidr-block data''
              (\<lambda>v c. c\<lparr>vpcIPv4CIDRs := vpcIPv4CIDRs c @ Fields v\<rparr>)))))))))))"

definition awsNew :: "'e EC2API \<Rightarrow> ('e, EC2InstanceMetadataCache) go" where
  "awsNew api =
     bindG (wrapG ''instance metadata: failed to retrieve region data'' (Region api)) (\<lambda>r.
     bindG (wrapG ''instance metadata: failed to initialize AWS SDK session'' (NewSession api r)) (\<lambda>_ e.
     case initWithEC2Metadata api (emptyCache\<lparr>region := r\<rparr>, e) of
       (Val _, (c, e')) \<Rightarrow> (Val c, e')
     | (Err x, (_, e')) \<Rightarrow> (Err x, e')
     | (Panic p, (_, e')) \<Rightarrow> (Panic p, e')))"

definition getIPsAndCIDR :: "'e EC2API \<Rightarrow> string \<Rightarrow> ('e awsw, string list \<times> string) go" where
  "getIPsAndCIDR api eniMAC =
     bindG (wrapG (''failed to retrieve subnet-ipv4-cidr-block for ENI '' @ eniMAC)
              (svc (GetMetadata api (metadataMACPath @ eniMAC @ metadataSubnetCIDR)))) (\<lambda>cidr.
     bindG (wrapG (''failed to retrieve ENI '' @ eniMAC @ '' local-ipv4s'')
              (svc (GetMetadata api (metadataMACPath @ eniMAC @ metadataIPv4s)))) (\<lambda>ipv4s.
     retG (Fields ipv4s, cidr)))"

text \<open>
  \<^verbatim>\<open>deviceNum\<close> is parsed at 32 bits into an \<^verbatim>\<open>int64\<close>, so adding 1 does not wrap.
\<close>

definition getENIDeviceNumber :: "'e EC2API \<Rightarrow> string \<Rightarrow> ('e awsw, string \<times> int) go" where
  "getENIDeviceNumber api eniMAC =
     bindG (wrapG (''failed to retrieve device-number for ENI '' @ eniMAC)
              (svc (GetMetadata api (metadataMACPath @ eniMAC @ metadataDeviceNum)))) (\<lambda>device.
     bindG (wrapG (''invalid device '' @ device @ '' for ENI '' @ eniMAC)
              (resG (ParseInt device 0 32))) (\<lambda>deviceNum.
     bindG (wrapG (''get attached ENIs: failed to retrieve interface-id for ENI '' @ eniMAC)
              (svc (GetMetadata api (metadataMACPath @ eniMAC @ metadataInterface)))) (\<lambda>eni.
     bindG (cacheG primaryENI) (\<lambda>p.
     if p = eni then retG (eni, 0) else retG (eni, deviceNum + 1)))))"

definition getENIMetadata :: "'e EC2API \<Rightarrow> string \<Rightarrow> ('e awsw, ENIMetadata) go" where
  "getENIMetadata api macStr =
     (let eniMAC = hd (Split macStr (CHR ''/'')) in
      bindG (wrapG (''get ENI metadata: failed to retrieve device and ENI from metadata service: '' @ eniMAC)
               (getENIDeviceNumber api eniMAC)) (\<lambda>(eni, deviceNum).
      bindG (wrapG (''get ENI metadata: failed to retrieve IPs and CIDR for ENI: '' @ eniMAC)
               (getIPsAndCIDR api eniMAC)) (\<lambda>(localIPv4s, cidr).
      retG \<lparr>ENIID = eni, MAC = eniMAC, em_DeviceNumber = deviceNum, SubnetIPv4CIDR = cidr,
            LocalIPv4s = localIPv4s\<rparr>)))"

fun attachedENIs_loop :: "'e EC2API \<Rightarrow> string list \<Rightarrow> ('e awsw, ENIMetadata list) go" where
  "attachedENIs_loop api [] = retG []"
| "attachedENIs_loop api (macStr # macsStrs) =
     bindG (wrapG (''get attached ENIs: failed to retrieve ENI metadata for ENI: '' @ macStr)
              (getENIMetadata api macStr)) (\<lambda>eniMetadata.
     bindG (attachedENIs_loop api macsStrs) (\<lambda>enis. retG (eniMetadata # enis)))"

definition GetAttachedENIs :: "'e EC2API \<Rightarrow> ('e awsw, ENIMetadata list) go" where
  "GetAttachedENIs api =
     bindG (wrapG ''get attached ENIs: failed to retrieve interfaces data''
              (svc (GetMetadata api metadataMACPath))) (\<lambda>macs.
     let macsStrs = Fields macs in
     bindG (setC (\<lambda>c. c\<lparr>currentENIs := int (length macsStrs)\<rparr>)) (\<lambda>_.
     attachedENIs_loop api macsStrs))"

section \<open>Attaching interfaces\<close>

text \<open>
  The array \<^verbatim>\<open>device\<close> of 128 flags; writing it at 128 or at a negative index panics, and the
  guard lets 128 through.
\<close>

fun markDevices :: "InstanceNetworkInterface list \<Rightarrow> bool list \<Rightarrow> bool list res" where
  "markDevices [] device = Val device"
| "markDevices (eni # enis) device =
     (case DeviceIndex eni of
        None \<Rightarrow> Panic ''nil pointer dereference''
      | Some di \<Rightarrow>
          let i = Int64Value di in
          if i > int maxENIs then markDevices enis device
          else if i < 0 \<or> int (length device) \<le> i then Panic ''index out of range''
          else markDevices enis (device[nat i := True]))"

fun firstFree :: "nat \<Rightarrow> bool list \<Rightarrow> nat option" where
  "firstFree i [] = None"
| "firstFree i (used # device) = (if \<not> used then Some i else firstFree (i + 1) device)"

definition awsGetFreeDeviceNumber :: "'e EC2API \<Rightarrow> ('e awsw, int) go" where
  "awsGetFreeDeviceNumber api =
     bindG (cacheG instanceID) (\<lambda>inst.
     bindG (wrapG ''find a free device number for ENI: not able to retrieve instance data from EC2 control plane''
              (svc (DescribeInstances api inst))) (\<lambda>reservations.
     if length reservations \<noteq> 1 then
       errG (NewErr (''awsGetFreeDeviceNumber: invalid instance id '' @ inst))
     else
       (case hd reservations of
          [] \<Rightarrow> panicG ''index out of range''
        | interfaces # _ \<Rightarrow>
            bindG (resG (markDevices interfaces (replicate maxENIs False))) (\<lambda>device.
            case firstFree 0 device of
              Some d \<Rightarrow> retG (int d)
            | None \<Rightarrow> errG (NewErr ''awsGetFreeDeviceNumber: no available device number'')))))"

definition attachENI :: "'e EC2API \<Rightarrow> string \<Rightarrow> ('e awsw, string) go" where
  "attachENI api eniID =
     bindG (wrapG ''attachENI: failed to get a free device number'' (awsGetFreeDeviceNumber api))
       (\<lambda>freeDevice.
     bindG (cacheG instanceID) (\<lambda>inst.
     bindG (wrapG ''attachENI: failed to attach ENI''
              (svc (AttachNetworkInterface api freeDevice inst eniID))) (\<lambda>att.
     retG (StringValue att))))"

definition createENI :: "'e EC2API \<Rightarrow> bool \<Rightarrow> string list \<Rightarrow> string \<Rightarrow> ('e awsw, string) go" where
  "createENI api useCustomCfg sg subnet =
     bindG (cacheG (\<lambda>c. c)) (\<lambda>c.
     let eniDescription = eniDescriptionPrefix @ instanceID c;
         groups = (if useCustomCfg then sg else securityGroups c);
         subnetId = (if useCustomCfg then subnet else subnetID c) in
     bindG (wrapG ''failed to create network interface''
              (svc (CreateNetworkInterface api eniDescription groups subnetId))) (\<lambda>r.
     case r of
       None \<Rightarrow> panicG ''nil pointer dereference''
     | Some eniID \<Rightarrow> retG (StringValue eniID)))"

definition tagENI :: "'e EC2API \<Rightarrow> string \<Rightarrow> ('e awsw, unit) go" where
  "tagENI api eniID =
     bindG (cacheG instanceID) (\<lambda>inst.
     bindG (getG (\<lambda>(_, e). Getenv api clusterNameEnvVar e)) (\<lambda>clusterName.
     let tags = (eniNodeTagKey, inst) #
                (if clusterName \<noteq> '''' then [(eniClusterTagKey, clusterName)] else []) in
     ignoreG (svc (CreateTags api eniID tags))))"

definition containsAttachmentLimitExceededError :: "goerr \<Rightarrow> bool" where
  "containsAttachmentLimitExceededError err =
     (case err of AwsErr code _ \<Rightarrow> code = ''AttachmentLimitExceeded'' | _ \<Rightarrow> False)"

definition containsPrivateIPAddressLimitExceededError :: "goerr \<Rightarrow> bool" where
  "containsPrivateIPAddressLimitExceededError err =
     (case err of AwsErr code _ \<Rightarrow> code = ''PrivateIpAddressLimitExceeded'' | _ \<Rightarrow> False)"

section \<open>Describing, detaching and deleting interfaces\<close>

definition DescribeENI ::
  "'e EC2API \<Rightarrow> string \<Rightarrow> ('e awsw, NetworkInterfacePrivateIpAddress list \<times> string option) go" where
  "DescribeENI api eniID =
     bindG (tryG (svc (DescribeNetworkInterfaces api eniID))) (\<lambda>r.
     case r of
       Inl err \<Rightarrow>
         (case err of
            AwsErr code _ \<Rightarrow>
              if code = ''InvalidNetworkInterfaceID.NotFound'' then errG ErrENINotFound
              else errG (WrapErr ''failed to describe network interface'' err)
          | _ \<Rightarrow> errG (WrapErr ''failed to describe network interface'' err))
     | Inr [] \<Rightarrow> panicG ''index out of range''
     | Inr (ni # _) \<Rightarrow>
         (case AttachmentId ni of
            None \<Rightarrow> panicG ''nil pointer dereference''
          | Some attachID \<Rightarrow> retG (PrivateIpAddresses ni, attachID)))"

text \<open>
  The two retry loops; the first argument counts the retries left.  The first loop is
  \<^verbatim>\<open>for retry = 0; retry <= maxENIDeleteRetries; retry++\<close> with \<open>left = maxENIDeleteRetries - retry\<close>.
\<close>

fun detach_loop :: "nat \<Rightarrow> 'e EC2API \<Rightarrow> string option \<Rightarrow> duration \<Rightarrow> ('e awsw, unit) go" where
  "detach_loop left api attachID delay =
     bindG (tryG (svc (DetachNetworkInterface api attachID))) (\<lambda>r.
     case r of
       Inr _ \<Rightarrow> retG ()
     | Inl _ \<Rightarrow>
         (case left of
            0 \<Rightarrow> errG (NewErr ''unable to detach ENI from EC2 instance, giving up'')
          | Suc n \<Rightarrow>
              bindG (modG (\<lambda>(c, e). (c, Sleep api delay e))) (\<lambda>_.
              detach_loop n api attachID delay)))"

fun delete_loop :: "nat \<Rightarrow> 'e EC2API \<Rightarrow> string \<Rightarrow> duration \<Rightarrow> ('e awsw, unit) go" where
  "delete_loop 0 api eniName delay = errG (NewErr ''unable to delete ENI, giving up'')"
| "delete_loop (Suc left) api eniName delay =
     bindG (tryG (svc (DeleteNetworkInterface api eniName))) (\<lambda>r.
     case r of
       Inr _ \<Rightarrow> retG ()
     | Inl _ \<Rightarrow>
         bindG (modG (\<lambda>(c, e). (c, Sleep api delay e))) (\<lambda>_.
         delete_loop left api eniName delay))"

definition deleteENI :: "'e EC2API \<Rightarrow> string \<Rightarrow> duration \<Rightarrow> ('e awsw, unit) go" where
  "deleteENI api eniName delay = delete_loop maxENIDeleteRetries api eniName delay"

definition freeENI :: "'e EC2API \<Rightarrow> string \<Rightarrow> duration \<Rightarrow> ('e awsw, unit) go" where
  "freeENI api eniName delay =
     bindG (tryG (DescribeENI api eniName)) (\<lambda>r.
     case r of
       Inl err \<Rightarrow>
         if err = ErrENINotFound then retG ()
         else errG (WrapErr ''FreeENI: failed to retrieve ENI's attachment id'' err)
     | Inr (_, attachID) \<Rightarrow>
         bindG (detach_loop maxENIDeleteRetries api attachID delay) (\<lambda>_.
         wrapG (''FreeENI: failed to free ENI: '' @ eniName) (deleteENI api eniName delay)))"

definition FreeENI :: "'e EC2API \<Rightarrow> string \<Rightarrow> ('e awsw, unit) go" where
  "FreeENI api eniName = freeENI api eniName retryDeleteENIInternal"

text \<open>
  The inner \<^verbatim>\<open>err := cache.FreeENI(eniID)\<close> shadows the error of the failed call, and
  \<^verbatim>\<open>errors.Wrap\<close> of its nil is nil: the call then returns the empty ID and no error.
\<close>

definition AllocENI :: "'e EC2API \<Rightarrow> bool \<Rightarrow> string list \<Rightarrow> string \<Rightarrow> ('e awsw, string) go" where
  "AllocENI api useCustomCfg sg subnet =
     bindG (wrapG ''AllocENI: failed to create ENI'' (createENI api useCustomCfg sg subnet)) (\<lambda>eniID.
     bindG (tagENI api eniID) (\<lambda>_.
     bindG (tryG (attachENI api eniID)) (\<lambda>r.
     case r of
       Inl err \<Rightarrow>
         bindG (ignoreG (deleteENI api eniID retryDeleteENIInternal)) (\<lambda>_.
         errG (WrapErr ''AllocENI: error attaching ENI'' err))
     | Inr attachmentID \<Rightarrow>
         bindG (tryG (svc (ModifyNetworkInterfaceAttribute api attachmentID True eniID))) (\<lambda>r.
         case r of
           Inl _ \<Rightarrow>
             bindG (tryG (FreeENI api eniID)) (\<lambda>f.
             case Wrap (case f of Inl err \<Rightarrow> Some err | Inr _ \<Rightarrow> None)
                    ''AllocENI: unable to change the ENI's attribute'' of
               Some err \<Rightarrow> errG err
             | None \<Rightarrow> retG '''')
         | Inr _ \<Rightarrow> retG eniID))))"

section \<open>Addresses\<close>

definition AllocIPAddress :: "'e EC2API \<Rightarrow> string \<Rightarrow> ('e awsw, unit) go" where
  "AllocIPAddress api eniID =
     wrapG ''failed to assign private IP addresses'' (svc (AssignPrivateIpAddresses api eniID 1))"

definition GetENIipLimit :: "EC2InstanceMetadataCache \<Rightarrow> int res" where
  "GetENIipLimit c =
     (case map_of InstanceIPsAvailable (instanceType c) of
        None \<Rightarrow> Err (NewErr UnknownInstanceType)
      | Some ipLimit \<Rightarrow> Val (ipLimit - 1))"

definition GetENILimit :: "EC2InstanceMetadataCache \<Rightarrow> int res" where
  "GetENILimit c =
     (case map_of InstanceENIsAvailable (instanceType c) of
        None \<Rightarrow> Err (NewErr (UnknownInstanceType @ '': '' @ instanceType c))
      | Some eniLimit \<Rightarrow> Val eniLimit)"

definition AllocIPAddresses :: "'e EC2API \<Rightarrow> string \<Rightarrow> int \<Rightarrow> ('e awsw, unit) go" where
  "AllocIPAddresses api eniID numIPs =
     bindG (cacheG (\<lambda>c. c)) (\<lambda>c.
     bindG (resG (GetENIipLimit c)) (\<lambda>ipLimit.
     let needIPs = (if ipLimit < numIPs then ipLimit else numIPs) in
     if needIPs < 1 then retG ()
     else
       bindG (tryG (svc (AssignPrivateIpAddresses api eniID needIPs))) (\<lambda>r.
       case r of
         Inl err \<Rightarrow>
           if containsPrivateIPAddressLimitExceededError err then retG ()
           else errG (WrapErr ''allocate IP address: failed to allocate a private IP address'' err)
       | Inr _ \<Rightarrow> retG ())))"

text \<open>\<^verbatim>\<open>%s\<close> of a slice of strings prints them in brackets, separated by spaces.\<close>

definition showStrings :: "string list \<Rightarrow> string" where
  "showStrings ips = ''['' @ Join ips '' '' @ '']''"

definition DeallocIPAddresses :: "'e EC2API \<Rightarrow> string \<Rightarrow> string list \<Rightarrow> ('e awsw, unit) go" where
  "DeallocIPAddresses api eniID ips =
     wrapG (''deallocate IP addresses: failed to deallocate private IP addresses: '' @ showStrings ips)
       (svc (UnassignPrivateIpAddresses api eniID ips))"

section \<open>Getters\<close>

definition GetVPCIPv4CIDR :: "EC2InstanceMetadataCache \<Rightarrow> string" where
  "GetVPCIPv4CIDR c = vpcIPv4CIDR c"

definition GetVPCIPv4CIDRs :: "EC2InstanceMetadataCache \<Rightarrow> string list" where
  "GetVPCIPv4CIDRs c = vpcIPv4CIDRs c"

definition GetLocalIPv4 :: "EC2InstanceMetadataCache \<Rightarrow> string" where
  "GetLocalIPv4 c = localIPv4 c"

definition GetPrimaryENI :: "EC2InstanceMetadataCache \<Rightarrow> string" where
  "GetPrimaryENI c = primaryENI c"

definition GetPrimaryENImac :: "EC2InstanceMetadataCache \<Rightarrow> string" where
  "GetPrimaryENImac c = primaryENImac c"

declare detach_loop.simps [simp del]

end
