(* ===== verification/AwsProps.thy ===== *)
theory AwsProps
  imports AwsUtils
begin

text \<open>
  Properties of the EC2 client: the choice of a device number, the limits of instance types,
  the bounds on what is asked of EC2, the retry loops, the device numbers of attached
  interfaces, and the error paths of allocation.
\<close>

section \<open>Device numbers\<close>

definition usedDevices :: "InstanceNetworkInterface list \<Rightarrow> int set" where
  "usedDevices enis = {i. \<exists>ni \<in> set enis. \<exists>di. DeviceIndex ni = Some di \<and> Int64Value di = i}"

lemma markDevices_Val:
  assumes "\<forall>ni \<in> set enis. \<exists>di. DeviceIndex ni = Some di \<and> 0 \<le> Int64Value di \<and> Int64Value di < int (length dev)"
    and "length dev = maxENIs"
  shows "\<exists>dev'. markDevices enis dev = Val dev' \<and> length dev' = length dev \<and>
           (\<forall>k < length dev. dev' ! k \<longleftrightarrow> dev ! k \<or> int k \<in> usedDevices enis)"
  using assms
proof (induction enis arbitrary: dev)
  case (Cons ni enis)
  then obtain di where di: "DeviceIndex ni = Some di" "0 \<le> Int64Value di" "Int64Value di < int (length dev)"
    by auto
  let ?d = "dev[nat (Int64Value di) := True]"
  obtain dev' where d: "markDevices enis ?d = Val dev'" "length dev' = length dev"
    "\<forall>k < length dev. dev' ! k \<longleftrightarrow> ?d ! k \<or> int k \<in> usedDevices enis"
    using Cons.IH[of ?d] Cons.prems by auto
  have u: "usedDevices (ni # enis) = insert (Int64Value di) (usedDevices enis)"
    using di(1) by (auto simp: usedDevices_def)
  have "?d ! k \<longleftrightarrow> dev ! k \<or> int k = Int64Value di" if "k < length dev" for k
    using that di(2) by (cases "k = nat (Int64Value di)") auto
  with d di Cons.prems(2) show ?case by (auto simp: u Let_def maxENIs_def)
qed (simp add: usedDevices_def)

lemma firstFree_Some: "firstFree i dev = Some d \<Longrightarrow>
    i \<le> d \<and> d < i + length dev \<and> \<not> dev ! (d - i) \<and> (\<forall>k < d - i. dev ! k)"
proof (induction i dev rule: firstFree.induct)
  case (2 i u dev)
  show ?case
  proof (cases u)
    case True
    with 2 have "i + 1 \<le> d \<and> d < i + 1 + length dev \<and> \<not> dev ! (d - (i + 1)) \<and> (\<forall>k < d - (i + 1). dev ! k)"
      by simp
    moreover have "d - i = Suc (d - (i + 1))" using calculation by linarith
    ultimately show ?thesis using True by (auto simp: nth_Cons split: nat.splits)
  qed (use 2 in auto)
qed simp

lemma firstFree_None: "firstFree i dev = None \<longleftrightarrow> (\<forall>k < length dev. dev ! k)"
  by (induction i dev rule: firstFree.induct) (auto simp: All_less_Suc2 nth_Cons split: nat.splits)

text \<open>
  C24: as long as EC2 reports device indexes between 0 and 127, \<^verbatim>\<open>awsGetFreeDeviceNumber\<close>
  returns the smallest index that no attached interface uses, and reports an error exactly
  when all 128 are in use.
\<close>

theorem free_device_is_least:
  assumes "DescribeInstances api (instanceID c) e = (Val [interfaces # insts], e')"
    and "\<forall>ni \<in> set interfaces. \<exists>di. DeviceIndex ni = Some di \<and> 0 \<le> Int64Value di \<and> Int64Value di < 128"
  shows "(\<exists>d. awsGetFreeDeviceNumber api (c, e) = (Val d, (c, e')) \<and> 0 \<le> d \<and> d < 128 \<and>
            d \<notin> usedDevices interfaces \<and> (\<forall>d'. 0 \<le> d' \<and> d' < d \<longrightarrow> d' \<in> usedDevices interfaces)) \<or>
         (\<forall>d. 0 \<le> d \<and> d < 128 \<longrightarrow> d \<in> usedDevices interfaces) \<and>
         awsGetFreeDeviceNumber api (c, e) =
           (Err (NewErr ''awsGetFreeDeviceNumber: no available device number''), (c, e'))"
proof -
  let ?dev0 = "replicate maxENIs False"
  obtain dev where dev: "markDevices interfaces ?dev0 = Val dev" "length dev = maxENIs"
    and u: "\<forall>k < maxENIs. dev ! k \<longleftrightarrow> int k \<in> usedDevices interfaces"
    using markDevices_Val[of interfaces ?dev0] assms(2) by (auto simp: maxENIs_def)
  have run: "awsGetFreeDeviceNumber api (c, e) =
      (case firstFree 0 dev of Some d \<Rightarrow> (Val (int d), (c, e'))
       | None \<Rightarrow> (Err (NewErr ''awsGetFreeDeviceNumber: no available device number''), (c, e')))"
    using assms(1) dev(1)
    by (simp add: awsGetFreeDeviceNumber_def wrapG_def bindG_def resG_def retG_def errG_def cacheG_def
        getG_def split: option.split)
  show ?thesis
  proof (cases "firstFree 0 dev")
    case None
    then have "\<forall>k < maxENIs. int k \<in> usedDevices interfaces"
      using firstFree_None[of 0 dev] dev(2) u by simp
    then have "\<forall>d. 0 \<le> d \<and> d < 128 \<longrightarrow> d \<in> usedDevices interfaces"
      by (metis maxENIs_def nat_0_le nat_less_iff of_nat_numeral)
    with None run show ?thesis by simp
  next
    case (Some d)
    note f = firstFree_Some[OF Some]
    have "d' \<in> usedDevices interfaces" if "0 \<le> d'" "d' < int d" for d'
      using f u dev(2) that by (metis add_0 diff_zero less_trans nat_0_le nat_less_iff)
    with f u dev(2) Some run show ?thesis by (auto simp: maxENIs_def)
  qed
qed

text \<open>A simulated EC2 for the witnesses: the environment counts the calls that change EC2.\<close>

definition sim :: "nat EC2API" where
  "sim = \<lparr>Region = retG ''us-west-2'', NewSession = (\<lambda>_. retG ()),
     GetMetadata = (\<lambda>p. if p = metadataMACPath then retG ''0a:01/ 0a:02/ ''
        else if p = metadataMACPath @ ''0a:01'' @ metadataDeviceNum then retG ''0''
        else if p = metadataMACPath @ ''0a:02'' @ metadataDeviceNum then retG ''1''
        else if p = metadataMACPath @ ''0a:01'' @ metadataInterface then retG ''eni-1''
        else if p = metadataMACPath @ ''0a:02'' @ metadataInterface then retG ''eni-2''
        else retG ''10.0.0.9 10.0.0.8''),
     DescribeInstances = (\<lambda>_. retG [[[\<lparr>DeviceIndex = Some (Some 0)\<rparr>, \<lparr>DeviceIndex = Some (Some 2)\<rparr>]]]),
     CreateNetworkInterface = (\<lambda>_ _ _ e. (Val (Some (Some ''eni-9'')), e + 1)),
     CreateTags = (\<lambda>_ _. retG ()), AttachNetworkInterface = (\<lambda>_ _ _ e. (Val (Some ''att-9''), e + 1)),
     ModifyNetworkInterfaceAttribute = (\<lambda>_ _ _ e. (Err (AwsErr ''RequestLimitExceeded'' ''slow down''), e + 1)),
     DetachNetworkInterface = (\<lambda>_ e. (Val (), e + 1)),
     DeleteNetworkInterface = (\<lambda>_ e. if e < 6 then (Err (AwsErr ''InUse'' ''''), e + 1) else (Val (), e + 1)),
     DescribeNetworkInterfaces = (\<lambda>_. retG [\<lparr>PrivateIpAddresses = [], AttachmentId = Some (Some ''att-9'')\<rparr>]),
     AssignPrivateIpAddresses = (\<lambda>_ n e. (Val (), e + nat n)),
     UnassignPrivateIpAddresses = (\<lambda>_ _. retG ()), Sleep = (\<lambda>_ e. e), Getenv = (\<lambda>_ _. '''')\<rparr>"

definition sim_cache :: EC2InstanceMetadataCache where
  "sim_cache = emptyCache\<lparr>instanceID := ''i-1'', instanceType := ''m5.large'', primaryENI := ''eni-1''\<rparr>"

theorem free_device_is_least_witness:
  "awsGetFreeDeviceNumber sim (sim_cache, 0) = (Val 1, (sim_cache, 0))"
proof -
  let ?ifs = "[\<lparr>DeviceIndex = Some (Some 0)\<rparr>, \<lparr>DeviceIndex = Some (Some 2)\<rparr>]"
  have 1: "DescribeInstances sim (instanceID sim_cache) 0 = (Val [?ifs # []], 0)"
    by (simp add: sim_def retG_def)
  have 2: "\<forall>ni \<in> set ?ifs. \<exists>di. DeviceIndex ni = Some di \<and> 0 \<le> Int64Value di \<and> Int64Value di < 128"
    by (simp add: Int64Value_def)
  have u: "usedDevices ?ifs = {0, 2}" by (auto simp: usedDevices_def Int64Value_def)
  have "\<not> (\<forall>d::int. 0 \<le> d \<and> d < 128 \<longrightarrow> d \<in> {0, 2})"
    by (rule notI, drule spec[of _ 1]) simp
  with free_device_is_least[OF 1 2, unfolded u] obtain d where
    d: "awsGetFreeDeviceNumber sim (sim_cache, 0) = (Val d, (sim_cache, 0))"
    "0 \<le> d" "d \<notin> {0, 2}" "\<forall>d'. 0 \<le> d' \<and> d' < d \<longrightarrow> d' \<in> {0, 2}" by blast
  have "\<not> 1 < d" using d(4)[rule_format, of 1] by auto
  then have "d = 1" using d(2,3) by auto
  with d(1) show ?thesis by simp
qed

text \<open>
  An interface at device index 128 passes the guard (\<^verbatim>\<open>> maxENIs\<close>, not \<^verbatim>\<open>>=\<close>) and the
  write to the array of 128 flags panics.
\<close>

theorem device_index_128_panics:
  assumes "DescribeInstances api (instanceID c) e = (Val [interfaces # insts], e')"
    and "interfaces = xs @ \<lparr>DeviceIndex = Some (Some 128)\<rparr> # ys"
    and "\<forall>ni \<in> set xs. \<exists>di. DeviceIndex ni = Some di \<and> 0 \<le> Int64Value di \<and> Int64Value di < 128"
  shows "awsGetFreeDeviceNumber api (c, e) = (Panic ''index out of range'', (c, e'))"
proof -
  have "markDevices (xs @ \<lparr>DeviceIndex = Some (Some 128)\<rparr> # ys) dev = Panic ''index out of range''"
    if "length dev = 128" for dev
    using assms(3) that
  proof (induction xs arbitrary: dev)
    case (Cons ni xs)
    then obtain di where "DeviceIndex ni = Some di" "0 \<le> Int64Value di" "Int64Value di < 128" by auto
    with Cons show ?case by (simp add: Let_def maxENIs_def)
  qed (simp add: Int64Value_def maxENIs_def)
  from this[of "replicate maxENIs False"] assms(1,2) show ?thesis
    by (simp add: awsGetFreeDeviceNumber_def wrapG_def bindG_def resG_def cacheG_def getG_def maxENIs_def)
qed

theorem device_index_128_panics_witness:
  "awsGetFreeDeviceNumber
     (sim\<lparr>DescribeInstances := \<lambda>_. retG [[[\<lparr>DeviceIndex = Some (Some 128)\<rparr>]]]\<rparr>) (sim_cache, 0) =
     (Panic ''index out of range'', (sim_cache, 0))"
  by (rule device_index_128_panics[where xs = "[]" and ys = "[]" and insts = "[]"
        and interfaces = "[\<lparr>DeviceIndex = Some (Some 128)\<rparr>]"])
     (simp_all add: retG_def)

section \<open>Limits\<close>

text \<open>
  The two limits are known for the same instance types, and then the node may have 2 to 15
  interfaces with 1 to 49 secondary addresses each; for every other type both report the
  unknown type.
\<close>

theorem limits_consistent:
  "(\<exists>n k. GetENILimit c = Val n \<and> 2 \<le> n \<and> n \<le> 15 \<and> GetENIipLimit c = Val k \<and> 1 \<le> k \<and> k \<le> 49) \<or>
   GetENILimit c = Err (NewErr (UnknownInstanceType @ '': '' @ instanceType c)) \<and>
   GetENIipLimit c = Err (NewErr UnknownInstanceType)"
  using limits_known[of "instanceType c"] eni_limit_range[of "instanceType c"]
    ip_limit_range[of "instanceType c"]
  by (auto simp: GetENILimit_def GetENIipLimit_def split: option.splits)

text \<open>
  \<^verbatim>\<open>AllocIPAddresses\<close> asks EC2 for at most the free addresses of an interface of the
  node's type, never for zero or a negative number, and at most once; when EC2 says that the
  limit is exceeded it reports success, and every other error is passed on.
\<close>

theorem AllocIPAddresses_bounded:
  assumes "GetENIipLimit c = Val limit"
  shows "AllocIPAddresses api eni n (c, e) =
    (if min limit n < 1 then (Val (), (c, e))
     else case AssignPrivateIpAddresses api eni (min limit n) e of
            (Val _, e') \<Rightarrow> (Val (), (c, e'))
          | (Err err, e') \<Rightarrow>
              (if \<exists>m. err = AwsErr ''PrivateIpAddressLimitExceeded'' m then Val ()
               else Err (WrapErr ''allocate IP address: failed to allocate a private IP address'' err),
               (c, e'))
          | (Panic p, e') \<Rightarrow> (Panic p, (c, e')))"
proof -
  have m: "(if limit < n then limit else n) = min limit n" by simp
  have err: "containsPrivateIPAddressLimitExceededError err \<longleftrightarrow>
      (\<exists>m. err = AwsErr ''PrivateIpAddressLimitExceeded'' m)" for err
    by (cases err) (auto simp: containsPrivateIPAddressLimitExceededError_def)
  show ?thesis
    unfolding AllocIPAddresses_def Let_def m
    using assms err
    by (cases "AssignPrivateIpAddresses api eni (min limit n) e";
        cases "fst (AssignPrivateIpAddresses api eni (min limit n) e)")
       (auto simp: bindG_def tryG_def resG_def cacheG_def getG_def retG_def errG_def)
qed

theorem AllocIPAddresses_bounded_witness:
  "AllocIPAddresses sim ''eni-1'' 30 (sim_cache, 0) = (Val (), (sim_cache, 9))"
proof -
  have "GetENIipLimit sim_cache = Val 9" by code_simp
  from AllocIPAddresses_bounded[OF this, of sim "''eni-1''" 30 0] show ?thesis
    by (simp add: sim_def)
qed

section \<open>Retry loops\<close>

text \<open>One failed attempt to delete, with the pause after it, as it changes the environment.\<close>

definition delete_round :: "'e EC2API \<Rightarrow> string \<Rightarrow> duration \<Rightarrow> 'e \<Rightarrow> 'e" where
  "delete_round api eni d e = Sleep api d (snd (DeleteNetworkInterface api eni e))"

definition delete_fails :: "'e EC2API \<Rightarrow> string \<Rightarrow> 'e \<Rightarrow> bool" where
  "delete_fails api eni e \<longleftrightarrow> (\<exists>x. fst (DeleteNetworkInterface api eni e) = Err x)"

lemma delete_loop_run:
  "delete_loop (Suc n) api eni d (c, e) =
     (if delete_fails api eni e then delete_loop n api eni d (c, delete_round api eni d e)
      else (case DeleteNetworkInterface api eni e of
              (Panic p, e') \<Rightarrow> (Panic p, (c, e')) | (_, e') \<Rightarrow> (Val (), (c, e'))))"
  by (cases "DeleteNetworkInterface api eni e"; cases "fst (DeleteNetworkInterface api eni e)")
     (auto simp: bindG_def tryG_def retG_def modG_def delete_fails_def delete_round_def)

lemma delete_loop_gives_up:
  "(\<And>k. k < n \<Longrightarrow> delete_fails api eni ((delete_round api eni d ^^ k) e)) \<Longrightarrow>
     delete_loop n api eni d (c, e) =
       (Err (NewErr ''unable to delete ENI, giving up''), (c, (delete_round api eni d ^^ n) e))"
proof (induction n arbitrary: e)
  case 0
  then show ?case by (simp add: errG_def)
next
  case (Suc n)
  have "delete_fails api eni e" using Suc.prems[of 0] by simp
  moreover have "delete_loop n api eni d (c, delete_round api eni d e) =
      (Err (NewErr ''unable to delete ENI, giving up''),
       (c, (delete_round api eni d ^^ n) (delete_round api eni d e)))"
    using Suc.prems by (intro Suc.IH) (metis Suc_less_eq funpow_Suc_right o_apply)
  ultimately show ?case unfolding delete_loop_run by (simp add: funpow_swap1)
qed

lemma delete_loop_succeeds:
  assumes "k < n" "\<And>j. j < k \<Longrightarrow> delete_fails api eni ((delete_round api eni d ^^ j) e)"
    and "DeleteNetworkInterface api eni ((delete_round api eni d ^^ k) e) = (Val (), e')"
  shows "delete_loop n api eni d (c, e) = (Val (), (c, e'))"
  using assms
proof (induction k arbitrary: n e)
  case 0
  then obtain m where "n = Suc m" by (cases n) auto
  with 0 show ?case unfolding \<open>n = Suc m\<close> delete_loop_run by (simp add: delete_fails_def)
next
  case (Suc k)
  then obtain m where n: "n = Suc m" by (cases n) auto
  have "delete_fails api eni e" using Suc.prems(2)[of 0] by simp
  moreover have "delete_loop m api eni d (c, delete_round api eni d e) = (Val (), (c, e'))"
  proof (rule Suc.IH)
    show "k < m" using Suc.prems(1) n by simp
    show "delete_fails api eni ((delete_round api eni d ^^ j) (delete_round api eni d e))" if "j < k" for j
      using Suc.prems(2)[of "Suc j"] that by (simp add: funpow_swap1)
    show "DeleteNetworkInterface api eni ((delete_round api eni d ^^ k) (delete_round api eni d e)) = (Val (), e')"
      using Suc.prems(3) by (simp add: funpow_swap1)
  qed
  ultimately show ?case unfolding n delete_loop_run by simp
qed

text \<open>
  \<^verbatim>\<open>deleteENI\<close> always returns.  It makes at most 20 attempts: it succeeds at the first
  attempt that does, and if the first 20 fail it gives up with an error after the 20th pause.
\<close>

theorem deleteENI_bounded:
  assumes "\<And>e p. fst (DeleteNetworkInterface api eni e) \<noteq> Panic p"
  shows "(\<exists>k < 20. \<exists>e'. (\<forall>j < k. delete_fails api eni ((delete_round api eni d ^^ j) e)) \<and>
            DeleteNetworkInterface api eni ((delete_round api eni d ^^ k) e) = (Val (), e') \<and>
            deleteENI api eni d (c, e) = (Val (), (c, e'))) \<or>
         (\<forall>k < 20. delete_fails api eni ((delete_round api eni d ^^ k) e)) \<and>
         deleteENI api eni d (c, e) =
           (Err (NewErr ''unable to delete ENI, giving up''), (c, (delete_round api eni d ^^ 20) e))"
proof (cases "\<exists>k < 20. \<not> delete_fails api eni ((delete_round api eni d ^^ k) e)")
  case False
  then show ?thesis
    using delete_loop_gives_up[of 20 api eni d e c] by (auto simp: deleteENI_def maxENIDeleteRetries_def)
next
  case True
  let ?P = "\<lambda>k. k < 20 \<and> \<not> delete_fails api eni ((delete_round api eni d ^^ k) e)"
  from True obtain k0 where "?P k0" by blast
  define k where "k = (LEAST k. ?P k)"
  have k: "?P k" unfolding k_def by (rule LeastI[of ?P, OF \<open>?P k0\<close>])
  have j: "delete_fails api eni ((delete_round api eni d ^^ j) e)" if "j < k" for j
    using not_less_Least[of j ?P] that k unfolding k_def by auto
  obtain e' where "DeleteNetworkInterface api eni ((delete_round api eni d ^^ k) e) = (Val (), e')"
    using k assms[of "(delete_round api eni d ^^ k) e"] unfolding delete_fails_def
    by (cases "DeleteNetworkInterface api eni ((delete_round api eni d ^^ k) e)";
        cases "fst (DeleteNetworkInterface api eni ((delete_round api eni d ^^ k) e))") auto
  with k j delete_loop_succeeds[of k 20 api eni d e e' c] show ?thesis
    by (auto simp: deleteENI_def maxENIDeleteRetries_def)
qed

theorem deleteENI_bounded_witness:
  "deleteENI sim ''eni-9'' second (sim_cache, 0) = (Val (), (sim_cache, 7))"
proof -
  have "fst (DeleteNetworkInterface sim ''eni-9'' e) \<noteq> Panic p" for e p by (simp add: sim_def)
  note b = deleteENI_bounded[OF this, where d = second and c = sim_cache and e = 0]
  have "deleteENI sim ''eni-9'' second (sim_cache, 0) = (Val (), (sim_cache, 7))" by code_simp
  with b show ?thesis by blast
qed

section \<open>Attached interfaces\<close>

text \<open>What each entry of the answer says, given the cache it was read with.\<close>

definition eni_entry_ok :: "EC2InstanceMetadataCache \<Rightarrow> ENIMetadata \<Rightarrow> bool" where
  "eni_entry_ok c m \<longleftrightarrow> (em_DeviceNumber m = 0 \<longleftrightarrow> ENIID m = primaryENI c) \<and>
     0 \<le> em_DeviceNumber m \<and> em_DeviceNumber m \<le> 2 ^ 31 \<and> CHR ''/'' \<notin> set (MAC m) \<and>
     (\<forall>ip \<in> set (LocalIPv4s m). ip \<noteq> '''' \<and> (\<forall>x \<in> set ip. \<not> isSpace x))"

text \<open>The metadata service never reports a negative device number.\<close>

definition devices_nonneg :: "'e EC2API \<Rightarrow> bool" where
  "devices_nonneg api \<longleftrightarrow> (\<forall>mac e s i. fst (GetMetadata api (metadataMACPath @ mac @ metadataDeviceNum) e) = Val s
     \<longrightarrow> ParseInt s 0 32 = Val i \<longrightarrow> 0 \<le> i)"

lemma svc_Val: "svc m w = (Val x, w') \<longleftrightarrow> m (snd w) = (Val x, snd w') \<and> fst w' = fst w"
  by (cases w; cases w'; cases "m (snd w)") auto

lemma ParseInt_bounds: "ParseInt s base bits = Val i \<Longrightarrow> 0 \<le> base \<Longrightarrow> i < 2 ^ (bits - 1)"
  using parseInt_bounds by (auto simp: ParseInt_def split: sum.splits)

lemma getENIDeviceNumber_Val:
  assumes "devices_nonneg api" "getENIDeviceNumber api mac (c, e) = (Val (eni, d), (c', e'))"
  shows "c' = c \<and> (d = 0 \<longleftrightarrow> eni = primaryENI c) \<and> 0 \<le> d \<and> d \<le> 2 ^ 31"
proof -
  obtain device w1 i w2 w3 where
    1: "svc (GetMetadata api (metadataMACPath @ mac @ metadataDeviceNum)) (c, e) = (Val device, w1)" and
    2: "ParseInt device 0 32 = Val i" "w2 = w1" and
    3: "svc (GetMetadata api (metadataMACPath @ mac @ metadataInterface)) w2 = (Val eni, w3)" and
    4: "d = (if primaryENI (fst w3) = eni then 0 else i + 1)" "w3 = (c', e')"
    using assms(2) unfolding getENIDeviceNumber_def
    by (elim bindG_Val) (auto simp: wrapG_Val resG_def cacheG_def getG_def retG_def split: if_splits prod.splits)
  have "0 \<le> i" using assms(1) 1 2 unfolding devices_nonneg_def svc_Val by (metis fst_conv snd_conv)
  with 1 2 3 4 ParseInt_bounds[OF 2(1)] show ?thesis by (auto simp: svc_Val)
qed

lemma getENIMetadata_Val:
  assumes "devices_nonneg api" "getENIMetadata api mac (c, e) = (Val m, (c', e'))"
  shows "c' = c \<and> eni_entry_ok c m"
proof -
  let ?mac = "hd (Split mac (CHR ''/''))"
  obtain eni d w1 ips cidr where
    1: "getENIDeviceNumber api ?mac (c, e) = (Val (eni, d), w1)" and
    2: "getIPsAndCIDR api ?mac w1 = (Val (ips, cidr), (c', e'))" and
    3: "m = \<lparr>ENIID = eni, MAC = ?mac, em_DeviceNumber = d, SubnetIPv4CIDR = cidr, LocalIPv4s = ips\<rparr>"
    using assms(2) unfolding getENIMetadata_def Let_def
    by (elim bindG_Val) (auto simp: wrapG_Val retG_def split: prod.splits elim!: bindG_Val)
  obtain c1 e1 where w1: "w1 = (c1, e1)" by (cases w1)
  from 2 obtain s where "ips = Fields s" "c' = c1" unfolding getIPsAndCIDR_def w1
    by (elim bindG_Val) (auto simp: wrapG_Val retG_def svc_Val)
  moreover have "CHR ''/'' \<notin> set ?mac" using Split_no_sep[of ?mac mac "CHR ''/''"] by simp
  ultimately show ?thesis
    using getENIDeviceNumber_Val[OF assms(1) 1[unfolded w1]] Fields_word by (auto simp: 3 eni_entry_ok_def)
qed

text \<open>
  C25: device number 0 is the primary interface's.  Whatever \<^verbatim>\<open>GetAttachedENIs\<close> returns, the
  interfaces with device number 0 are exactly the ones with the primary interface's ID, all
  other device numbers are positive and at most \<open>2^31\<close> (no wrap-around), and no address
  of the answer is empty or contains white space.
\<close>

theorem attached_enis_device_zero_is_primary:
  assumes "devices_nonneg api" "GetAttachedENIs api (c, e) = (Val enis, (c', e'))"
  shows "\<forall>m \<in> set enis. eni_entry_ok c m"
proof -
  have loop: "\<forall>m \<in> set enis. eni_entry_ok c1 m"
    if "attachedENIs_loop api macs (c1, e1) = (Val enis, w)" for macs c1 e1 enis w
    using that
  proof (induction macs arbitrary: e1 enis)
    case Nil
    then show ?case by (simp add: retG_def)
  next
    case (Cons mac macs)
    then obtain m w1 ms where 1: "getENIMetadata api mac (c1, e1) = (Val m, w1)" and
      2: "attachedENIs_loop api macs w1 = (Val ms, w)" and "enis = m # ms"
      by (auto simp: wrapG_Val retG_def elim!: bindG_Val)
    obtain c2 e2 where "w1 = (c2, e2)" by (cases w1)
    with getENIMetadata_Val[OF assms(1)] 1 have "c2 = c1" "eni_entry_ok c1 m" by blast+
    with Cons.IH 2 \<open>enis = m # ms\<close> \<open>w1 = (c2, e2)\<close> show ?case by auto
  qed
  from assms(2) obtain macs w1 where
    "attachedENIs_loop api macs (fst w1\<lparr>currentENIs := int (length macs)\<rparr>, snd w1) = (Val enis, (c', e'))"
    "fst w1 = c"
    unfolding GetAttachedENIs_def Let_def
    by (elim bindG_Val) (auto simp: wrapG_Val svc_Val setC_def modG_def split: prod.splits)
  with loop show ?thesis by (force simp: eni_entry_ok_def)
qed

theorem attached_enis_device_zero_is_primary_witness:
  "\<exists>enis. fst (GetAttachedENIs sim (sim_cache, 0)) = Val enis \<and> map ENIID enis = [''eni-1'', ''eni-2''] \<and>
     (\<forall>m \<in> set enis. eni_entry_ok sim_cache m)"
proof -
  have "devices_nonneg sim"
  proof -
    have p: "parseInt ''0'' 0 32 = Inr 0" "parseInt ''1'' 0 32 = Inr 1"
      "parseInt ''0a:01/ 0a:02/ '' 0 32 = Inl ErrSyntax" "parseInt ''eni-1'' 0 32 = Inl ErrSyntax"
      "parseInt ''eni-2'' 0 32 = Inl ErrSyntax" "parseInt ''10.0.0.9 10.0.0.8'' 0 32 = Inl ErrSyntax"
      by code_simp+
    have v: "fst (GetMetadata sim path e) \<in> Val ` {''0'', ''1'', ''0a:01/ 0a:02/ '', ''eni-1'', ''eni-2'',
        ''10.0.0.9 10.0.0.8''}" for path e
      by (simp add: sim_def retG_def)
    have "0 \<le> i" if "fst (GetMetadata sim path e) = Val s" "ParseInt s 0 32 = Val i" for path e s i
      using that v[of path e] p by (auto simp: ParseInt_def split: sum.splits)
    then show ?thesis unfolding devices_nonneg_def by blast
  qed
  moreover have r: "GetAttachedENIs sim (sim_cache, 0) =
     (Val [\<lparr>ENIID = ''eni-1'', MAC = ''0a:01'', em_DeviceNumber = 0,
            SubnetIPv4CIDR = ''10.0.0.9 10.0.0.8'', LocalIPv4s = [''10.0.0.9'', ''10.0.0.8'']\<rparr>,
           \<lparr>ENIID = ''eni-2'', MAC = ''0a:02'', em_DeviceNumber = 2,
            SubnetIPv4CIDR = ''10.0.0.9 10.0.0.8'', LocalIPv4s = [''10.0.0.9'', ''10.0.0.8'']\<rparr>],
      (sim_cache\<lparr>currentENIs := 2\<rparr>, 0))"
    by code_simp
  ultimately show ?thesis using attached_enis_device_zero_is_primary[OF _ r] by (simp add: r)
qed

section \<open>Allocation\<close>

text \<open>
  What EC2 promises, with \<open>ex\<close> the set of interfaces that exist: creation makes a new one or
  fails, deletion and detachment succeed, a description finds every existing attached
  interface and reports the others as not found, and the other calls create and delete nothing.
\<close>

definition ec2_laws :: "'e EC2API \<Rightarrow> ('e \<Rightarrow> string set) \<Rightarrow> bool" where
  "ec2_laws api ex \<longleftrightarrow>
     (\<forall>d sg sn e. case CreateNetworkInterface api d sg sn e of
        (Val (Some (Some i)), e') \<Rightarrow> i \<noteq> '''' \<and> i \<notin> ex e \<and> ex e' = insert i (ex e)
      | (Err x, e') \<Rightarrow> ex e' = ex e
      | _ \<Rightarrow> False) \<and>
     (\<forall>i e. \<exists>e'. DeleteNetworkInterface api i e = (Val (), e') \<and> ex e' = ex e - {i}) \<and>
     (\<forall>a e. \<exists>e'. DetachNetworkInterface api a e = (Val (), e') \<and> ex e' = ex e) \<and>
     (\<forall>i e. case DescribeNetworkInterfaces api i e of
        (Val (ni # _), e') \<Rightarrow> AttachmentId ni \<noteq> None \<and> ex e' = ex e
      | (Err x, e') \<Rightarrow> ex e' = ex e \<and> i \<notin> ex e \<and> (\<exists>m. x = AwsErr ''InvalidNetworkInterfaceID.NotFound'' m)
      | _ \<Rightarrow> False) \<and>
     (\<forall>i e. ex (snd (DescribeInstances api i e)) = ex e) \<and>
     (\<forall>i t e. ex (snd (CreateTags api i t e)) = ex e) \<and>
     (\<forall>d i n e. ex (snd (AttachNetworkInterface api d i n e)) = ex e) \<and>
     (\<forall>a b i e. ex (snd (ModifyNetworkInterfaceAttribute api a b i e)) = ex e)"

abbreviation ex_is :: "('e \<Rightarrow> string set) \<Rightarrow> string set \<Rightarrow> 'e awsw \<Rightarrow> bool" where
  "ex_is ex S \<equiv> \<lambda>w. ex (snd w) = S"

lemma keeps_svc: "(\<And>e. ex (snd (m e)) = ex e) \<Longrightarrow> keeps (ex_is ex S) (svc m)"
  by (auto simp: keeps_def)

lemma keeps_cacheG [keeps_intros]: "keeps I (cacheG f)"
  by (simp add: cacheG_def keeps_getG)

lemma keeps_list_case [keeps_intros]:
  "keeps I m \<Longrightarrow> (\<And>y ys. keeps I (f y ys)) \<Longrightarrow> keeps I (case x of [] \<Rightarrow> m | y # ys \<Rightarrow> f y ys)"
  by (cases x) auto

lemma attach_tag_keep:
  assumes "ec2_laws api ex"
  shows "keeps (ex_is ex S) (attachENI api i)" and "keeps (ex_is ex S) (tagENI api i)"
  using assms unfolding ec2_laws_def attachENI_def awsGetFreeDeviceNumber_def tagENI_def Let_def
  by (auto intro!: keeps_intros keeps_svc)

lemma deleteENI_laws:
  assumes "ec2_laws api ex"
  shows "\<exists>e'. deleteENI api i d (c, e) = (Val (), (c, e')) \<and> ex e' = ex e - {i}"
proof -
  obtain e' where "DeleteNetworkInterface api i e = (Val (), e')" "ex e' = ex e - {i}"
    using assms unfolding ec2_laws_def by meson
  then show ?thesis
    by (simp add: deleteENI_def maxENIDeleteRetries_def eval_nat_numeral bindG_def tryG_def retG_def)
qed

lemma detach_loop_laws:
  assumes "ec2_laws api ex"
  shows "\<exists>e'. detach_loop n api a d (c, e) = (Val (), (c, e')) \<and> ex e' = ex e"
proof -
  obtain e' where "DetachNetworkInterface api a e = (Val (), e')" "ex e' = ex e"
    using assms unfolding ec2_laws_def by meson
  then show ?thesis by (subst detach_loop.simps) (simp add: bindG_def tryG_def retG_def)
qed

lemma DescribeENI_laws:
  assumes "ec2_laws api ex"
  shows "\<exists>e'. ex e' = ex e \<and> ((\<exists>r. DescribeENI api i (c, e) = (Val r, (c, e'))) \<or>
           i \<notin> ex e \<and> DescribeENI api i (c, e) = (Err ErrENINotFound, (c, e')))"
proof -
  obtain r e' where r: "DescribeNetworkInterfaces api i e = (r, e')"
    by (cases "DescribeNetworkInterfaces api i e")
  have "case (r, e') of
        (Val (ni # _), e') \<Rightarrow> AttachmentId ni \<noteq> None \<and> ex e' = ex e
      | (Err x, e') \<Rightarrow> ex e' = ex e \<and> i \<notin> ex e \<and> (\<exists>m. x = AwsErr ''InvalidNetworkInterfaceID.NotFound'' m)
      | _ \<Rightarrow> False"
    using assms r unfolding ec2_laws_def by metis
  with r show ?thesis
    by (auto simp: DescribeENI_def bindG_def tryG_def retG_def errG_def split: res.splits list.splits)
qed

lemma FreeENI_laws:
  assumes "ec2_laws api ex"
  shows "\<exists>e'. FreeENI api i (c, e) = (Val (), (c, e')) \<and> ex e' = ex e - {i}"
proof -
  from DescribeENI_laws[OF assms, of e i c] consider
      e1 where "i \<notin> ex e" "DescribeENI api i (c, e) = (Err ErrENINotFound, (c, e1))" "ex e1 = ex e"
    | e1 adr att where "DescribeENI api i (c, e) = (Val (adr, att), (c, e1))" "ex e1 = ex e" by auto
  then show ?thesis
  proof cases
    case 1
    then show ?thesis by (simp add: FreeENI_def freeENI_def bindG_def tryG_def retG_def)
  next
    case 2
    obtain e2 where 3: "detach_loop maxENIDeleteRetries api att retryDeleteENIInternal (c, e1) = (Val (), (c, e2))"
      "ex e2 = ex e1" using detach_loop_laws[OF assms] by blast
    obtain e3 where "deleteENI api i retryDeleteENIInternal (c, e2) = (Val (), (c, e3))" "ex e3 = ex e2 - {i}"
      using deleteENI_laws[OF assms] by blast
    with 2 3 show ?thesis by (simp add: FreeENI_def freeENI_def bindG_def tryG_def wrapG_def)
  qed
qed

lemma createENI_laws:
  assumes "ec2_laws api ex"
  shows "(\<exists>x e1. createENI api u sg sn (c, e) = (Err x, (c, e1)) \<and> ex e1 = ex e) \<or>
         (\<exists>i e1. createENI api u sg sn (c, e) = (Val i, (c, e1)) \<and> i \<noteq> '''' \<and> i \<notin> ex e \<and> ex e1 = insert i (ex e))"
proof -
  let ?d = "eniDescriptionPrefix @ instanceID c" and ?g = "if u then sg else securityGroups c"
    and ?s = "if u then sn else subnetID c"
  obtain r e1 where r: "CreateNetworkInterface api ?d ?g ?s e = (r, e1)"
    by (cases "CreateNetworkInterface api ?d ?g ?s e")
  have "case (r, e1) of
        (Val (Some (Some i)), e') \<Rightarrow> i \<noteq> '''' \<and> i \<notin> ex e \<and> ex e' = insert i (ex e)
      | (Err x, e') \<Rightarrow> ex e' = ex e
      | _ \<Rightarrow> False"
    using assms[unfolded ec2_laws_def, THEN conjunct1, THEN spec[of _ ?d], THEN spec[of _ ?g],
        THEN spec[of _ ?s], THEN spec[of _ e]] unfolding r .
  moreover have "createENI api u sg sn (c, e) = (case r of
        Val None \<Rightarrow> (Panic ''nil pointer dereference'', (c, e1)) | Val (Some i) \<Rightarrow> (Val (StringValue i), (c, e1))
      | Err x \<Rightarrow> (Err (WrapErr ''failed to create network interface'' x), (c, e1))
      | Panic p \<Rightarrow> (Panic p, (c, e1)))"
    using r unfolding createENI_def Let_def
    by (simp add: bindG_def wrapG_def cacheG_def getG_def retG_def panicG_def split: res.split option.split)
  ultimately show ?thesis
    by (cases r) (auto simp: StringValue_def split: option.splits)
qed

lemma AllocENI_after_attach:
  assumes "ec2_laws api ex" "attachENI api i (c, e) = (r, (c1, e1))" "i \<noteq> ''''" "ex e = insert i S" "i \<notin> S"
    and "bindG (tryG (attachENI api i)) (\<lambda>r. case r of
       Inl err \<Rightarrow>
         bindG (ignoreG (deleteENI api i retryDeleteENIInternal)) (\<lambda>_.
         errG (WrapErr ''AllocENI: error attaching ENI'' err))
     | Inr attachmentID \<Rightarrow>
         bindG (tryG (svc (ModifyNetworkInterfaceAttribute api attachmentID True i))) (\<lambda>r.
         case r of
           Inl _ \<Rightarrow>
             bindG (tryG (FreeENI api i)) (\<lambda>f.
             case Wrap (case f of Inl err \<Rightarrow> Some err | Inr _ \<Rightarrow> None)
                    ''AllocENI: unable to change the ENI's attribute'' of
               Some err \<Rightarrow> errG err
             | None \<Rightarrow> retG '''')
         | Inr _ \<Rightarrow> retG i)) (c, e) = (res, (c', e'))"
  shows "case res of Val eni \<Rightarrow> if eni = '''' then ex e' = S else eni = i \<and> ex e' = insert i S
                   | Err _ \<Rightarrow> ex e' = S | Panic _ \<Rightarrow> True"
proof -
  have e1: "ex e1 = insert i S"
    using keepsD[OF attach_tag_keep(1)[OF assms(1), of "insert i S" i], of "(c, e)"] assms(2,4) by simp
  show ?thesis
  proof (cases r)
    case (Err x)
    obtain e2 where "deleteENI api i retryDeleteENIInternal (c1, e1) = (Val (), (c1, e2))" "ex e2 = ex e1 - {i}"
      using deleteENI_laws[OF assms(1)] by blast
    with assms(2,5,6) Err e1 show ?thesis by (auto simp: bindG_def tryG_def ignoreG_def retG_def errG_def)
  next
    case (Val att)
    obtain m e2 where m: "ModifyNetworkInterfaceAttribute api att True i e1 = (m, e2)"
      by (cases "ModifyNetworkInterfaceAttribute api att True i e1")
    have "ex (snd (ModifyNetworkInterfaceAttribute api att True i e1)) = ex e1"
      using assms(1) unfolding ec2_laws_def by blast
    then have e2: "ex e2 = insert i S" using m e1 by simp
    obtain e3 where "FreeENI api i (c1, e2) = (Val (), (c1, e3))" "ex e3 = ex e2 - {i}"
      using FreeENI_laws[OF assms(1)] by blast
    with assms(2,3,5,6) Val m e2 show ?thesis
      by (cases m) (auto simp: bindG_def tryG_def retG_def)
  next
    case (Panic p)
    with assms(2,6) show ?thesis by (auto simp: bindG_def tryG_def)
  qed
qed


text \<open>A simulated EC2 whose environment is the list of existing interfaces.\<close>

definition sim_eni :: "string list EC2API" where
  "sim_eni = \<lparr>Region = retG ''us-west-2'', NewSession = (\<lambda>_. retG ()), GetMetadata = (\<lambda>_. retG ''''),
     DescribeInstances = (\<lambda>_. retG [[[\<lparr>DeviceIndex = Some (Some 0)\<rparr>]]]),
     CreateNetworkInterface = (\<lambda>_ _ _ e. (Val (Some (Some (''x'' @ concat e))), (''x'' @ concat e) # e)),
     CreateTags = (\<lambda>_ _. retG ()),
     AttachNetworkInterface = (\<lambda>_ i _. if i = ''full'' then errG (AwsErr ''AttachmentLimitExceeded'' '''')
                                        else retG (Some ''att'')),
     ModifyNetworkInterfaceAttribute = (\<lambda>_ _ _. errG (AwsErr ''RequestLimitExceeded'' '''')),
     DetachNetworkInterface = (\<lambda>_. retG ()),
     DeleteNetworkInterface = (\<lambda>i e. (Val (), removeAll i e)),
     DescribeNetworkInterfaces = (\<lambda>i e. if i \<in> set e
        then (Val [\<lparr>PrivateIpAddresses = [], AttachmentId = Some (Some ''att'')\<rparr>], e)
        else (Err (AwsErr ''InvalidNetworkInterfaceID.NotFound'' ''''), e)),
     AssignPrivateIpAddresses = (\<lambda>_ _. retG ()), UnassignPrivateIpAddresses = (\<lambda>_ _. retG ()),
     Sleep = (\<lambda>_ e. e), Getenv = (\<lambda>_ _. '''')\<rparr>"

lemma sim_eni_laws: "ec2_laws sim_eni set"
proof -
  have "''x'' @ concat e \<notin> set e" for e :: "string list"
  proof
    assume "''x'' @ concat e \<in> set e"
    then obtain a b where "e = a @ (''x'' @ concat e) # b" by (meson split_list)
    from arg_cong[OF this, of "\<lambda>l. length (concat l)"] show False by simp
  qed
  then show ?thesis
    by (auto simp: ec2_laws_def sim_eni_def retG_def errG_def)
qed


text \<open>
  When EC2 refuses to set the attribute of the new interface and the clean-up then
  succeeds, \<^verbatim>\<open>AllocENI\<close> reports success with the empty ID: the error is lost.
\<close>

theorem AllocENI_loses_error:
  assumes "createENI api u sg subnet w = (Val eni, w1)" "tagENI api eni w1 = (Val (), w2)"
    and "attachENI api eni w2 = (Val att, w3)"
    and "svc (ModifyNetworkInterfaceAttribute api att True eni) w3 = (Err err, w4)"
    and "FreeENI api eni w4 = (Val (), w5)"
  shows "AllocENI api u sg subnet w = (Val '''', w5)"
  using assms by (simp add: AllocENI_def bindG_def wrapG_def tryG_def retG_def)

theorem AllocENI_loses_error_witness:
  "AllocENI sim_eni False [] '''' (sim_cache, [''eni-1'']) = (Val '''', (sim_cache, [''eni-1'']))"
  by (rule AllocENI_loses_error[where eni = "''xeni-1''" and att = "''att''"
        and ?w1.0 = "(sim_cache, [''xeni-1'', ''eni-1''])" and ?w2.0 = "(sim_cache, [''xeni-1'', ''eni-1''])"
        and ?w3.0 = "(sim_cache, [''xeni-1'', ''eni-1''])" and ?w4.0 = "(sim_cache, [''xeni-1'', ''eni-1''])"
        and err = "AwsErr ''RequestLimitExceeded'' ''''"]) code_simp+

text \<open>
  An interface that exists but is not attached (a detached one whose deletion failed before)
  makes \<^verbatim>\<open>FreeENI\<close> panic: \<^verbatim>\<open>DescribeENI\<close> dereferences the attachment, which is nil.
\<close>

theorem FreeENI_panics_when_detached:
  assumes "DescribeNetworkInterfaces api eni e = (Val (ni # nis), e')" "AttachmentId ni = None"
  shows "FreeENI api eni (c, e) = (Panic ''nil pointer dereference'', (c, e'))"
  using assms
  by (simp add: FreeENI_def freeENI_def DescribeENI_def bindG_def tryG_def panicG_def)

theorem FreeENI_panics_when_detached_witness:
  "FreeENI (sim\<lparr>DescribeNetworkInterfaces := \<lambda>_. retG [\<lparr>PrivateIpAddresses = [], AttachmentId = None\<rparr>]\<rparr>)
     ''eni-9'' (sim_cache, 0) = (Panic ''nil pointer dereference'', (sim_cache, 0))"
  by (rule FreeENI_panics_when_detached[where ni = "\<lparr>PrivateIpAddresses = [], AttachmentId = None\<rparr>"
        and nis = "[]"]) (simp_all add: retG_def)

end
