(* ===== verification/GoNet.thy ===== *)
theory GoNet
  imports GoStrings "HOL-Library.Word"
begin

text \<open>
  What the sources use of Go's package \<^verbatim>\<open>net\<close> (Go 1.12): parsing addresses and CIDR blocks,
  printing IPv4 addresses, and membership in a block.  An IPv4 address is a \<open>32 word\<close>, an IPv6
  address a \<open>128 word\<close>.
\<close>

unbundle bit_operations_syntax

datatype goIP = V4 "32 word" | V6 "128 word"

record IPNet4 =
  netIP :: "32 word"
  prefixLen :: nat

text \<open>\<^verbatim>\<open>dtoi\<close> and \<^verbatim>\<open>xtoi\<close>: the number at the start of a string, how many characters it has.\<close>

definition bigNum :: int where "bigNum = 0xFFFFFF"

fun dtoi_from :: "int \<Rightarrow> nat \<Rightarrow> string \<Rightarrow> (int \<times> nat) option" where
  "dtoi_from n i [] = (if i = 0 then None else Some (n, i))"
| "dtoi_from n i (c # s) =
     (case digitVal c of
        Some d \<Rightarrow>
          if d < 10 then
            (if bigNum \<le> n * 10 + d then None else dtoi_from (n * 10 + d) (i + 1) s)
          else if i = 0 then None else Some (n, i)
      | None \<Rightarrow> if i = 0 then None else Some (n, i))"

definition dtoi :: "string \<Rightarrow> (int \<times> nat) option" where
  "dtoi s = dtoi_from 0 0 s"

fun xtoi_from :: "int \<Rightarrow> nat \<Rightarrow> string \<Rightarrow> (int \<times> nat) option" where
  "xtoi_from n i [] = (if i = 0 then None else Some (n, i))"
| "xtoi_from n i (c # s) =
     (case digitVal c of
        Some d \<Rightarrow>
          if d < 16 then
            (if bigNum \<le> n * 16 + d then None else xtoi_from (n * 16 + d) (i + 1) s)
          else if i = 0 then None else Some (n, i)
      | None \<Rightarrow> if i = 0 then None else Some (n, i))"

definition xtoi :: "string \<Rightarrow> (int \<times> nat) option" where
  "xtoi s = xtoi_from 0 0 s"

text \<open>The four numbers of a dotted address; the argument counts the numbers still to read.\<close>

fun parseOctets :: "nat \<Rightarrow> bool \<Rightarrow> string \<Rightarrow> int list option" where
  "parseOctets 0 first s = (if s = [] then Some [] else None)"
| "parseOctets (Suc k) first s =
     (if s = [] then None
      else if \<not> first \<and> hd s \<noteq> CHR ''.'' then None
      else
        let s1 = (if first then s else tl s) in
        (case dtoi s1 of
           None \<Rightarrow> None
         | Some (n, c) \<Rightarrow>
             if 0xFF < n then None
             else map_option ((#) n) (parseOctets k False (drop c s1))))"

fun joinBytes :: "int \<Rightarrow> int list \<Rightarrow> int" where
  "joinBytes b [] = 0"
| "joinBytes b (n # ns) = n * b ^ length ns + joinBytes b ns"

definition parseIPv4 :: "string \<Rightarrow> (32 word) option" where
  "parseIPv4 s = map_option (\<lambda>ns. word_of_int (joinBytes 256 ns)) (parseOctets 4 True s)"

text \<open>
  The loop of \<^verbatim>\<open>parseIPv6\<close> over the groups of 16 bits, at most eight; the result is the groups
  read, the position of the ellipsis among them and the rest of the string.
\<close>

fun parseGroups :: "nat \<Rightarrow> int list \<Rightarrow> nat option \<Rightarrow> string \<Rightarrow> (int list \<times> nat option \<times> string) option" where
  "parseGroups 0 gs ell s = Some (gs, ell, s)"
| "parseGroups (Suc k) gs ell s =
     (case xtoi s of
        None \<Rightarrow> None
      | Some (n, c) \<Rightarrow>
          if 0xFFFF < n then None
          else if c < length s \<and> s ! c = CHR ''.'' then
            (if ell = None \<and> length gs \<noteq> 6 then None
             else if 6 < length gs then None
             else case parseOctets 4 True s of
                    None \<Rightarrow> None
                  | Some ns \<Rightarrow> Some (gs @ [joinBytes 256 (take 2 ns), joinBytes 256 (drop 2 ns)], ell, []))
          else
            let gs1 = gs @ [n]; s1 = drop c s in
            if s1 = [] then Some (gs1, ell, [])
            else if hd s1 \<noteq> CHR '':'' \<or> length s1 = 1 then None
            else
              let s2 = tl s1 in
              if hd s2 = CHR '':'' then
                (if ell \<noteq> None then None
                 else if tl s2 = [] then Some (gs1, Some (length gs1), [])
                 else parseGroups k gs1 (Some (length gs1)) (tl s2))
              else parseGroups k gs1 ell s2)"

definition parseIPv6 :: "string \<Rightarrow> (128 word) option" where
  "parseIPv6 s0 =
     (let dbl = (take 2 s0 = ''::'');
          s = (if dbl then drop 2 s0 else s0) in
      if dbl \<and> s = [] then Some 0
      else
        case parseGroups 8 [] (if dbl then Some 0 else None) s of
          None \<Rightarrow> None
        | Some (gs, ell, rest) \<Rightarrow>
            if rest \<noteq> [] then None
            else if length gs < 8 then
              (case ell of
                 None \<Rightarrow> None
               | Some p \<Rightarrow> Some (word_of_int (joinBytes 65536
                             (take p gs @ replicate (8 - length gs) 0 @ drop p gs))))
            else if ell \<noteq> None then None
            else Some (word_of_int (joinBytes 65536 gs)))"

definition ParseIP :: "string \<Rightarrow> goIP option" where
  "ParseIP s =
     (case find (\<lambda>c. c = CHR ''.'' \<or> c = CHR '':'') s of
        None \<Rightarrow> None
      | Some c \<Rightarrow> if c = CHR ''.'' then map_option V4 (parseIPv4 s) else map_option V6 (parseIPv6 s))"

definition mask4 :: "nat \<Rightarrow> 32 word" where
  "mask4 n = NOT (mask (32 - n))"

definition mask6 :: "nat \<Rightarrow> 128 word" where
  "mask6 n = NOT (mask (128 - n))"

datatype goNet = Net4 IPNet4 | Net6 "128 word" nat

definition cidrError :: "string \<Rightarrow> goerr" where
  "cidrError s = NewErr (''invalid CIDR address: '' @ s)"

definition ParseCIDR :: "string \<Rightarrow> (goIP \<times> goNet) res" where
  "ParseCIDR s =
     (let addr = takeWhile (\<lambda>c. c \<noteq> CHR ''/'') s; rest = dropWhile (\<lambda>c. c \<noteq> CHR ''/'') s in
      if rest = [] then Err (cidrError s)
      else
        let m = tl rest in
        (case dtoi m of
           None \<Rightarrow> Err (cidrError s)
         | Some (n, i) \<Rightarrow>
             if i \<noteq> length m then Err (cidrError s)
             else
               (case parseIPv4 addr of
                  Some ip \<Rightarrow>
                    if 32 < n then Err (cidrError s)
                    else Val (V4 ip, Net4 \<lparr>netIP = ip AND mask4 (nat n), prefixLen = nat n\<rparr>)
                | None \<Rightarrow>
                    (case parseIPv6 addr of
                       Some ip \<Rightarrow>
                         if 128 < n then Err (cidrError s)
                         else Val (V6 ip, Net6 (ip AND mask6 (nat n)) (nat n))
                     | None \<Rightarrow> Err (cidrError s)))))"

text \<open>Membership of an IPv4 address in an IPv4 block, and printing.\<close>

definition in_net :: "32 word \<Rightarrow> IPNet4 \<Rightarrow> bool" where
  "in_net a n \<longleftrightarrow> a AND mask4 (prefixLen n) = netIP n"

definition octet :: "32 word \<Rightarrow> nat \<Rightarrow> nat" where
  "octet w k = unat (drop_bit (8 * k) w AND 0xFF)"

definition IPv4String :: "32 word \<Rightarrow> string" where
  "IPv4String w = natToStr (octet w 3) @ ''.'' @ natToStr (octet w 2) @ ''.'' @
     natToStr (octet w 1) @ ''.'' @ natToStr (octet w 0)"

lemma ParseCIDR_V4_canonical:
  assumes "ParseCIDR s = Val (ip, Net4 n)"
  shows "prefixLen n \<le> 32 \<and> netIP n AND mask4 (prefixLen n) = netIP n \<and> (\<exists>a. ip = V4 a \<and> in_net a n)"
  using assms
  by (auto simp: ParseCIDR_def Let_def in_net_def and.assoc split: if_splits option.splits)

section \<open>Printing\<close>

definition hexChar :: "int \<Rightarrow> char" where
  "hexChar d = (if d < 10 then char_of (d + 48) else char_of (d + 87))"

function intToHex :: "int \<Rightarrow> string" where
  "intToHex n = (if n < 16 then [hexChar n] else intToHex (n div 16) @ [hexChar (n mod 16)])"
  by auto
termination by (relation "measure nat") auto

declare intToHex.simps [simp del]

definition group16 :: "128 word \<Rightarrow> nat \<Rightarrow> int" where
  "group16 w k = uint (drop_bit (16 * (7 - k)) w AND 0xFFFF)"

text \<open>The first longest run of at least two zero groups, as its start and its end.\<close>

fun zeroRun :: "int list \<Rightarrow> nat" where
  "zeroRun [] = 0"
| "zeroRun (g # gs) = (if g = 0 then Suc (zeroRun gs) else 0)"

definition longestRun :: "int list \<Rightarrow> (nat \<times> nat) option" where
  "longestRun gs =
     fold (\<lambda>i best. let n = zeroRun (drop i gs) in
             if n < 2 then best
             else case best of None \<Rightarrow> Some (i, n) | Some (_, m) \<Rightarrow> if m < n then Some (i, n) else best)
       [0..<length gs] None"

definition IPv6String :: "128 word \<Rightarrow> string" where
  "IPv6String w =
     (let gs = map (group16 w) [0..<8]; hex = (\<lambda>xs. Join (map intToHex xs) '':'') in
      case longestRun gs of
        None \<Rightarrow> hex gs
      | Some (i, n) \<Rightarrow> hex (take i gs) @ ''::'' @ hex (drop (i + n) gs))"

text \<open>The string of a nil \<^verbatim>\<open>net.IP\<close>; the 16-byte form of an IPv4 address prints as IPv4.\<close>

definition To4 :: "goIP \<Rightarrow> (32 word) option" where
  "To4 ip = (case ip of V4 a \<Rightarrow> Some a
             | V6 w \<Rightarrow> if drop_bit 32 w = 0xFFFF then Some (ucast w) else None)"

definition IPString :: "goIP option \<Rightarrow> string" where
  "IPString ip = (case ip of None \<Rightarrow> ''<nil>''
     | Some a \<Rightarrow> (case To4 a of Some w \<Rightarrow> IPv4String w
                  | None \<Rightarrow> (case a of V6 w \<Rightarrow> IPv6String w | V4 w \<Rightarrow> IPv4String w)))"

definition netAddr :: "goNet \<Rightarrow> goIP" where
  "netAddr n = (case n of Net4 m \<Rightarrow> V4 (netIP m) | Net6 a _ \<Rightarrow> V6 a)"

definition IPNetString :: "goNet \<Rightarrow> string" where
  "IPNetString n = IPString (Some (netAddr n)) @ ''/'' @
     natToStr (case n of Net4 m \<Rightarrow> prefixLen m | Net6 _ k \<Rightarrow> k)"

end
