(* ===== verification/Ipamd.thy ===== *)
theory Ipamd
  imports DataStoreProps AwsUtils GoNet
begin

text \<open>
  The IP address management daemon: \<^verbatim>\<open>ipamd/ipamd.go\<close>.

  \<open>'e ipam\<close> is the daemon's state (\<^verbatim>\<open>IPAMContext\<close>) with the data store inside and an environment
  \<open>'e\<close>; the EC2 client, the Kubernetes client, the ENIConfig controller, the network client, the
  clock and the process environment are the interfaces the daemon calls, the fields of
  \<open>('e, 'r) IpamAPI\<close> (\<open>'r\<close> is the type of the network client's routing rules).
  Counters and log lines are left out.
\<close>

section \<open>Constants and state\<close>

definition ipPoolMonitorInterval :: duration where "ipPoolMonitorInterval = 5 * second"
definition maxRetryCheckENI :: nat where "maxRetryCheckENI = 5"
definition eniAttachTime :: duration where "eniAttachTime = 10 * second"
definition nodeIPPoolReconcileInterval :: duration where "nodeIPPoolReconcileInterval = 60 * second"
definition decreaseIPPoolInterval :: duration where "decreaseIPPoolInterval = 30 * second"
definition maxK8SRetries :: nat where "maxK8SRetries = 5"
definition retryK8SInterval :: duration where "retryK8SInterval = 3 * second"
definition ipReconcileCooldown :: duration where "ipReconcileCooldown = 60 * second"
definition envWarmIPTarget :: string where "envWarmIPTarget = ''WARM_IP_TARGET''"
definition noWarmIPTarget :: int where "noWarmIPTarget = 0"
definition envWarmENITarget :: string where "envWarmENITarget = ''WARM_ENI_TARGET''"
definition defaultWarmENITarget :: int where "defaultWarmENITarget = 1"
definition envMaxENI :: string where "envMaxENI = ''MAX_ENI''"
definition defaultMaxENI :: int where "defaultMaxENI = -1"
definition envCustomNetworkCfg :: string where
  "envCustomNetworkCfg = ''AWS_VPC_K8S_CNI_CUSTOM_NETWORK_CFG''"

record 'e ipam =
  dataStore :: DataStore
  useCustomNetworking :: bool
  maxIPsPerENI :: int
  maxENI :: int
  warmENITarget :: int
  warmIPTarget :: int
  primaryIP :: "(string, string) gomap"
  lastNodeIPPoolAction :: time
  lastDecreaseIPPool :: time
  reconcileCooldownCache :: "(string, time) gomap"
  ienv :: 'e

record ENIConfigSpec =
  SecurityGroups :: "string list"
  Subnet :: string

record ('e, 'r) IpamAPI =
  a_New :: "('e, unit) go"
  a_AllocENI :: "bool \<Rightarrow> string list \<Rightarrow> string \<Rightarrow> ('e, string) go"
  a_FreeENI :: "string \<Rightarrow> ('e, unit) go"
  a_GetAttachedENIs :: "('e, ENIMetadata list) go"
  a_DescribeENI :: "string \<Rightarrow> ('e, NetworkInterfacePrivateIpAddress list \<times> string option) go"
  a_AllocIPAddresses :: "string \<Rightarrow> int \<Rightarrow> ('e, unit) go"
  a_DeallocIPAddresses :: "string \<Rightarrow> string list \<Rightarrow> ('e, unit) go"
  a_GetVPCIPv4CIDR :: "'e \<Rightarrow> string"
  a_GetVPCIPv4CIDRs :: "'e \<Rightarrow> string list"
  a_GetLocalIPv4 :: "'e \<Rightarrow> string"
  a_GetPrimaryENI :: "'e \<Rightarrow> string"
  a_GetENIipLimit :: "'e \<Rightarrow> int res"
  a_GetENILimit :: "'e \<Rightarrow> int res"
  a_GetPrimaryENImac :: "'e \<Rightarrow> string"
  k_K8SGetLocalPodIPs :: "('e, K8SPodInfo list) go"
  c_MyENIConfig :: "('e, ENIConfigSpec) go"
  n_SetupHostNetwork :: "goNet \<Rightarrow> string list \<Rightarrow> string \<Rightarrow> goIP option \<Rightarrow> ('e, unit) go"
  n_SetupENINetwork :: "string \<Rightarrow> string \<Rightarrow> int \<Rightarrow> string \<Rightarrow> ('e, unit) go"
  n_UseExternalSNAT :: "'e \<Rightarrow> bool"
  n_GetExcludeSNATCIDRs :: "'e \<Rightarrow> string list"
  n_GetRuleList :: "('e, 'r list) go"
  n_UpdateRuleListBySrc :: "'r list \<Rightarrow> goIP option \<Rightarrow> string list \<Rightarrow> bool \<Rightarrow> ('e, unit) go"
  t_Now :: "'e \<Rightarrow> time"
  t_Sleep :: "duration \<Rightarrow> 'e \<Rightarrow> 'e"
  LookupEnv :: "string \<Rightarrow> 'e \<Rightarrow> string option"

text \<open>Calls on the environment and on the store; reads of the daemon's state; the clock.\<close>

definition envG :: "('e, 'a) go \<Rightarrow> ('e ipam, 'a) go" where
  "envG m = zoomG ienv (\<lambda>e c. c\<lparr>ienv := e\<rparr>) m"

definition dsG :: "(DataStore, 'a) go \<Rightarrow> ('e ipam, 'a) go" where
  "dsG m = zoomG dataStore (\<lambda>d c. c\<lparr>dataStore := d\<rparr>) m"

definition nowG :: "('e, 'r) IpamAPI \<Rightarrow> ('e ipam, time) go" where
  "nowG api = getG (\<lambda>c. t_Now api (ienv c))"

definition sleepG :: "('e, 'r) IpamAPI \<Rightarrow> duration \<Rightarrow> ('e ipam, unit) go" where
  "sleepG api d = modG (\<lambda>c. c\<lparr>ienv := t_Sleep api d (ienv c)\<rparr>)"

section \<open>The cache of recently freed addresses\<close>

definition cooldownAdd :: "time \<Rightarrow> string list \<Rightarrow> (string, time) gomap \<Rightarrow> (string, time) gomap" where
  "cooldownAdd now ips cache = fold (\<lambda>ip. AList.update ip (now + ipReconcileCooldown)) ips cache"

definition cooldownRemove :: "string \<Rightarrow> (string, time) gomap \<Rightarrow> (string, time) gomap" where
  "cooldownRemove ip cache = AList.delete ip cache"

definition RecentlyFreed :: "time \<Rightarrow> string \<Rightarrow> (string, time) gomap \<Rightarrow> bool \<times> bool" where
  "RecentlyFreed now ip cache =
     (case map_of cache ip of
        Some expiry \<Rightarrow> (True, Sub now expiry < 0)
      | None \<Rightarrow> (False, False))"

section \<open>Targets\<close>

definition ipTargetState :: "'e ipam \<Rightarrow> int \<times> int \<times> bool" where
  "ipTargetState c =
     (if warmIPTarget c = noWarmIPTarget then (0, 0, False)
      else
        let (tot, asg) = GetStats (dataStore c);
            available = tot - asg;
            short = max (warmIPTarget c - available) 0;
            over = max (available - warmIPTarget c) 0
        in (short, over, True))"

definition nodeIPPoolTooLow :: "'e ipam \<Rightarrow> bool" where
  "nodeIPPoolTooLow c =
     (let (short, _, warmIPTargetDefined) = ipTargetState c in
      if warmIPTargetDefined then short > 0
      else
        let (tot, used) = GetStats (dataStore c); available = tot - used in
        available < wrap64 (maxIPsPerENI c * warmENITarget c) \<or> (warmENITarget c = 0 \<and> available = 0))"

definition nodeIPPoolTooHigh :: "'e ipam \<Rightarrow> bool" where
  "nodeIPPoolTooHigh c =
     (let (_, over, warmIPTargetDefined) = ipTargetState c in
      if warmIPTargetDefined then over > 0 else False)"

definition shouldRemoveExtraENIs :: "'e ipam \<Rightarrow> bool" where
  "shouldRemoveExtraENIs c =
     (let (_, _, warmIPTargetDefined) = ipTargetState c in
      if warmIPTargetDefined then True
      else
        let (tot, used) = GetStats (dataStore c); available = tot - used in
        available \<ge> wrap64 (wrap64 (warmENITarget c + 1) * maxIPsPerENI c))"

definition getMaxENI :: "('e, 'r) IpamAPI \<Rightarrow> 'e \<Rightarrow> int res" where
  "getMaxENI api e =
     (case a_GetENILimit api e of
        Err x \<Rightarrow> Err x
      | Panic p \<Rightarrow> Panic p
      | Val instanceMaxENI \<Rightarrow>
          let envMax =
            (case LookupEnv api envMaxENI e of
               None \<Rightarrow> defaultMaxENI
             | Some inputStr \<Rightarrow>
                 (case Atoi inputStr of
                    Val input \<Rightarrow> if input \<ge> 1 then input else defaultMaxENI
                  | _ \<Rightarrow> defaultMaxENI))
          in if envMax \<ge> 1 \<and> envMax < instanceMaxENI then Val envMax else Val instanceMaxENI)"

definition getWarmENITarget :: "('e, 'r) IpamAPI \<Rightarrow> 'e \<Rightarrow> int" where
  "getWarmENITarget api e =
     (case LookupEnv api envWarmENITarget e of
        None \<Rightarrow> defaultWarmENITarget
      | Some inputStr \<Rightarrow>
          (case Atoi inputStr of
             Val input \<Rightarrow> if input < 0 then defaultWarmENITarget else input
           | _ \<Rightarrow> defaultWarmENITarget))"

definition getWarmIPTarget :: "('e, 'r) IpamAPI \<Rightarrow> 'e \<Rightarrow> int" where
  "getWarmIPTarget api e =
     (case LookupEnv api envWarmIPTarget e of
        None \<Rightarrow> noWarmIPTarget
      | Some inputStr \<Rightarrow>
          (case Atoi inputStr of
             Val input \<Rightarrow> if input \<ge> 0 then input else noWarmIPTarget
           | _ \<Rightarrow> noWarmIPTarget))"

text \<open>\<^verbatim>\<open>os.Getenv\<close> gives the empty string for a variable that is not set.\<close>

definition UseCustomNetworkCfg :: "('e, 'r) IpamAPI \<Rightarrow> 'e \<Rightarrow> bool" where
  "UseCustomNetworkCfg api e =
     (let strValue = (case LookupEnv api envCustomNetworkCfg e of None \<Rightarrow> '''' | Some s \<Rightarrow> s) in
      if strValue \<noteq> '''' then (case ParseBool strValue of Val b \<Rightarrow> b | _ \<Rightarrow> False) else False)"

section \<open>Giving back addresses and ENIs\<close>

text \<open>
  The sets are the vendored \<^verbatim>\<open>golang-set\<close>'s; their slice has no repetition, and its order is the
  order of the pool's map, which is open.
\<close>

definition findFreeableIPs :: "string \<Rightarrow> 'e ipam \<Rightarrow> string list res" where
  "findFreeableIPs eni c =
     (let podIPInfos = GetPodInfos (dataStore c);
          usedIPs = map (pi_IP \<circ> snd) podIPInfos;
          eniIPPools = ENIIPPools (GetENIInfos (dataStore c)) in
      case map_of eniIPPools eni of
        None \<Rightarrow> Err (NewErr (''error finding available IPs: eni '' @ eni @ '' does not exist''))
      | Some pool \<Rightarrow>
          let allocatedIPs = remdups (map (Address \<circ> snd) (IPv4Addresses pool));
              availableIPs = filter (\<lambda>ip. ip \<notin> set usedIPs) allocatedIPs;
              (_, over, _) = ipTargetState c;
              numFreeable = min over (int (length availableIPs))
          in Val (take (nat numFreeable) availableIPs))"

text \<open>The loop that takes the addresses out of the store; it returns those it took.\<close>

fun delete_ips :: "string \<Rightarrow> string list \<Rightarrow> ('e ipam, string list) go" where
  "delete_ips eniID [] = retG []"
| "delete_ips eniID (toDelete # ips) =
     bindG (tryG (dsG (DelIPv4AddressFromStore eniID toDelete))) (\<lambda>r.
     bindG (delete_ips eniID ips) (\<lambda>deletedIPs.
     retG (case r of Inl _ \<Rightarrow> deletedIPs | Inr _ \<Rightarrow> toDelete # deletedIPs)))"

fun unassign_loop :: "('e, 'r) IpamAPI \<Rightarrow> string list \<Rightarrow> ('e ipam, unit) go" where
  "unassign_loop api [] = retG ()"
| "unassign_loop api (eniID # eniIDs) =
     bindG (getG (findFreeableIPs eniID)) (\<lambda>found.
     case found of
       Err _ \<Rightarrow> retG ()
     | Panic p \<Rightarrow> panicG p
     | Val ips \<Rightarrow>
         if ips = [] then unassign_loop api eniIDs
         else
           bindG (delete_ips eniID ips) (\<lambda>deletedIPs.
           bindG (ignoreG (envG (a_DeallocIPAddresses api eniID deletedIPs))) (\<lambda>_.
           bindG (nowG api) (\<lambda>now.
           bindG (modG (\<lambda>c. c\<lparr>reconcileCooldownCache :=
                              cooldownAdd now deletedIPs (reconcileCooldownCache c)\<rparr>)) (\<lambda>_.
           unassign_loop api eniIDs)))))"

definition tryUnassignIPsFromAll :: "('e, 'r) IpamAPI \<Rightarrow> ('e ipam, unit) go" where
  "tryUnassignIPsFromAll api =
     bindG (getG ipTargetState) (\<lambda>(_, over, warmIPTargetDefined).
     if warmIPTargetDefined \<and> over > 0 then
       bindG (getG (\<lambda>c. GetENIInfos (dataStore c))) (\<lambda>eniInfos.
       unassign_loop api (mkeys (ENIIPPools eniInfos)))
     else retG ())"

definition decreaseIPPool :: "('e, 'r) IpamAPI \<Rightarrow> duration \<Rightarrow> ('e ipam, unit) go" where
  "decreaseIPPool api interval =
     bindG (nowG api) (\<lambda>now.
     bindG (getG lastDecreaseIPPool) (\<lambda>last.
     if Sub now last \<le> interval then retG ()
     else
       bindG (tryUnassignIPsFromAll api) (\<lambda>_.
       modG (\<lambda>c. c\<lparr>lastDecreaseIPPool := now, lastNodeIPPoolAction := now\<rparr>))))"

definition tryFreeENI :: "('e, 'r) IpamAPI \<Rightarrow> ('e ipam, unit) go" where
  "tryFreeENI api =
     bindG (nowG api) (\<lambda>now.
     bindG (getG warmIPTarget) (\<lambda>target.
     bindG (dsG (RemoveUnusedENIFromStore now target)) (\<lambda>eni.
     if eni = '''' then retG () else ignoreG (envG (a_FreeENI api eni)))))"

section \<open>Setting up ENIs\<close>

definition getENIaddresses ::
  "('e, 'r) IpamAPI \<Rightarrow> string \<Rightarrow> ('e ipam, NetworkInterfacePrivateIpAddress list \<times> string) go" where
  "getENIaddresses api eni =
     bindG (wrapG (''failed to find ENI addresses for ENI '' @ eni) (envG (a_DescribeENI api eni)))
       (\<lambda>(ec2Addrs, _).
     case find (\<lambda>a. BoolValue (Primary a)) ec2Addrs of
       Some a \<Rightarrow> retG (ec2Addrs, StringValue (PrivateIpAddress a))
     | None \<Rightarrow> errG (NewErr (''failed to find the ENI's primary address for ENI '' @ eni)))"

text \<open>Errors of the store are only counted; the last primary address is returned.\<close>

fun addENIaddressesToDataStore ::
  "NetworkInterfacePrivateIpAddress list \<Rightarrow> string \<Rightarrow> string \<Rightarrow> ('e ipam, string) go" where
  "addENIaddressesToDataStore [] eni primary = retG primary"
| "addENIaddressesToDataStore (ec2Addr # ec2Addrs) eni primary =
     (if BoolValue (Primary ec2Addr) then
        addENIaddressesToDataStore ec2Addrs eni (StringValue (PrivateIpAddress ec2Addr))
      else
        bindG (ignoreG (dsG (AddIPv4AddressFromStore eni (StringValue (PrivateIpAddress ec2Addr))))) (\<lambda>_.
        addENIaddressesToDataStore ec2Addrs eni primary))"

definition setupENI :: "('e, 'r) IpamAPI \<Rightarrow> string \<Rightarrow> ENIMetadata \<Rightarrow> ('e ipam, unit) go" where
  "setupENI api eni eniMetadata =
     bindG (wrapG (''failed to retrieve ENI '' @ eni @ '' IP addresses'') (getENIaddresses api eni))
       (\<lambda>(ec2Addrs, eniPrimaryIP).
     bindG (getG (\<lambda>c. a_GetPrimaryENI api (ienv c))) (\<lambda>primaryENI.
     bindG (nowG api) (\<lambda>now.
     bindG (tryG (dsG (AddENI now eni (em_DeviceNumber eniMetadata) (eni = primaryENI)))) (\<lambda>r.
     bindG (case r of
              Inl err \<Rightarrow> if Error err \<noteq> DuplicatedENIError
                         then errG (WrapErr (''failed to add ENI '' @ eni @ '' to data store'') err)
                         else retG ()
            | Inr _ \<Rightarrow> retG ()) (\<lambda>_.
     bindG (if eni \<noteq> primaryENI then
              wrapG (''failed to set up ENI '' @ eni @ '' network'')
                (envG (n_SetupENINetwork api eniPrimaryIP (MAC eniMetadata)
                         (em_DeviceNumber eniMetadata) (SubnetIPv4CIDR eniMetadata)))
            else retG ()) (\<lambda>_.
     bindG (addENIaddressesToDataStore ec2Addrs eni '''') (\<lambda>p.
     modG (\<lambda>c. c\<lparr>primaryIP := AList.update eni p (primaryIP c)\<rparr>))))))))"

text \<open>\<open>left\<close> counts the retries that remain.\<close>

fun waitENIAttached :: "nat \<Rightarrow> ('e, 'r) IpamAPI \<Rightarrow> string \<Rightarrow> ('e ipam, ENIMetadata) go" where
  "waitENIAttached left api eni =
     bindG (tryG (envG (a_GetAttachedENIs api))) (\<lambda>r.
     case (case r of Inl _ \<Rightarrow> None | Inr enis \<Rightarrow> find (\<lambda>m. eni = ENIID m) enis) of
       Some returnedENI \<Rightarrow> retG returnedENI
     | None \<Rightarrow>
         (case left of
            0 \<Rightarrow> errG (NewErr ''waitENIAttached: giving up trying to retrieve ENIs from metadata service'')
          | Suc n \<Rightarrow> bindG (sleepG api eniAttachTime) (\<lambda>_. waitENIAttached n api eni)))"

declare waitENIAttached.simps [simp del]

section \<open>Growing the pool\<close>

definition tryAssignIPs :: "('e, 'r) IpamAPI \<Rightarrow> ('e ipam, bool \<times> goerr option) go" where
  "tryAssignIPs api =
     bindG (getG ipTargetState) (\<lambda>(short, _, warmIPTargetDefined).
     if warmIPTargetDefined \<and> short = 0 then retG (False, None)
     else
       bindG (getG (\<lambda>c. GetENINeedsIP (maxIPsPerENI c) (useCustomNetworking c) (dataStore c))) (\<lambda>found.
       bindG (getG maxIPsPerENI) (\<lambda>maxIPs.
       case found of
         Some eni \<Rightarrow>
           if int (length (IPv4Addresses eni)) < maxIPs then
             bindG (tryG (envG (a_AllocIPAddresses api (ID eni)
                                  (maxIPs - int (length (IPv4Addresses eni)))))) (\<lambda>r.
             bindG (case r of
                      Inr _ \<Rightarrow> retG (Inr ())
                    | Inl _ \<Rightarrow> tryG (envG (a_AllocIPAddresses api (ID eni) 1))) (\<lambda>r1.
             case r1 of
               Inl err \<Rightarrow>
                 retG (False, Some (WrapErr (''failed to allocate one IP addresses on ENI '' @ ID eni @
                                             '', err: '' @ Error err) err))
             | Inr _ \<Rightarrow>
                 bindG (tryG (getENIaddresses api (ID eni))) (\<lambda>r2.
                 case r2 of
                   Inl err \<Rightarrow>
                     retG (True, Some (WrapErr ''failed to get ENI IP addresses during IP allocation'' err))
                 | Inr (ec2Addrs, _) \<Rightarrow>
                     bindG (addENIaddressesToDataStore ec2Addrs (ID eni) '''') (\<lambda>_.
                     retG (True, None)))))
           else retG (False, None)
       | None \<Rightarrow> retG (False, None))))"

definition tryAllocateENI :: "('e, 'r) IpamAPI \<Rightarrow> ('e ipam, unit) go" where
  "tryAllocateENI api =
     bindG (getG useCustomNetworking) (\<lambda>custom.
     bindG (if custom then
              bindG (tryG (envG (c_MyENIConfig api))) (\<lambda>r.
              retG (case r of Inl _ \<Rightarrow> None | Inr cfg \<Rightarrow> Some (SecurityGroups cfg, Subnet cfg)))
            else retG (Some ([], ''''))) (\<lambda>cfg.
     case cfg of
       None \<Rightarrow> retG ()
     | Some (sgs, subnet) \<Rightarrow>
         bindG (tryG (envG (a_AllocENI api custom sgs subnet))) (\<lambda>r.
         case r of
           Inl _ \<Rightarrow> retG ()
         | Inr eni \<Rightarrow>
             bindG (getG (\<lambda>c. let (short, _, warmIPTargetDefined) = ipTargetState c in
                             if warmIPTargetDefined then short else maxIPsPerENI c)) (\<lambda>n.
             bindG (ignoreG (envG (a_AllocIPAddresses api eni n))) (\<lambda>_.
             bindG (tryG (waitENIAttached maxRetryCheckENI api eni)) (\<lambda>r.
             case r of
               Inl _ \<Rightarrow> retG ()
             | Inr eniMetadata \<Rightarrow> ignoreG (setupENI api eni eniMetadata)))))))"

definition updateLastNodeIPPoolAction :: "('e, 'r) IpamAPI \<Rightarrow> ('e ipam, unit) go" where
  "updateLastNodeIPPoolAction api =
     bindG (nowG api) (\<lambda>now. modG (\<lambda>c. c\<lparr>lastNodeIPPoolAction := now\<rparr>))"

definition increaseIPPool :: "('e, 'r) IpamAPI \<Rightarrow> ('e ipam, unit) go" where
  "increaseIPPool api =
     bindG (getG ipTargetState) (\<lambda>(short, _, warmIPTargetDefined).
     if warmIPTargetDefined \<and> short = 0 then retG ()
     else
       bindG (tryAssignIPs api) (\<lambda>(increasedPool, _).
       if increasedPool then updateLastNodeIPPoolAction api
       else
         bindG (getG (\<lambda>c. GetENIs (dataStore c) < maxENI c)) (\<lambda>below.
         if below then
           bindG (tryAllocateENI api) (\<lambda>_. updateLastNodeIPPoolAction api)
         else retG ())))"

definition updateIPPoolIfRequired :: "('e, 'r) IpamAPI \<Rightarrow> ('e ipam, unit) go" where
  "updateIPPoolIfRequired api =
     bindG (getG (\<lambda>c. (nodeIPPoolTooLow c, nodeIPPoolTooHigh c))) (\<lambda>(low, high).
     bindG (if low then increaseIPPool api
            else if high then decreaseIPPool api decreaseIPPoolInterval
            else retG ()) (\<lambda>_.
     bindG (getG shouldRemoveExtraENIs) (\<lambda>extra.
     if extra then tryFreeENI api else retG ())))"

section \<open>Reconciling with EC2\<close>

text \<open>
  The mark phase over the addresses of one attached ENI; \<open>ipPool\<close> is a copy of the store's pool
  and loses the addresses that EC2 still shows.
\<close>

fun reconcile_mark ::
  "('e, 'r) IpamAPI \<Rightarrow> string \<Rightarrow> string list \<Rightarrow> (string, AddressInfo) gomap
     \<Rightarrow> ('e ipam, (string, AddressInfo) gomap) go" where
  "reconcile_mark api eni [] ipPool = retG ipPool"
| "reconcile_mark api eni (localIP # ips) ipPool =
     bindG (getG (\<lambda>c. case map_of (primaryIP c) eni of None \<Rightarrow> '''' | Some p \<Rightarrow> p)) (\<lambda>primary.
     if localIP = primary then reconcile_mark api eni ips ipPool
     else
       bindG (nowG api) (\<lambda>now.
       bindG (getG (\<lambda>c. RecentlyFreed now localIP (reconcileCooldownCache c))) (\<lambda>(found, recentlyFreed).
       bindG (if found then
                if recentlyFreed then retG False
                else
                  bindG (tryG (getENIaddresses api eni)) (\<lambda>r.
                  case r of
                    Inl _ \<Rightarrow> retG False
                  | Inr (ec2Addresses, _) \<Rightarrow>
                      if list_ex (\<lambda>a. localIP = StringValue (PrivateIpAddress a)) ec2Addresses then
                        bindG (modG (\<lambda>c. c\<lparr>reconcileCooldownCache :=
                                      cooldownRemove localIP (reconcileCooldownCache c)\<rparr>)) (\<lambda>_.
                        retG True)
                      else retG False)
              else retG True) (\<lambda>proceed.
       if \<not> proceed then reconcile_mark api eni ips ipPool
       else
         bindG (tryG (dsG (AddIPv4AddressFromStore eni localIP))) (\<lambda>r.
         case r of
           Inl err \<Rightarrow>
             if Error err = DuplicateIPError
             then reconcile_mark api eni ips (AList.delete localIP ipPool)
             else reconcile_mark api eni ips ipPool
         | Inr _ \<Rightarrow> reconcile_mark api eni ips ipPool)))))"

definition eniIPPoolReconcile ::
  "('e, 'r) IpamAPI \<Rightarrow> (string, AddressInfo) gomap \<Rightarrow> ENIMetadata \<Rightarrow> string \<Rightarrow> ('e ipam, unit) go" where
  "eniIPPoolReconcile api ipPool attachedENI eni =
     bindG (reconcile_mark api eni (LocalIPv4s attachedENI) ipPool) (\<lambda>remaining.
     forG (mkeys remaining) (\<lambda>existingIP. ignoreG (dsG (DelIPv4AddressFromStore eni existingIP))))"

text \<open>The mark phase over the attached ENIs; \<open>curENIs\<close> loses the ones that are in the store.\<close>

fun reconcile_enis ::
  "('e, 'r) IpamAPI \<Rightarrow> ENIMetadata list \<Rightarrow> (string, ENIIPPool) gomap
     \<Rightarrow> ('e ipam, (string, ENIIPPool) gomap) go" where
  "reconcile_enis api [] curENIs = retG curENIs"
| "reconcile_enis api (attachedENI # enis) curENIs =
     bindG (getG (\<lambda>c. GetENIIPPools (ENIID attachedENI) (dataStore c))) (\<lambda>r.
     case r of
       Val eniIPPool \<Rightarrow>
         bindG (eniIPPoolReconcile api eniIPPool attachedENI (ENIID attachedENI)) (\<lambda>_.
         reconcile_enis api enis (AList.delete (ENIID attachedENI) curENIs))
     | _ \<Rightarrow>
         bindG (ignoreG (setupENI api (ENIID attachedENI) attachedENI)) (\<lambda>_.
         reconcile_enis api enis curENIs))"

definition nodeIPPoolReconcile :: "('e, 'r) IpamAPI \<Rightarrow> duration \<Rightarrow> ('e ipam, unit) go" where
  "nodeIPPoolReconcile api interval =
     bindG (nowG api) (\<lambda>curTime.
     bindG (getG lastNodeIPPoolAction) (\<lambda>last.
     if Sub curTime last \<le> interval then retG ()
     else
       bindG (tryG (envG (a_GetAttachedENIs api))) (\<lambda>r.
       case r of
         Inl _ \<Rightarrow> retG ()
       | Inr attachedENIs \<Rightarrow>
           bindG (getG (\<lambda>c. ENIIPPools (GetENIInfos (dataStore c)))) (\<lambda>curENIs.
           bindG (reconcile_enis api attachedENIs curENIs) (\<lambda>remaining.
           bindG (forG (mkeys remaining) (\<lambda>eni. ignoreG (dsG (RemoveENIFromDataStore eni)))) (\<lambda>_.
           modG (\<lambda>c. c\<lparr>lastNodeIPPoolAction := curTime\<rparr>)))))))"

text \<open>The pool manager loops for ever; this is its first \<open>n\<close> rounds.\<close>

fun StartNodeIPPoolManager :: "nat \<Rightarrow> ('e, 'r) IpamAPI \<Rightarrow> ('e ipam, unit) go" where
  "StartNodeIPPoolManager 0 api = retG ()"
| "StartNodeIPPoolManager (Suc n) api =
     (let sleepDuration = ipPoolMonitorInterval div 2 in
      bindG (sleepG api sleepDuration) (\<lambda>_.
      bindG (updateIPPoolIfRequired api) (\<lambda>_.
      bindG (sleepG api sleepDuration) (\<lambda>_.
      bindG (nodeIPPoolReconcile api nodeIPPoolReconcileInterval) (\<lambda>_.
      StartNodeIPPoolManager n api)))))"

section \<open>Start\<close>

text \<open>
  The retry loop around \<^verbatim>\<open>setupENI\<close>: \<open>left\<close> counts the retries that remain; the attempt after
  the last retry is made, and its error dropped.
\<close>

fun setup_retry :: "nat \<Rightarrow> ('e, 'r) IpamAPI \<Rightarrow> ENIMetadata \<Rightarrow> ('e ipam, unit) go" where
  "setup_retry left api eni =
     bindG (tryG (setupENI api (ENIID eni) eni)) (\<lambda>r.
     case left of
       0 \<Rightarrow> retG ()
     | Suc n \<Rightarrow>
         (case r of
            Inl err \<Rightarrow>
              if Contains (Error err) ''setupENINetwork: failed to find the link which uses MAC address''
              then retG ()
              else bindG (sleepG api eniAttachTime) (\<lambda>_. setup_retry n api eni)
          | Inr _ \<Rightarrow> retG ()))"

declare setup_retry.simps [simp del]

text \<open>The loop of \<^verbatim>\<open>getLocalPodsWithRetry\<close>; the last answer counts.\<close>

fun local_pods_loop :: "nat \<Rightarrow> ('e, 'r) IpamAPI \<Rightarrow> goerr + K8SPodInfo list \<Rightarrow>
    ('e ipam, goerr + K8SPodInfo list) go" where
  "local_pods_loop 0 api prev = retG prev"
| "local_pods_loop (Suc left) api prev =
     bindG (tryG (envG (k_K8SGetLocalPodIPs api))) (\<lambda>r.
     case r of
       Inr pods \<Rightarrow>
         if list_all (\<lambda>pod. IP pod \<noteq> '''') pods then retG (Inr pods)
         else bindG (sleepG api retryK8SInterval) (\<lambda>_. local_pods_loop left api r)
     | Inl _ \<Rightarrow> bindG (sleepG api retryK8SInterval) (\<lambda>_. local_pods_loop left api r))"

definition getLocalPodsWithRetry :: "('e, 'r) IpamAPI \<Rightarrow> ('e ipam, K8SPodInfo list) go" where
  "getLocalPodsWithRetry api =
     bindG (local_pods_loop maxK8SRetries api (Inr [])) (\<lambda>r.
     case r of
       Inl err \<Rightarrow> errG (WrapErr ''no pods because apiserver not running.'' err)
     | Inr pods \<Rightarrow> retG pods)"

text \<open>A pod found running: the store assigns it its address, and its rules are rewritten.\<close>

definition recoverPod :: "('e, 'r) IpamAPI \<Rightarrow> 'r list \<Rightarrow> K8SPodInfo \<Rightarrow> ('e ipam, unit) go" where
  "recoverPod api rules ip =
     (if Container ip = '''' then retG ()
      else if IP ip = '''' then retG ()
      else
        bindG (nowG api) (\<lambda>now.
        bindG (ignoreG (dsG (AssignPodIPv4Address now ip))) (\<lambda>_.
        bindG (getG (\<lambda>c. (a_GetVPCIPv4CIDRs api (ienv c), \<not> n_UseExternalSNAT api (ienv c))))
          (\<lambda>(pbVPCcidrs, snat).
        ignoreG (envG (n_UpdateRuleListBySrc api rules (ParseIP (IP ip)) pbVPCcidrs snat))))))"

text \<open>
  A failed read of a limit returns at once; the daemon then stops, so the zero that it assigns is
  not observable.
\<close>

definition nodeInit :: "('e, 'r) IpamAPI \<Rightarrow> ('e ipam, unit) go" where
  "nodeInit api =
     bindG (getG (\<lambda>c. getMaxENI api (ienv c))) (\<lambda>m. bindG (resG m) (\<lambda>maxE.
     bindG (modG (\<lambda>c. c\<lparr>maxENI := maxE\<rparr>)) (\<lambda>_.
     bindG (getG (\<lambda>c. a_GetENIipLimit api (ienv c))) (\<lambda>l. bindG (resG l) (\<lambda>lim.
     bindG (modG (\<lambda>c. c\<lparr>maxIPsPerENI := lim,
                        useCustomNetworking := UseCustomNetworkCfg api (ienv c),
                        primaryIP := [], reconcileCooldownCache := []\<rparr>)) (\<lambda>_.
     bindG (tryG (envG (a_GetAttachedENIs api))) (\<lambda>r.
     case r of
       Inl _ \<Rightarrow> errG (NewErr ''ipamd init: failed to retrieve attached ENIs info'')
     | Inr enis \<Rightarrow>
         bindG (getG (\<lambda>c. ParseCIDR (a_GetVPCIPv4CIDR api (ienv c)))) (\<lambda>pc.
         bindG (wrapG ''ipamd init: failed to retrieve VPC CIDR'' (resG pc)) (\<lambda>(_, vpcCIDR).
         bindG (getG ienv) (\<lambda>e.
         bindG (wrapG ''ipamd init: failed to set up host network''
                  (envG (n_SetupHostNetwork api vpcCIDR (a_GetVPCIPv4CIDRs api e)
                           (a_GetPrimaryENImac api e) (ParseIP (a_GetLocalIPv4 api e))))) (\<lambda>_.
         bindG (modG (\<lambda>c. c\<lparr>dataStore := NewDataStore\<rparr>)) (\<lambda>_.
         bindG (forG enis (setup_retry maxRetryCheckENI api)) (\<lambda>_.
         bindG (wrapG ''failed to get running pods!'' (getLocalPodsWithRetry api)) (\<lambda>usedIPs.
         bindG (tryG (envG (n_GetRuleList api))) (\<lambda>rl.
         case rl of
           Inl _ \<Rightarrow> retG ()
         | Inr rules \<Rightarrow> forG usedIPs (recoverPod api rules))))))))))))))))"

text \<open>The empty context; its store is nil until \<^verbatim>\<open>nodeInit\<close> makes one.\<close>

definition emptyContext :: "'e \<Rightarrow> 'e ipam" where
  "emptyContext e =
     \<lparr>dataStore = NewDataStore, useCustomNetworking = False, maxIPsPerENI = 0, maxENI = 0,
      warmENITarget = 0, warmIPTarget = 0, primaryIP = [], lastNodeIPPoolAction = 0, lastDecreaseIPPool = 0,
      reconcileCooldownCache = [], ienv = e\<rparr>"

definition ipamdNew :: "('e, 'r) IpamAPI \<Rightarrow> 'e \<Rightarrow> unit res \<times> 'e ipam" where
  "ipamdNew api e =
     bindG (wrapG ''ipamd: can not initialize with AWS SDK interface'' (envG (a_New api))) (\<lambda>_.
     bindG (modG (\<lambda>c. c\<lparr>warmENITarget := getWarmENITarget api (ienv c), warmIPTarget := getWarmIPTarget api (ienv c)\<rparr>)) (\<lambda>_.
     nodeInit api)) (emptyContext e)"

end
