(* ===== verification/IpamdProps.thy ===== *)
theory IpamdProps
  imports Ipamd DataStoreThms
begin

text \<open>
  Properties of the daemon: its targets, that it keeps the store's invariant, what it gives back
  and never gives back, the cool-down of freed addresses, the limit on ENIs, and its retry loops.
\<close>

section \<open>Computations that keep a property of the store\<close>

abbreviation on_store :: "(DataStore \<Rightarrow> bool) \<Rightarrow> 'e ipam \<Rightarrow> bool" where
  "on_store P \<equiv> \<lambda>c. P (dataStore c)"

lemma keeps_envG [keeps_intros]: "keeps (on_store P) (envG m)"
  by (auto simp: keeps_def envG_def zoomG_def split: prod.split)

lemma keeps_dsG: "(\<And>d. P d \<Longrightarrow> P (snd (m d))) \<Longrightarrow> keeps (on_store P) (dsG m)"
  by (auto simp: keeps_def dsG_def zoomG_def split: prod.split) (metis snd_conv)

lemma keeps_nowG [keeps_intros]: "keeps I (nowG api)"
  by (simp add: nowG_def keeps_getG)

lemma keeps_sleepG [keeps_intros]: "keeps (on_store P) (sleepG api d)"
  by (simp add: sleepG_def keeps_def modG_def)

lemma keeps_case_res [keeps_intros]:
  "(\<And>v. keeps I (f v)) \<Longrightarrow> (\<And>e. keeps I (g e)) \<Longrightarrow> (\<And>p. keeps I (h p)) \<Longrightarrow>
     keeps I (case x of Val v \<Rightarrow> f v | Err e \<Rightarrow> g e | Panic p \<Rightarrow> h p)"
  by (cases x) auto

lemma keeps_case_nat:
  "(n = 0 \<Longrightarrow> keeps I m) \<Longrightarrow> (\<And>k. n = Suc k \<Longrightarrow> keeps I (f k)) \<Longrightarrow>
     keeps I (case n of 0 \<Rightarrow> m | Suc k \<Rightarrow> f k)"
  by (cases n) auto

text \<open>
  The daemon changes the store only through the store's operations: what every operation keeps,
  the daemon keeps.
\<close>

definition op_closed :: "(DataStore \<Rightarrow> bool) \<Rightarrow> bool" where
  "op_closed P \<longleftrightarrow> (\<forall>now x d. P d \<longrightarrow> P (ds_exec now x d))"

lemma op_closedD:
  assumes "op_closed P" "P d"
  shows "P (snd (AddENI now e n b d))" "P (snd (AddIPv4AddressFromStore e ip d))"
    "P (snd (DelIPv4AddressFromStore e ip d))" "P (snd (AssignPodIPv4Address now pod d))"
    "P (snd (RemoveUnusedENIFromStore now w d))" "P (snd (RemoveENIFromDataStore e d))"
  using assms unfolding op_closed_def
  by (metis ds_exec.simps(1), metis ds_exec.simps(2), metis ds_exec.simps(3), metis ds_exec.simps(4),
      metis ds_exec.simps(6), metis ds_exec.simps(7))

lemma op_closed_reach: "op_closed ds_reach"
  by (simp add: op_closed_def ds_reach.exec)

locale del_client =
  fixes P :: "DataStore \<Rightarrow> bool"
  assumes keeps_del: "P d \<Longrightarrow> P (snd (DelIPv4AddressFromStore e ip d))"
begin

lemma keep_delete_ips: "keeps (on_store P) (delete_ips eni ips)"
  by (induction ips) (auto intro!: keeps_intros keeps_dsG keeps_del)

lemma keep_unassign_loop: "keeps (on_store P) (unassign_loop api enis)"
  by (induction enis) (auto intro!: keeps_intros keep_delete_ips)

lemma keep_tryUnassignIPsFromAll: "keeps (on_store P) (tryUnassignIPsFromAll api)"
  unfolding tryUnassignIPsFromAll_def by (auto intro!: keeps_intros keep_unassign_loop)

end

locale add_client =
  fixes P :: "DataStore \<Rightarrow> bool"
  assumes keeps_add_eni: "P d \<Longrightarrow> P (snd (AddENI now e n b d))"
    and keeps_add_ip: "P d \<Longrightarrow> P (snd (AddIPv4AddressFromStore e ip d))"
begin

lemma keeps_add_ops:
  "keeps (on_store P) (dsG (AddENI now e n b))"
  "keeps (on_store P) (dsG (AddIPv4AddressFromStore e ip))"
  by (simp_all add: keeps_dsG keeps_add_eni keeps_add_ip)

lemmas keeps_adds = keeps_intros keeps_add_ops

lemma keep_getENIaddresses: "keeps (on_store P) (getENIaddresses api eni)"
  unfolding getENIaddresses_def by (auto intro!: keeps_adds)

lemma keep_addENIaddresses: "keeps (on_store P) (addENIaddressesToDataStore addrs eni p)"
  by (induction addrs eni p rule: addENIaddressesToDataStore.induct) (auto intro!: keeps_adds)

lemma keep_setupENI: "keeps (on_store P) (setupENI api eni m)"
  unfolding setupENI_def by (auto intro!: keeps_adds keep_getENIaddresses keep_addENIaddresses)

lemma keep_setup_retry: "keeps (on_store P) (setup_retry n api eni)"
  by (induction n) (subst setup_retry.simps; auto intro!: keeps_adds keep_setupENI split: nat.split)+

lemma keep_local_pods: "keeps (on_store P) (getLocalPodsWithRetry api)"
proof -
  have "keeps (on_store P) (local_pods_loop n api r)" for n r
    by (induction n arbitrary: r) (auto intro!: keeps_adds)
  then show ?thesis unfolding getLocalPodsWithRetry_def by (auto intro!: keeps_adds)
qed

end

locale store_client = del_client + add_client +
  assumes closed: "op_closed P"
begin

lemmas keeps_op = op_closedD[OF closed]

lemma keeps_ops:
  "keeps (on_store P) (dsG (AddENI now e n b))"
  "keeps (on_store P) (dsG (AddIPv4AddressFromStore e ip))"
  "keeps (on_store P) (dsG (DelIPv4AddressFromStore e ip))"
  "keeps (on_store P) (dsG (AssignPodIPv4Address now pod))"
  "keeps (on_store P) (dsG (RemoveUnusedENIFromStore now w))"
  "keeps (on_store P) (dsG (RemoveENIFromDataStore e))"
  by (simp_all add: keeps_dsG keeps_op)

lemmas keeps_all = keeps_intros keeps_ops

lemma keep_decreaseIPPool: "keeps (on_store P) (decreaseIPPool api d)"
  unfolding decreaseIPPool_def by (auto intro!: keeps_all keep_tryUnassignIPsFromAll)

lemma keep_tryFreeENI: "keeps (on_store P) (tryFreeENI api)"
  unfolding tryFreeENI_def by (auto intro!: keeps_all)

lemma keep_waitENIAttached: "keeps (on_store P) (waitENIAttached n api eni)"
  by (induction n) (subst waitENIAttached.simps; auto intro!: keeps_all split: nat.split)+

lemma keep_tryAssignIPs: "keeps (on_store P) (tryAssignIPs api)"
  unfolding tryAssignIPs_def by (auto intro!: keeps_all keep_getENIaddresses keep_addENIaddresses)

lemma keep_tryAllocateENI: "keeps (on_store P) (tryAllocateENI api)"
  unfolding tryAllocateENI_def by (auto intro!: keeps_all keep_setupENI keep_waitENIAttached)

lemma keep_increaseIPPool: "keeps (on_store P) (increaseIPPool api)"
  unfolding increaseIPPool_def updateLastNodeIPPoolAction_def
  by (auto intro!: keeps_all keep_tryAssignIPs keep_tryAllocateENI)

lemma keep_updateIPPoolIfRequired: "keeps (on_store P) (updateIPPoolIfRequired api)"
  unfolding updateIPPoolIfRequired_def
  by (auto intro!: keeps_all keep_increaseIPPool keep_decreaseIPPool keep_tryFreeENI)

lemma keep_reconcile_mark: "keeps (on_store P) (reconcile_mark api eni ips pool)"
  by (induction ips arbitrary: pool) (auto intro!: keeps_all keep_getENIaddresses)

lemma keep_eniIPPoolReconcile: "keeps (on_store P) (eniIPPoolReconcile api pool m eni)"
  unfolding eniIPPoolReconcile_def by (auto intro!: keeps_all keep_reconcile_mark)

lemma keep_reconcile_enis: "keeps (on_store P) (reconcile_enis api enis cur)"
  by (induction enis arbitrary: cur) (auto intro!: keeps_all keep_eniIPPoolReconcile keep_setupENI)

lemma keep_nodeIPPoolReconcile: "keeps (on_store P) (nodeIPPoolReconcile api d)"
  unfolding nodeIPPoolReconcile_def by (auto intro!: keeps_all keep_reconcile_enis)

lemma keep_manager: "keeps (on_store P) (StartNodeIPPoolManager n api)"
  by (induction n)
     (auto simp: Let_def intro!: keeps_all keep_updateIPPoolIfRequired keep_nodeIPPoolReconcile)

lemma keep_recoverPod: "keeps (on_store P) (recoverPod api rules ip)"
  unfolding recoverPod_def by (auto intro!: keeps_all)

lemma keep_nodeInit:
  assumes "P NewDataStore"
  shows "keeps (on_store P) (nodeInit api)"
  unfolding nodeInit_def using assms
  by (auto intro!: keeps_all keep_setup_retry keep_local_pods keep_recoverPod)

lemma keep_New:
  assumes "P NewDataStore"
  shows "P (dataStore (snd (ipamdNew api e)))"
  unfolding ipamdNew_def using keep_nodeInit[OF assms] assms
  by (intro keepsD[where I = "on_store P"] keeps_intros) (simp_all add: emptyContext_def)

end

interpretation reach: store_client ds_reach
  by unfold_locales (simp_all add: op_closed_reach op_closedD)


section \<open>Targets\<close>

text \<open>
  With a warm-IP target the daemon knows how many addresses it is short of or over the
  target: one of the two is zero, and adding the first to the free addresses and
  taking away the second gives the target.  The pool is never both too low and too high, and
  without a target it is never too high.
\<close>

theorem warm_target_state:
  assumes "ipTargetState c = (short, over, enabled)"
  shows "(enabled \<longleftrightarrow> warmIPTarget c \<noteq> 0) \<and> 0 \<le> short \<and> 0 \<le> over \<and> (short = 0 \<or> over = 0) \<and>
         (enabled \<longrightarrow> (total (dataStore c) - assigned (dataStore c)) + short - over = warmIPTarget c) \<and>
         \<not> (nodeIPPoolTooLow c \<and> nodeIPPoolTooHigh c) \<and>
         (nodeIPPoolTooHigh c \<longleftrightarrow> enabled \<and> over > 0)"
  using assms
  by (auto simp: ipTargetState_def nodeIPPoolTooLow_def nodeIPPoolTooHigh_def GetStats_def Let_def
      noWarmIPTarget_def split: if_splits)

lemma ipTargetState_over:
  "fst (snd (ipTargetState c)) \<le> max 0 (total (dataStore c) - assigned (dataStore c) - warmIPTarget c)"
  by (auto simp: ipTargetState_def GetStats_def Let_def)

text \<open>
  C23: without a warm-IP target, and with a warm-ENI target of at least one, removing an
  extra ENI does not make the pool too low: the daemon does not free an ENI only to ask
  for one again.
\<close>

theorem removing_extra_eni_does_not_thrash:
  assumes "ds_reach (dataStore c)" "warmIPTarget c = 0" "1 \<le> warmENITarget c" "0 \<le> maxIPsPerENI c"
    and "(warmENITarget c + 1) * maxIPsPerENI c < 2 ^ 63" "warmENITarget c + 1 < 2 ^ 63"
    and "\<forall>k p. map_of (eniIPPools (dataStore c)) k = Some p \<longrightarrow>
           int (length (IPv4Addresses p)) \<le> maxIPsPerENI c"
    and "shouldRemoveExtraENIs c"
    and "RemoveUnusedENIFromStore now (warmIPTarget c) (dataStore c) = (Val eni, ds')"
  shows "\<not> nodeIPPoolTooLow (c\<lparr>dataStore := ds'\<rparr>)"
proof -
  let ?m = "maxIPsPerENI c" and ?w = "warmENITarget c" and ?ds = "dataStore c"
  have nn: "0 \<le> ?w * ?m" using assms(3,4) by simp
  have wm: "(?w + 1) * ?m = ?w * ?m + ?m" by (simp add: distrib_right)
  have "wrap64 (?w + 1) = ?w + 1" using assms(3,6) by (intro wrap64_nonneg) auto
  moreover have "wrap64 ((?w + 1) * ?m) = (?w + 1) * ?m"
    using assms(3,4,5) by (intro wrap64_nonneg) auto
  ultimately have w1: "wrap64 (wrap64 (?w + 1) * ?m) = (?w + 1) * ?m" by simp
  have w2: "wrap64 (?m * ?w) = ?w * ?m"
    unfolding mult.commute[of ?m] using assms(4,5) nn wm by (intro wrap64_nonneg) auto
  have av: "(?w + 1) * ?m \<le> total ?ds - assigned ?ds"
    using assms(2,8) w1 by (simp add: shouldRemoveExtraENIs_def ipTargetState_def noWarmIPTarget_def GetStats_def)
  have "total ds' - assigned ds' \<ge> ?w * ?m"
  proof (cases "getDeletableENI now (warmIPTarget c) ?ds")
    case None
    then have "ds' = ?ds" using assms(9) by (simp add: RemoveUnusedENIFromStore_def)
    with av wm assms(4) show ?thesis by simp
  next
    case (Some p)
    note d = getDeletableENI_Some[OF ds_reach_inv[OF assms(1)] Some]
    then have "total ds' = total ?ds - int (length (IPv4Addresses p))" "assigned ds' = assigned ?ds"
      using assms(9) Some by (auto simp: RemoveUnusedENIFromStore_def Let_def)
    with av wm assms(7)[rule_format, OF d(1)] show ?thesis by simp
  qed
  then show ?thesis using assms(2,3) w2
    by (simp add: nodeIPPoolTooLow_def ipTargetState_def noWarmIPTarget_def GetStats_def)
qed

text \<open>A daemon on a store for the witnesses.\<close>

definition ctx :: "DataStore \<Rightarrow> int \<Rightarrow> int \<Rightarrow> int \<Rightarrow> time ipam" where
  "ctx ds warmIP warmENI maxIPs =
     \<lparr>dataStore = ds, useCustomNetworking = False, maxIPsPerENI = maxIPs, maxENI = 4,
      warmENITarget = warmENI, warmIPTarget = warmIP, primaryIP = [], lastNodeIPPoolAction = 0,
      lastDecreaseIPPool = 0, reconcileCooldownCache = [], ienv = 0\<rparr>"

text \<open>An ENI with two free addresses, beside a primary one with two free addresses.\<close>

definition store1 :: DataStore where
  "store1 = ds_run [(6, OpAddIP ''eni-2'' ''10.0.1.2'')] store0"

lemma store1_reach: "ds_reach store1"
  unfolding store1_def by (intro ds_reach_run store0_reach)

theorem removing_extra_eni_does_not_thrash_witness:
  "let r = RemoveUnusedENIFromStore (200 * second) 0 store1 in
   fst r = Val ''eni-2'' \<and> \<not> nodeIPPoolTooLow (ctx (snd r) 0 1 2)"
proof -
  let ?r = "RemoveUnusedENIFromStore (200 * second) 0 store1" and ?c = "ctx store1 0 1 2"
  have r: "fst ?r = Val ''eni-2''" by code_simp
  have "list_all (\<lambda>(k, p). int (length (IPv4Addresses p)) \<le> 2) (eniIPPools store1)" by code_simp
  then have "\<forall>k p. map_of (eniIPPools store1) k = Some p \<longrightarrow> int (length (IPv4Addresses p)) \<le> 2"
    by (auto simp: list_all_iff dest: map_of_SomeD)
  moreover have "shouldRemoveExtraENIs ?c" by code_simp
  ultimately have "\<not> nodeIPPoolTooLow (?c\<lparr>dataStore := snd ?r\<rparr>)"
    using r by (intro removing_extra_eni_does_not_thrash[where eni = "''eni-2''" and now = "200 * second"])
      (simp_all add: ctx_def store1_reach prod_eq_iff)
  with r show ?thesis by (simp add: ctx_def Let_def)
qed

text \<open>
  With a warm-ENI target of zero the two thresholds overlap.  A node whose free addresses
  are exactly those of one unused ENI frees the ENI, and is then too low, so that it asks for
  an ENI again.
\<close>

theorem warm_eni_zero_thrashes:
  "let ds = ds_run [(7, OpAssign (pod_a\<lparr>IP := ''10.0.0.1''\<rparr>)), (8, OpAssign (pod_b\<lparr>IP := ''10.0.0.2''\<rparr>))] store1;
       c = ctx ds 0 0 2; r = RemoveUnusedENIFromStore (200 * second) (warmIPTarget c) ds
   in \<not> nodeIPPoolTooLow c \<and> shouldRemoveExtraENIs c \<and> fst r = Val ''eni-2'' \<and>
      nodeIPPoolTooLow (c\<lparr>dataStore := snd r\<rparr>)"
  by code_simp

section \<open>Giving back addresses\<close>

lemma DelIP_effect:
  assumes "DelIPv4AddressFromStore e ip ds = (r, ds')"
  shows "assigned ds' = assigned ds \<and> podsIP ds' = podsIP ds \<and>
         total ds' = total ds - (if r = Val () then 1 else 0) \<and> (\<forall>p. r \<noteq> Panic p)"
  using assms by (auto simp: DelIPv4AddressFromStore_def Let_def split: option.splits if_splits)

lemma dsG_run: "dsG m c = (fst (m (dataStore c)), c\<lparr>dataStore := snd (m (dataStore c))\<rparr>)"
  by (simp add: dsG_def zoomG_def split: prod.split)

lemma delete_ips_run:
  "\<exists>del ds'. delete_ips eni ips c = (Val del, c\<lparr>dataStore := ds'\<rparr>) \<and> set del \<subseteq> set ips \<and>
     length del \<le> length ips \<and> assigned ds' = assigned (dataStore c) \<and>
     podsIP ds' = podsIP (dataStore c) \<and> total ds' = total (dataStore c) - int (length del)"
proof (induction ips arbitrary: c)
  case Nil
  then show ?case by (intro exI[of _ "[]"] exI[of _ "dataStore c"]) (simp add: retG_def)
next
  case (Cons ip ips)
  obtain r ds1 where r: "DelIPv4AddressFromStore eni ip (dataStore c) = (r, ds1)"
    by (cases "DelIPv4AddressFromStore eni ip (dataStore c)")
  note ef = DelIP_effect[OF r]
  from Cons.IH[of "c\<lparr>dataStore := ds1\<rparr>"] obtain del ds' where
    d: "delete_ips eni ips (c\<lparr>dataStore := ds1\<rparr>) = (Val del, c\<lparr>dataStore := ds'\<rparr>)"
      "set del \<subseteq> set ips" "length del \<le> length ips" "assigned ds' = assigned ds1"
      "podsIP ds' = podsIP ds1" "total ds' = total ds1 - int (length del)" by auto
  show ?case
  proof (cases r)
    case (Val u)
    then show ?thesis using d ef r
      by (intro exI[of _ "ip # del"] exI[of _ ds']) (auto simp: bindG_def tryG_def dsG_run retG_def)
  next
    case (Err x)
    then show ?thesis using d ef r
      by (intro exI[of _ del] exI[of _ ds']) (auto simp: bindG_def tryG_def dsG_run retG_def)
  next
    case (Panic p)
    then show ?thesis using ef by blast
  qed
qed

lemma findFreeableIPs_Val:
  assumes "findFreeableIPs eni c = Val ips"
  shows "distinct ips \<and> int (length ips) \<le> fst (snd (ipTargetState c))"
  using assms
  by (auto simp: findFreeableIPs_def Let_def ipTargetState_def split: option.splits if_splits prod.splits)

abbreviation freeIPs :: "'e ipam \<Rightarrow> int" where
  "freeIPs c \<equiv> total (dataStore c) - assigned (dataStore c)"

lemma unassign_loop_free:
  assumes "warmIPTarget c \<le> freeIPs c"
  shows "warmIPTarget c \<le> freeIPs (snd (unassign_loop api enis c)) \<and>
         podsIP (dataStore (snd (unassign_loop api enis c))) = podsIP (dataStore c) \<and>
         assigned (dataStore (snd (unassign_loop api enis c))) = assigned (dataStore c)"
  using assms
proof (induction enis arbitrary: c)
  case Nil
  then show ?case by (simp add: retG_def)
next
  case (Cons eni enis)
  show ?case
  proof (cases "findFreeableIPs eni c")
    case (Val ips)
    show ?thesis
    proof (cases "ips = []")
      case True
      then show ?thesis using Cons.IH[OF Cons.prems] Val by (simp add: go_simps)
    next
      case False
      from delete_ips_run[of eni ips c] obtain del ds' where
        d: "delete_ips eni ips c = (Val del, c\<lparr>dataStore := ds'\<rparr>)" "length del \<le> length ips"
          "assigned ds' = assigned (dataStore c)" "podsIP ds' = podsIP (dataStore c)"
          "total ds' = total (dataStore c) - int (length del)" by blast
      have free: "warmIPTarget c \<le> total ds' - assigned ds'"
        using findFreeableIPs_Val[OF Val] ipTargetState_over[of c] d(2,3,5) Cons.prems by linarith
      obtain r e' where e: "a_DeallocIPAddresses api eni del (ienv c) = (r, e')"
        by (cases "a_DeallocIPAddresses api eni del (ienv c)")
      let ?c = "c\<lparr>dataStore := ds', ienv := e', reconcileCooldownCache :=
        cooldownAdd (t_Now api e') del (reconcileCooldownCache c)\<rparr>"
      have "snd (unassign_loop api (eni # enis) c) =
          (case r of Panic p \<Rightarrow> c\<lparr>dataStore := ds', ienv := e'\<rparr> | _ \<Rightarrow> snd (unassign_loop api enis ?c))"
        using Val False d(1) e
        by (cases r) (simp_all add: go_simps bindG_def ignoreG_def tryG_def envG_def zoomG_def nowG_def retG_def
            getG_def modG_def)
      with Cons.IH[of ?c] free d show ?thesis by (cases r) simp_all
    qed
  qed (use Cons in \<open>simp_all add: go_simps retG_def panicG_def\<close>)
qed

text \<open>\<open>ip\<close> is in use on the ENI \<open>ek\<close>.\<close>

definition in_use :: "string \<Rightarrow> string \<Rightarrow> DataStore \<Rightarrow> bool" where
  "in_use ek ip ds \<longleftrightarrow> (\<exists>p a. map_of (eniIPPools ds) ek = Some p \<and>
     map_of (IPv4Addresses p) ip = Some a \<and> Assigned a)"

lemma in_use_DelIP: "in_use ek ip ds \<Longrightarrow> in_use ek ip (snd (DelIPv4AddressFromStore e ip' ds))"
  by (auto simp: in_use_def DelIPv4AddressFromStore_def Let_def gomap_simps split: option.splits)

interpretation used: del_client "in_use ek ip" for ek ip
  by unfold_locales (rule in_use_DelIP)


text \<open>
  A simulated environment for the witnesses: the clock, with two attached ENIs, each with a
  primary and two more addresses; \<open>net\<close> says whether the network of a secondary ENI can be set up.
\<close>

definition ec2_addrs :: "string \<Rightarrow> NetworkInterfacePrivateIpAddress list" where
  "ec2_addrs net = [\<lparr>Primary = Some True, PrivateIpAddress = Some (net @ ''.1'')\<rparr>,
     \<lparr>Primary = Some False, PrivateIpAddress = Some (net @ ''.2'')\<rparr>,
     \<lparr>Primary = Some False, PrivateIpAddress = Some (net @ ''.3'')\<rparr>]"

definition eni_meta :: "string \<Rightarrow> int \<Rightarrow> string \<Rightarrow> ENIMetadata" where
  "eni_meta eni dev net = \<lparr>ENIID = eni, MAC = ''0a'', em_DeviceNumber = dev, SubnetIPv4CIDR = net @ ''.0/24'',
     LocalIPv4s = [net @ ''.1'', net @ ''.2'', net @ ''.3'']\<rparr>"

definition sim_ipam :: "bool \<Rightarrow> (time, unit) IpamAPI" where
  "sim_ipam net = \<lparr>a_New = retG (), a_AllocENI = (\<lambda>_ _ _. retG ''eni-3''), a_FreeENI = (\<lambda>_. retG ()),
     a_GetAttachedENIs = retG [eni_meta ''eni-1'' 0 ''10.0.0'', eni_meta ''eni-2'' 2 ''10.0.1''],
     a_DescribeENI = (\<lambda>e. retG (ec2_addrs (if e = ''eni-1'' then ''10.0.0'' else ''10.0.1''), Some ''att'')),
     a_AllocIPAddresses = (\<lambda>_ _. retG ()), a_DeallocIPAddresses = (\<lambda>_ _. retG ()),
     a_GetVPCIPv4CIDR = (\<lambda>_. ''10.0.0.0/16''), a_GetVPCIPv4CIDRs = (\<lambda>_. [''10.0.0.0/16'']),
     a_GetLocalIPv4 = (\<lambda>_. ''10.0.0.1''), a_GetPrimaryENI = (\<lambda>_. ''eni-1''),
     a_GetENIipLimit = (\<lambda>_. Val 2), a_GetENILimit = (\<lambda>_. Val 3), a_GetPrimaryENImac = (\<lambda>_. ''0a''),
     k_K8SGetLocalPodIPs = retG [], c_MyENIConfig = errG (NewErr ''none''),
     n_SetupHostNetwork = (\<lambda>_ _ _ _. retG ()),
     n_SetupENINetwork = (\<lambda>_ _ _ _. if net then retG ()
        else errG (NewErr ''setupENINetwork: failed to find the link which uses MAC address 0a'')),
     n_UseExternalSNAT = (\<lambda>_. False), n_GetExcludeSNATCIDRs = (\<lambda>_. [''172.16.0.0/12'']), n_GetRuleList = retG [],
     n_UpdateRuleListBySrc = (\<lambda>_ _ _ _. retG ()), t_Now = (\<lambda>e. e), t_Sleep = (\<lambda>d e. e + d),
     LookupEnv = (\<lambda>v _. if v = envWarmIPTarget then Some ''1'' else None)\<rparr>"

definition sim_start :: "bool \<Rightarrow> time ipam" where
  "sim_start net = snd (ipamdNew (sim_ipam net) (1000 * second))"



theorem warm_target_state_witness:
  "ipTargetState (ctx store1 5 1 2) = (1, 0, True) \<and> freeIPs (ctx store1 5 1 2) + 1 - 0 = 5"
proof -
  have "ipTargetState (ctx store1 5 1 2) = (1, 0, True)" by code_simp
  from this warm_target_state[OF this] show ?thesis by (simp add: ctx_def)
qed

section \<open>Cool-down of freed addresses\<close>

text \<open>\<open>ip\<close> is on no list of the ENI \<open>ek\<close>.\<close>

definition not_on :: "string \<Rightarrow> string \<Rightarrow> DataStore \<Rightarrow> bool" where
  "not_on ek ip ds \<longleftrightarrow> (\<forall>p. map_of (eniIPPools ds) ek = Some p \<longrightarrow> map_of (IPv4Addresses p) ip = None)"

lemma not_on_AddIP: "not_on ek ip ds \<Longrightarrow> ip' \<noteq> ip \<Longrightarrow> not_on ek ip (snd (AddIPv4AddressFromStore e ip' ds))"
  by (auto simp: not_on_def AddIPv4AddressFromStore_def Let_def gomap_simps split: option.splits)

lemma not_on_DelIP: "not_on ek ip ds \<Longrightarrow> not_on ek ip (snd (DelIPv4AddressFromStore e ip' ds))"
  by (auto simp: not_on_def DelIPv4AddressFromStore_def Let_def gomap_simps split: option.splits)

text \<open>Reconciliation does not touch the entry of an address that still cools down.\<close>

definition cooling_down :: "string \<Rightarrow> string \<Rightarrow> time \<Rightarrow> 'e ipam \<Rightarrow> bool" where
  "cooling_down ek ip expiry c \<longleftrightarrow>
     map_of (reconcileCooldownCache c) ip = Some expiry \<and> not_on ek ip (dataStore c)"

lemma keeps_cooling_envG [keeps_intros]: "keeps (cooling_down ek ip t) (envG m)"
  by (auto simp: keeps_def envG_def zoomG_def cooling_down_def split: prod.split)

lemma keeps_cooling_dsG:
  "(\<And>d. not_on ek ip d \<Longrightarrow> not_on ek ip (snd (m d))) \<Longrightarrow> keeps (cooling_down ek ip t) (dsG m)"
  by (auto simp: keeps_def dsG_run cooling_down_def)

lemma keeps_cooling_getENIaddresses: "keeps (cooling_down ek ip t) (getENIaddresses api eni)"
  unfolding getENIaddresses_def by (auto intro!: keeps_intros)

lemma reconcile_mark_skip:
  assumes "localIP \<noteq> (case map_of (primaryIP c) eni of None \<Rightarrow> '''' | Some p \<Rightarrow> p)"
    and "RecentlyFreed (t_Now api (ienv c)) localIP (reconcileCooldownCache c) = (True, True)"
  shows "reconcile_mark api eni (localIP # ips) pool c = reconcile_mark api eni ips pool c"
  using assms by (simp add: go_simps nowG_def)

lemma keep_reconcile_mark_cooling:
  fixes api :: "('e, 'r) IpamAPI"
  assumes "\<And>e. t_Now api e < expiry"
  shows "keeps (cooling_down ek ip expiry) (reconcile_mark api eni ips pool)"
proof (induction ips arbitrary: pool)
  case Nil
  then show ?case by (auto intro!: keeps_intros)
next
  case (Cons localIP ips)
  show ?case
  proof (cases "localIP = ip")
    case False
    then show ?thesis
      by (auto intro!: keeps_intros keeps_cooling_getENIaddresses keeps_cooling_dsG Cons not_on_AddIP)
         (auto simp: cooling_down_def cooldownRemove_def gomap_simps)
  next
    case True
    show ?thesis
    proof (rule keepsI)
      fix c :: "'e ipam" assume c: "cooling_down ek ip expiry c"
      have "Sub (t_Now api (ienv c)) expiry < 0"
        using assms[of "ienv c"] by (simp add: Sub_def maxDuration_def minDuration_def)
      then have rf: "RecentlyFreed (t_Now api (ienv c)) localIP (reconcileCooldownCache c) = (True, True)"
        using c True by (simp add: RecentlyFreed_def cooling_down_def)
      have "reconcile_mark api eni (localIP # ips) pool c = reconcile_mark api eni ips pool c"
      proof (cases "localIP = (case map_of (primaryIP c) eni of None \<Rightarrow> '''' | Some p \<Rightarrow> p)")
        case True
        then show ?thesis by (simp add: go_simps)
      next
        case False
        then show ?thesis using rf by (rule reconcile_mark_skip)
      qed
      with keepsD[OF Cons c] show "cooling_down ek ip expiry (snd (reconcile_mark api eni (localIP # ips) pool c))"
        by simp
    qed
  qed
qed

text \<open>
  C22: an address that was given back to EC2 is not taken from stale metadata.  While its
  cool-down lasts, reconciling an ENI with whatever the metadata service reports does not put
  the address back into the ENI's pool, and the entry stays in the cache; and
  \<^verbatim>\<open>Add\<close> makes every address it is given cool down for 60 seconds.
\<close>

theorem freed_address_not_reconciled:
  assumes "map_of (reconcileCooldownCache c) ip = Some expiry" "not_on ek ip (dataStore c)"
    and "\<And>e. t_Now api e < expiry"
  shows "not_on ek ip (dataStore (snd (eniIPPoolReconcile api pool m eni c))) \<and>
         map_of (reconcileCooldownCache (snd (eniIPPoolReconcile api pool m eni c))) ip = Some expiry \<and>
         (ip' \<in> set ips \<longrightarrow> map_of (cooldownAdd now ips cache) ip' = Some (now + 60 * second))"
proof -
  have "cooling_down ek ip expiry c" using assms(1,2) by (simp add: cooling_down_def)
  moreover have "keeps (cooling_down ek ip expiry) (eniIPPoolReconcile api pool m eni)"
    unfolding eniIPPoolReconcile_def
    by (auto intro!: keeps_intros keep_reconcile_mark_cooling[OF assms(3)] keeps_cooling_dsG not_on_DelIP)
  ultimately have "cooling_down ek ip expiry (snd (eniIPPoolReconcile api pool m eni c))" by (rule keepsD[rotated])
  moreover have "map_of (cooldownAdd now ips cache) ip' = (if ip' \<in> set ips then Some (now + 60 * second) else map_of cache ip')"
    unfolding cooldownAdd_def ipReconcileCooldown_def
    by (induction ips arbitrary: cache) (auto simp: gomap_simps)
  ultimately show ?thesis by (simp add: cooling_down_def)
qed

theorem freed_address_not_reconciled_witness:
  "let c = ctx store1 0 1 2\<lparr>reconcileCooldownCache := [(''10.0.1.3'', 60 * second)]\<rparr>;
       api = sim_ipam True\<lparr>t_Now := \<lambda>_. 5\<rparr>
   in not_on ''eni-2'' ''10.0.1.3''
        (dataStore (snd (eniIPPoolReconcile api [] (eni_meta ''eni-2'' 2 ''10.0.1'') ''eni-2'' c)))"
proof -
  let ?c = "ctx store1 0 1 2\<lparr>reconcileCooldownCache := [(''10.0.1.3'', 60 * second)]\<rparr>"
  have "map_of (reconcileCooldownCache ?c) ''10.0.1.3'' = Some (60 * second)" by simp
  moreover have "not_on ''eni-2'' ''10.0.1.3'' (dataStore ?c)"
  proof -
    have "(case map_of (eniIPPools store1) ''eni-2'' of None \<Rightarrow> True
           | Some p \<Rightarrow> map_of (IPv4Addresses p) ''10.0.1.3'' = None)" by code_simp
    then show ?thesis by (auto simp: not_on_def ctx_def split: option.splits)
  qed
  ultimately show ?thesis
    unfolding Let_def
    by (rule freed_address_not_reconciled[THEN conjunct1]) (simp add: second_def)
qed

section \<open>Limits and retries\<close>

lemma Atoi_bound: "Atoi s = Val i \<Longrightarrow> i < 2 ^ 63"
  using parseInt_bounds[of s 10 64] by (auto simp: Atoi_def split: sum.splits)

text \<open>
  The number of ENIs the daemon may attach is the instance's limit or less: \<^verbatim>\<open>MAX_ENI\<close>
  when it is a number from 1 up to the limit, and the limit otherwise (also when the variable
  is absent, malformed, zero or negative).
\<close>

theorem max_eni_within_limit:
  assumes "a_GetENILimit api e = Val limit" "1 \<le> limit"
  shows "\<exists>n. getMaxENI api e = Val n \<and> 1 \<le> n \<and> n \<le> limit \<and>
           n = (case LookupEnv api ''MAX_ENI'' e of
                  Some s \<Rightarrow> (case Atoi s of Val k \<Rightarrow> if 1 \<le> k \<and> k < limit then k else limit | _ \<Rightarrow> limit)
                | None \<Rightarrow> limit)"
  using assms
  by (auto simp: getMaxENI_def Let_def envMaxENI_def defaultMaxENI_def split: option.splits res.splits)

theorem max_eni_within_limit_witness:
  "getMaxENI (sim_ipam True\<lparr>LookupEnv := \<lambda>_ _. Some ''2''\<rparr>) 0 = Val 2"
proof -
  let ?api = "sim_ipam True\<lparr>LookupEnv := \<lambda>_ _. Some ''2''\<rparr>"
  have "a_GetENILimit ?api 0 = Val 3" by (simp add: sim_ipam_def)
  moreover have "Atoi ''2'' = Val 2" by code_simp
  ultimately show ?thesis using max_eni_within_limit[of ?api 0 3] by simp
qed

lemma GetENIs_addENIaddresses:
  "keeps (\<lambda>c. GetENIs (dataStore c) = n \<and> maxENI c = k) (addENIaddressesToDataStore addrs eni p)"
proof -
  have "GetENIs (snd (AddIPv4AddressFromStore e ip d)) = GetENIs d" for e ip d
    by (simp add: AddIPv4AddressFromStore_def GetENIs_def Let_def split: option.split)
  then have "keeps (\<lambda>c. GetENIs (dataStore c) = n \<and> maxENI c = k) (dsG (AddIPv4AddressFromStore e ip))"
    for e ip by (simp add: keeps_def dsG_run)
  then show ?thesis
    by (induction addrs eni p rule: addENIaddressesToDataStore.induct) (auto intro!: keeps_intros)
qed

lemma keeps_envG_limit: "keeps (\<lambda>c. GetENIs (dataStore c) = n \<and> maxENI c = k) (envG m)"
  by (auto simp: keeps_def envG_def zoomG_def split: prod.split)

lemma GetENIs_tryAssignIPs:
  "keeps (\<lambda>c. GetENIs (dataStore c) = n \<and> maxENI c = k) (tryAssignIPs api)"
  unfolding tryAssignIPs_def getENIaddresses_def
  by (auto intro!: keeps_intros GetENIs_addENIaddresses keeps_envG_limit)

lemma tryAssignIPs_no_AllocENI:
  "tryAssignIPs (api\<lparr>a_AllocENI := f\<rparr>) = tryAssignIPs api"
proof -
  have eqs: "a_AllocIPAddresses (api\<lparr>a_AllocENI := f\<rparr>) = a_AllocIPAddresses api"
    "a_DescribeENI (api\<lparr>a_AllocENI := f\<rparr>) = a_DescribeENI api" by simp_all
  show ?thesis unfolding tryAssignIPs_def getENIaddresses_def eqs ..
qed

text \<open>
  The daemon never asks EC2 for an ENI beyond its limit.  When the store already has as
  many ENIs as the limit, what growing the pool does and returns does not depend on the
  operation that allocates an ENI.
\<close>

theorem no_eni_beyond_limit:
  assumes "maxENI c \<le> GetENIs (dataStore c)"
  shows "increaseIPPool (api\<lparr>a_AllocENI := f\<rparr>) c = increaseIPPool api c"
proof -
  obtain r c1 where r: "tryAssignIPs api c = (r, c1)" by (cases "tryAssignIPs api c")
  have "GetENIs (dataStore c1) = GetENIs (dataStore c)" "maxENI c1 = maxENI c"
    using keepsD[OF GetENIs_tryAssignIPs[of "GetENIs (dataStore c)" "maxENI c" api], of c] r by simp_all
  with assms r show ?thesis
    by (cases r)
       (auto simp: increaseIPPool_def tryAssignIPs_no_AllocENI go_simps bindG_def updateLastNodeIPPoolAction_def
         nowG_def getG_def split: prod.split)
qed

theorem no_eni_beyond_limit_witness:
  "increaseIPPool (sim_ipam True\<lparr>a_AllocENI := \<lambda>_ _ _. panicG ''called''\<rparr>)
     (ctx store1 0 3 2\<lparr>maxENI := 2\<rparr>) =
   increaseIPPool (sim_ipam True) (ctx store1 0 3 2\<lparr>maxENI := 2\<rparr>)"
proof (rule no_eni_beyond_limit)
  show "maxENI (ctx store1 0 3 2\<lparr>maxENI := 2\<rparr>) \<le> GetENIs (dataStore (ctx store1 0 3 2\<lparr>maxENI := 2\<rparr>))"
    by code_simp
qed

text \<open>One poll of the metadata service, and the pause after it, as they change the environment.\<close>

definition poll_round :: "('e, 'r) IpamAPI \<Rightarrow> 'e \<Rightarrow> 'e" where
  "poll_round api e = t_Sleep api (10 * second) (snd (a_GetAttachedENIs api e))"

definition poll_finds :: "('e, 'r) IpamAPI \<Rightarrow> string \<Rightarrow> 'e \<Rightarrow> ENIMetadata option" where
  "poll_finds api eni e =
     (case fst (a_GetAttachedENIs api e) of Val enis \<Rightarrow> find (\<lambda>m. eni = ENIID m) enis | _ \<Rightarrow> None)"

lemma waitENIAttached_run:
  assumes "\<And>p. fst (a_GetAttachedENIs api (ienv c)) \<noteq> Panic p"
  shows "waitENIAttached left api eni c =
    (case poll_finds api eni (ienv c) of
       Some m \<Rightarrow> (Val m, c\<lparr>ienv := snd (a_GetAttachedENIs api (ienv c))\<rparr>)
     | None \<Rightarrow>
         (case left of
            0 \<Rightarrow> (Err (NewErr ''waitENIAttached: giving up trying to retrieve ENIs from metadata service''),
                  c\<lparr>ienv := snd (a_GetAttachedENIs api (ienv c))\<rparr>)
          | Suc n \<Rightarrow> waitENIAttached n api eni (c\<lparr>ienv := poll_round api (ienv c)\<rparr>)))"
  using assms
  by (subst waitENIAttached.simps;
      cases "a_GetAttachedENIs api (ienv c)"; cases "fst (a_GetAttachedENIs api (ienv c))")
     (auto simp: bindG_def tryG_def envG_def zoomG_def poll_finds_def poll_round_def sleepG_def modG_def
       retG_def errG_def eniAttachTime_def split: option.split nat.split)

text \<open>
  Waiting for a new ENI ends.  The daemon polls the metadata service at most six times, with
  a pause of ten seconds between polls; it returns the description of the ENI it waits for
  from the first poll that shows it, and gives up with an error if none of the six does.
\<close>

theorem waitENIAttached_bounded:
  assumes "\<And>e p. fst (a_GetAttachedENIs api e) \<noteq> Panic p"
  shows "(\<exists>k \<le> 5. \<exists>m. (\<forall>j < k. poll_finds api eni ((poll_round api ^^ j) (ienv c)) = None) \<and>
            poll_finds api eni ((poll_round api ^^ k) (ienv c)) = Some m \<and> ENIID m = eni \<and>
            fst (waitENIAttached maxRetryCheckENI api eni c) = Val m) \<or>
         (\<forall>k \<le> 5. poll_finds api eni ((poll_round api ^^ k) (ienv c)) = None) \<and>
         fst (waitENIAttached maxRetryCheckENI api eni c) =
           Err (NewErr ''waitENIAttached: giving up trying to retrieve ENIs from metadata service'')"
proof -
  have "(\<exists>k \<le> n. \<exists>m. (\<forall>j < k. poll_finds api eni ((poll_round api ^^ j) (ienv c)) = None) \<and>
            poll_finds api eni ((poll_round api ^^ k) (ienv c)) = Some m \<and>
            fst (waitENIAttached n api eni c) = Val m) \<or>
         (\<forall>k \<le> n. poll_finds api eni ((poll_round api ^^ k) (ienv c)) = None) \<and>
         fst (waitENIAttached n api eni c) =
           Err (NewErr ''waitENIAttached: giving up trying to retrieve ENIs from metadata service'')" for n
  proof (induction n arbitrary: c)
    case 0
    show ?case by (subst (1 2) waitENIAttached_run) (auto simp: assms split: option.split)
  next
    case (Suc n)
    show ?case
    proof (cases "poll_finds api eni (ienv c)")
      case (Some m)
      then show ?thesis by (intro disjI1 exI[of _ 0]) (simp add: waitENIAttached_run assms)
    next
      case None
      let ?c = "c\<lparr>ienv := poll_round api (ienv c)\<rparr>"
      have run: "waitENIAttached (Suc n) api eni c = waitENIAttached n api eni ?c"
        using None by (subst waitENIAttached_run) (simp_all add: assms)
      have sh: "(poll_round api ^^ k) (ienv ?c) = (poll_round api ^^ Suc k) (ienv c)" for k
        by (simp add: funpow_swap1)
      from Suc.IH[of ?c] show ?thesis
      proof (elim disjE exE conjE)
        fix k m assume "k \<le> n" "\<forall>j < k. poll_finds api eni ((poll_round api ^^ j) (ienv ?c)) = None"
          "poll_finds api eni ((poll_round api ^^ k) (ienv ?c)) = Some m"
          "fst (waitENIAttached n api eni ?c) = Val m"
        then show ?thesis
          unfolding sh run using None
          by (intro disjI1 exI[of _ "Suc k"]) (auto simp: All_less_Suc2 simp del: funpow.simps)
      next
        assume "\<forall>k \<le> n. poll_finds api eni ((poll_round api ^^ k) (ienv ?c)) = None"
          "fst (waitENIAttached n api eni ?c) =
             Err (NewErr ''waitENIAttached: giving up trying to retrieve ENIs from metadata service'')"
        then show ?thesis
          unfolding sh run using None
          by (intro disjI2) (metis Suc_le_mono funpow_0 id_apply not0_implies_Suc)
      qed
    qed
  qed
  from this[of 5] show ?thesis
    unfolding maxRetryCheckENI_def poll_finds_def by (auto split: res.splits dest: find_SomeD)
qed

theorem waitENIAttached_bounded_witness:
  "fst (waitENIAttached maxRetryCheckENI (sim_ipam True) ''eni-9'' (ctx store1 0 1 2)) =
     Err (NewErr ''waitENIAttached: giving up trying to retrieve ENIs from metadata service'')"
proof -
  let ?api = "sim_ipam True"
  have np: "fst (a_GetAttachedENIs ?api e) \<noteq> Panic p" for e p by (simp add: sim_ipam_def retG_def)
  have "poll_finds ?api ''eni-9'' e = None" for e
    by (simp add: poll_finds_def sim_ipam_def retG_def eni_meta_def)
  with waitENIAttached_bounded[of ?api "''eni-9''" "ctx store1 0 1 2", OF np] show ?thesis by simp
qed

section \<open>An ENI whose network could not be set up\<close>


end
