(* ===== verification/RpcHandler.thy ===== *)
theory RpcHandler
  imports IpamdProps
begin

text \<open>
  The server that answers the CNI plugin: \<^verbatim>\<open>ipamd/rpc_handler.go\<close> with the messages of
  \<^verbatim>\<open>rpc/rpc.proto\<close>.  The 32-bit device number of a reply is a \<open>32 word\<close>.  The properties rest on
  the allocator contract that the store implements.
\<close>

section \<open>Messages and handlers\<close>

record AddNetworkRequest =
  ar_PodName :: string
  ar_PodNamespace :: string
  ar_ContainerID :: string
  ar_Netns :: string
  ar_IfName :: string

record AddNetworkReply =
  Success :: bool
  IPv4Addr :: string
  IPv4Subnet :: string
  rp_DeviceNumber :: "32 word"
  rp_UseExternalSNAT :: bool
  VPCcidrs :: "string list"

record DelNetworkRequest =
  dr_PodName :: string
  dr_PodNamespace :: string
  dr_ContainerID :: string
  dr_IPv4Addr :: string
  dr_Reason :: string

record DelNetworkReply =
  dp_Success :: bool
  dp_IPv4Addr :: string
  dp_DeviceNumber :: "32 word"

definition addPod :: "AddNetworkRequest \<Rightarrow> K8SPodInfo" where
  "addPod req = \<lparr>Name = ar_PodName req, Namespace = ar_PodNamespace req,
     Container = ar_ContainerID req, IP = '''', UID = ''''\<rparr>"

definition delPod :: "DelNetworkRequest \<Rightarrow> K8SPodInfo" where
  "delPod req = \<lparr>Name = dr_PodName req, Namespace = dr_PodNamespace req,
     Container = dr_ContainerID req, IP = '''', UID = ''''\<rparr>"

text \<open>The error of the store is not passed on: it becomes \<^verbatim>\<open>Success: false\<close>.\<close>

definition AddNetwork :: "('e, 'r) IpamAPI \<Rightarrow> AddNetworkRequest \<Rightarrow> ('e ipam, AddNetworkReply) go" where
  "AddNetwork api req =
     bindG (nowG api) (\<lambda>now.
     bindG (tryG (dsG (AssignPodIPv4Address now (addPod req)))) (\<lambda>r.
     bindG (getG (\<lambda>c. a_GetVPCIPv4CIDRs api (ienv c))) (\<lambda>vpcs.
     bindG (getG (\<lambda>c. n_UseExternalSNAT api (ienv c))) (\<lambda>useExternalSNAT.
     bindG (getG (\<lambda>c. if useExternalSNAT then [] else n_GetExcludeSNATCIDRs api (ienv c))) (\<lambda>excl.
     let (addr, deviceNumber) = (case r of Inl _ \<Rightarrow> ('''', 0) | Inr x \<Rightarrow> x) in
     retG \<lparr>Success = (case r of Inl _ \<Rightarrow> False | Inr _ \<Rightarrow> True), IPv4Addr = addr, IPv4Subnet = '''',
           rp_DeviceNumber = word_of_int deviceNumber, rp_UseExternalSNAT = useExternalSNAT,
           VPCcidrs = vpcs @ excl\<rparr>)))))"

definition DelNetwork :: "('e, 'r) IpamAPI \<Rightarrow> DelNetworkRequest \<Rightarrow> ('e ipam, DelNetworkReply) go" where
  "DelNetwork api req =
     bindG (nowG api) (\<lambda>now.
     bindG (tryG (dsG (UnassignPodIPv4Address now (delPod req)))) (\<lambda>r.
     bindG (if r = Inl ErrUnknownPod
            then bindG (nowG api) (\<lambda>now'.
                 tryG (dsG (UnassignPodIPv4Address now' (delPod req\<lparr>Container := ''''\<rparr>))))
            else retG r) (\<lambda>r1.
     let (ip, deviceNumber) = (case r1 of Inl _ \<Rightarrow> ('''', 0) | Inr x \<Rightarrow> x) in
     retG \<lparr>dp_Success = (case r1 of Inl _ \<Rightarrow> False | Inr _ \<Rightarrow> True), dp_IPv4Addr = ip,
           dp_DeviceNumber = word_of_int deviceNumber\<rparr>)))"

section \<open>The handlers in closed form\<close>

definition addKey :: "AddNetworkRequest \<Rightarrow> PodKey" where
  "addKey req = \<lparr>pk_name = ar_PodName req, pk_namespace = ar_PodNamespace req, pk_container = ar_ContainerID req\<rparr>"

definition delKey :: "DelNetworkRequest \<Rightarrow> PodKey" where
  "delKey req = \<lparr>pk_name = dr_PodName req, pk_namespace = dr_PodNamespace req, pk_container = dr_ContainerID req\<rparr>"

text \<open>The key of the second attempt of a release.\<close>

definition nameKey :: "DelNetworkRequest \<Rightarrow> PodKey" where
  "nameKey req = (delKey req)\<lparr>pk_container := ''''\<rparr>"

lemma addPod_cniPod: "addPod req = cniPod (addKey req)"
  by (simp add: addPod_def cniPod_def addKey_def)

lemma delPod_cniPod:
  "delPod req = cniPod (delKey req)" "(cniPod (delKey req))\<lparr>Container := ''''\<rparr> = cniPod (nameKey req)"
  by (simp_all add: delPod_def cniPod_def delKey_def nameKey_def)

lemma AssignPod_no_panic: "fst (AssignPodIPv4Address now pod ds) \<noteq> Panic p"
proof -
  have "fst (assign_from_enis pod now pools ds) \<noteq> Panic p" for pools
    using assign_from_enis_no_panic[of pod now pools ds p] by (metis prod.collapse)
  then show ?thesis
    by (simp add: AssignPodIPv4Address_def assignPodIPv4AddressUnsafe_def split: option.split)
qed

lemma UnassignPod_no_panic: "fst (UnassignPodIPv4Address now pod ds) \<noteq> Panic p"
proof -
  have "fst (unassign_from_enis now pk a pools ds) \<noteq> Panic p" for pk a pools
    using unassign_from_enis_no_panic[of now pk a pools ds p] by (metis prod.collapse)
  then show ?thesis by (simp add: UnassignPodIPv4Address_def split: option.split)
qed

lemma tryG_dsG_run:
  assumes "\<And>p. fst (m (dataStore c)) \<noteq> Panic p"
  shows "tryG (dsG m) c =
    (Val (case fst (m (dataStore c)) of Err e \<Rightarrow> Inl e | Val x \<Rightarrow> Inr x), c\<lparr>dataStore := snd (m (dataStore c))\<rparr>)"
  using assms by (cases "fst (m (dataStore c))") (auto simp: tryG_def dsG_run)

lemma AddNetwork_run:
  assumes "AssignPodIPv4Address (t_Now api (ienv c)) (cniPod (addKey req)) (dataStore c) = (r, ds')"
  shows "AddNetwork api req c =
    (Val \<lparr>Success = (\<exists>x. r = Val x),
          IPv4Addr = (case r of Val (ip, _) \<Rightarrow> ip | _ \<Rightarrow> ''''), IPv4Subnet = '''',
          rp_DeviceNumber = (case r of Val (_, d) \<Rightarrow> word_of_int d | _ \<Rightarrow> 0),
          rp_UseExternalSNAT = n_UseExternalSNAT api (ienv c),
          VPCcidrs = a_GetVPCIPv4CIDRs api (ienv c) @
            (if n_UseExternalSNAT api (ienv c) then [] else n_GetExcludeSNATCIDRs api (ienv c))\<rparr>,
     c\<lparr>dataStore := ds'\<rparr>)"
proof -
  have np: "r \<noteq> Panic p" for p using AssignPod_no_panic assms by (metis fst_conv)
  then show ?thesis
    using assms
    by (cases r)
       (auto simp: AddNetwork_def go_simps nowG_def addPod_cniPod bindG_def[of "tryG _"] tryG_dsG_run
         AssignPod_no_panic retG_def Let_def)
qed

lemma DelNetwork_run:
  assumes "UnassignPodIPv4Address (t_Now api (ienv c)) (cniPod (delKey req)) (dataStore c) = (r, ds1)"
    and "(if r = Err ErrUnknownPod
          then UnassignPodIPv4Address (t_Now api (ienv c)) (cniPod (nameKey req)) ds1 else (r, ds1)) = (r', ds')"
  shows "DelNetwork api req c =
    (Val \<lparr>dp_Success = (\<exists>x. r' = Val x), dp_IPv4Addr = (case r' of Val (ip, _) \<Rightarrow> ip | _ \<Rightarrow> ''''),
          dp_DeviceNumber = (case r' of Val (_, d) \<Rightarrow> word_of_int d | _ \<Rightarrow> 0)\<rparr>,
     c\<lparr>dataStore := ds'\<rparr>)"
proof -
  have np: "r \<noteq> Panic p" for p using UnassignPod_no_panic assms(1) by (metis fst_conv)
  have np': "r' \<noteq> Panic p" for p
    using UnassignPod_no_panic assms by (metis fst_conv prod.inject)
  have sum: "(case r of Err e \<Rightarrow> Inl e | Val x \<Rightarrow> Inr x) = Inl ErrUnknownPod \<longleftrightarrow> r = Err ErrUnknownPod"
    using np by (cases r) auto
  show ?thesis
    using assms np np' sum
    by (cases r'; cases "r = Err ErrUnknownPod"; cases r)
       (auto simp: DelNetwork_def go_simps bindG_assoc nowG_def delPod_cniPod bindG_def[of "tryG _"] bindG_def[of "retG _"]
         tryG_dsG_run UnassignPod_no_panic retG_def Let_def)
qed

section \<open>Requests in sequence\<close>

datatype rpc = RpcAdd AddNetworkRequest | RpcDel DelNetworkRequest

fun rpc_exec :: "('e, 'r) IpamAPI \<Rightarrow> rpc \<Rightarrow> 'e ipam \<Rightarrow> 'e ipam" where
  "rpc_exec api (RpcAdd req) c = snd (AddNetwork api req c)"
| "rpc_exec api (RpcDel req) c = snd (DelNetwork api req c)"

text \<open>The environment (the clock, EC2) may change before every request.\<close>

fun rpc_run :: "('e, 'r) IpamAPI \<Rightarrow> (('e \<Rightarrow> 'e) \<times> rpc) list \<Rightarrow> 'e ipam \<Rightarrow> 'e ipam" where
  "rpc_run api [] c = c"
| "rpc_run api ((env, r) # rs) c = rpc_run api rs (rpc_exec api r (c\<lparr>ienv := env (ienv c)\<rparr>))"

fun touches :: "rpc \<Rightarrow> PodKey set" where
  "touches (RpcAdd req) = {addKey req}"
| "touches (RpcDel req) = {delKey req, nameKey req}"

lemma DelNetwork_store:
  "dataStore (snd (DelNetwork api req c)) =
     (let (r, ds1) = UnassignPodIPv4Address (t_Now api (ienv c)) (cniPod (delKey req)) (dataStore c) in
      if r = Err ErrUnknownPod
      then snd (UnassignPodIPv4Address (t_Now api (ienv c)) (cniPod (nameKey req)) ds1) else ds1)"
proof -
  obtain r ds1 where r: "UnassignPodIPv4Address (t_Now api (ienv c)) (cniPod (delKey req)) (dataStore c) = (r, ds1)"
    by (cases "UnassignPodIPv4Address (t_Now api (ienv c)) (cniPod (delKey req)) (dataStore c)")
  obtain r' ds' where "(if r = Err ErrUnknownPod
      then UnassignPodIPv4Address (t_Now api (ienv c)) (cniPod (nameKey req)) ds1 else (r, ds1)) = (r', ds')"
    by (cases "if r = Err ErrUnknownPod
      then UnassignPodIPv4Address (t_Now api (ienv c)) (cniPod (nameKey req)) ds1 else (r, ds1)")
  from DelNetwork_run[OF r this] this r show ?thesis by (auto simp: Let_def split: if_splits)
qed

lemma AddNetwork_store:
  "dataStore (snd (AddNetwork api req c)) =
     snd (AssignPodIPv4Address (t_Now api (ienv c)) (cniPod (addKey req)) (dataStore c))"
  by (cases "AssignPodIPv4Address (t_Now api (ienv c)) (cniPod (addKey req)) (dataStore c)")
     (simp add: AddNetwork_run)

lemma rpc_exec_inv:
  assumes "ds_full_inv (dataStore c)"
  shows "ds_full_inv (dataStore (rpc_exec api r c)) \<and>
         (pk \<notin> touches r \<longrightarrow> ds_held (dataStore (rpc_exec api r c)) pk = ds_held (dataStore c) pk)"
proof (cases r)
  case (RpcAdd req)
  show ?thesis
    using store.invar_assign[OF assms] store.assign_frame[OF assms] by (simp add: RpcAdd AddNetwork_store)
next
  case (RpcDel req)
  let ?u = "\<lambda>k. UnassignPodIPv4Address (t_Now api (ienv c)) (cniPod k)"
  have i1: "ds_full_inv (snd (?u (delKey req) (dataStore c)))" using store.invar_release[OF assms] .
  show ?thesis
    using i1 store.invar_release[OF i1] store.release_frame[OF assms, of pk "delKey req" "t_Now api (ienv c)"]
      store.release_frame[OF i1, of pk "nameKey req"]
    by (cases "?u (delKey req) (dataStore c)") (simp add: RpcDel DelNetwork_store Let_def)
qed

lemma rpc_run_held:
  assumes "ds_full_inv (dataStore c)" "\<forall>(env, r) \<in> set rs. pk \<notin> touches r"
  shows "ds_full_inv (dataStore (rpc_run api rs c)) \<and>
         ds_held (dataStore (rpc_run api rs c)) pk = ds_held (dataStore c) pk"
  using assms
proof (induction api rs c rule: rpc_run.induct)
  case (2 api env r rs c)
  let ?c = "c\<lparr>ienv := env (ienv c)\<rparr>"
  have inv: "ds_full_inv (dataStore ?c)" using 2 by simp
  from 2 rpc_exec_inv[OF inv, of api r pk] show ?case by auto
qed simp

text \<open>
  C6: what a pod gets is its own.  The reply to an \<^verbatim>\<open>AddNetwork\<close> request reports success exactly
  when the store assigned an address; then no other pod holds that address and the pod
  holds it with the device number of the reply; otherwise the reply has no address
  and the store is unchanged.  The reply's CIDR list is the VPC's, with the excluded ones
  unless SNAT is external.
\<close>

theorem AddNetwork_exclusive:
  assumes "cni_reach (dataStore c)" "AddNetwork api req c = (Val rep, c')"
  shows "VPCcidrs rep = a_GetVPCIPv4CIDRs api (ienv c) @
           (if n_UseExternalSNAT api (ienv c) then [] else n_GetExcludeSNATCIDRs api (ienv c)) \<and>
         (if Success rep then
            (\<exists>d. rp_DeviceNumber rep = word_of_int d \<and>
               ds_held (dataStore c') = (ds_held (dataStore c))(addKey req \<mapsto> (IPv4Addr rep, d))) \<and>
            ds_held (dataStore c) (addKey req) = None \<and>
            (\<forall>pk d. ds_held (dataStore c) pk \<noteq> Some (IPv4Addr rep, d))
          else IPv4Addr rep = '''' \<and> rp_DeviceNumber rep = 0 \<and> dataStore c' = dataStore c)"
proof -
  let ?now = "t_Now api (ienv c)"
  have inv: "ds_full_inv (dataStore c)" using cni_reach_inv[OF assms(1)] .
  obtain r ds' where r: "AssignPodIPv4Address ?now (cniPod (addKey req)) (dataStore c) = (r, ds')"
    by (cases "AssignPodIPv4Address ?now (cniPod (addKey req)) (dataStore c)")
  show ?thesis
  proof (cases r)
    case (Val x)
    obtain ip d where x: "x = (ip, d)" by (cases x)
    have h: "ds_held (dataStore c) (addKey req) = None" "ds_held ds' = (ds_held (dataStore c))(addKey req \<mapsto> x)"
      using store.assign_Val[OF inv] r Val by blast+
    have "\<forall>pk d'. ds_held (dataStore c) pk \<noteq> Some (ip, d')"
      using store.assign_exclusive[OF inv, of ?now "addKey req" ip d ds'] r Val x by blast
    with h AddNetwork_run[OF r] assms(2) Val x show ?thesis by auto
  next
    case (Err e)
    then have "ds' = dataStore c" using store.assign_not_Val[OF inv r] by simp
    with AddNetwork_run[OF r] assms(2) Err show ?thesis by auto
  next
    case (Panic p)
    then show ?thesis using AssignPod_no_panic r by (metis fst_conv)
  qed
qed

text \<open>
  C9: what a pod got, it gives back.  After a successful \<^verbatim>\<open>AddNetwork\<close>, whatever requests for other
  pods the server answers in between, with any passing of time, a \<^verbatim>\<open>DelNetwork\<close> for the same pod
  succeeds and names the same address and device, so that the plugin removes the right
  routes; a repeated one fails.
\<close>

theorem add_then_del_network:
  assumes "cni_reach (dataStore c)" "AddNetwork api req c = (Val rep, c1)" "Success rep"
    and "\<forall>(env, r) \<in> set rs. addKey req \<notin> touches r"
    and "delKey dreq = addKey req" "c2 = rpc_run api rs c1"
  shows "\<exists>c3. DelNetwork api dreq c2 =
           (Val \<lparr>dp_Success = True, dp_IPv4Addr = IPv4Addr rep, dp_DeviceNumber = rp_DeviceNumber rep\<rparr>, c3) \<and>
           ds_held (dataStore c3) (addKey req) = None"
proof -
  let ?now = "t_Now api (ienv c)" and ?now2 = "t_Now api (ienv c2)"
  have inv: "ds_full_inv (dataStore c)" using cni_reach_inv[OF assms(1)] .
  obtain r ds' where r: "AssignPodIPv4Address ?now (cniPod (addKey req)) (dataStore c) = (r, ds')"
    by (cases "AssignPodIPv4Address ?now (cniPod (addKey req)) (dataStore c)")
  obtain ip d where Val: "r = Val (ip, d)" using AddNetwork_run[OF r] assms(2,3) by auto
  have rep: "IPv4Addr rep = ip" "rp_DeviceNumber rep = word_of_int d" "c1 = c\<lparr>dataStore := ds'\<rparr>"
    using AddNetwork_run[OF r] assms(2) Val by auto
  have "ds_full_inv ds'" using store.invar_assign[OF inv, of ?now "addKey req"] r by simp
  then have inv1: "ds_full_inv (dataStore c1)" by (simp add: rep)
  have "ds_held (dataStore c1) (addKey req) = Some (ip, d)"
    using store.assign_Val[OF inv r[unfolded Val]] by (simp add: rep)
  with rpc_run_held[OF inv1 assms(4), of api] have inv2: "ds_full_inv (dataStore c2)"
    and held: "ds_held (dataStore c2) (addKey req) = Some (ip, d)" by (simp_all add: assms(6))
  from store.release_held[OF inv2 held, of ?now2] obtain ds3 where
    u: "UnassignPodIPv4Address ?now2 (cniPod (delKey dreq)) (dataStore c2) = (Val (ip, d), ds3)"
    and h3: "ds_held ds3 = (ds_held (dataStore c2))(addKey req := None)" by (auto simp: assms(5))
  from DelNetwork_run[OF u, of "Val (ip, d)" ds3] show ?thesis
    using h3 rep by simp
qed

definition add_a :: AddNetworkRequest where
  "add_a = \<lparr>ar_PodName = ''a'', ar_PodNamespace = ''ns'', ar_ContainerID = ''c1'',
     ar_Netns = ''/proc/7/ns/net'', ar_IfName = ''eth0''\<rparr>"

definition del_a :: DelNetworkRequest where
  "del_a = \<lparr>dr_PodName = ''a'', dr_PodNamespace = ''ns'', dr_ContainerID = ''c1'',
     dr_IPv4Addr = '''', dr_Reason = ''PodDeleted''\<rparr>"

definition srv0 :: "time ipam" where
  "srv0 = ctx store0 0 1 2\<lparr>ienv := 100 * second\<rparr>"

lemma srv0_reach: "cni_reach (dataStore srv0)"
  by (simp add: srv0_def ctx_def store0_cni_reach)

definition rep_a :: AddNetworkReply where
  "rep_a = \<lparr>Success = True, IPv4Addr = ''10.0.0.1'', IPv4Subnet = '''', rp_DeviceNumber = 0,
     rp_UseExternalSNAT = False, VPCcidrs = [''10.0.0.0/16'', ''172.16.0.0/12'']\<rparr>"

lemma add_a_reply: "fst (AddNetwork (sim_ipam True) add_a srv0) = Val rep_a"
  by code_simp

theorem AddNetwork_exclusive_witness:
  "ds_held (dataStore (snd (AddNetwork (sim_ipam True) add_a srv0))) (addKey add_a) = Some (''10.0.0.1'', 0) \<and>
   VPCcidrs rep_a = [''10.0.0.0/16'', ''172.16.0.0/12'']"
proof -
  have "AddNetwork (sim_ipam True) add_a srv0 = (Val rep_a, snd (AddNetwork (sim_ipam True) add_a srv0))"
    using add_a_reply by (metis prod.collapse)
  note e = AddNetwork_exclusive[OF srv0_reach this]
  have "ds_held (dataStore (snd (AddNetwork (sim_ipam True) add_a srv0))) (addKey add_a) = Some (''10.0.0.1'', 0)"
    by code_simp
  moreover have "a_GetVPCIPv4CIDRs (sim_ipam True) (ienv srv0) = [''10.0.0.0/16'']"
    "n_GetExcludeSNATCIDRs (sim_ipam True) (ienv srv0) = [''172.16.0.0/12'']"
    "\<not> n_UseExternalSNAT (sim_ipam True) (ienv srv0)" by (simp_all add: sim_ipam_def)
  ultimately show ?thesis using e by simp
qed

theorem add_then_del_network_witness:
  "\<exists>c3. DelNetwork (sim_ipam True) del_a
          (rpc_run (sim_ipam True) [(\<lambda>e. e + second, RpcAdd (add_a\<lparr>ar_PodName := ''b''\<rparr>))]
             (snd (AddNetwork (sim_ipam True) add_a srv0))) =
     (Val \<lparr>dp_Success = True, dp_IPv4Addr = ''10.0.0.1'', dp_DeviceNumber = 0\<rparr>, c3)"
proof -
  have a: "AddNetwork (sim_ipam True) add_a srv0 = (Val rep_a, snd (AddNetwork (sim_ipam True) add_a srv0))"
    using add_a_reply by (metis prod.collapse)
  have s: "Success rep_a" by (simp add: rep_a_def)
  have t: "\<forall>(env, r) \<in> set [(\<lambda>e::time. e + second, RpcAdd (add_a\<lparr>ar_PodName := ''b''\<rparr>))]. addKey add_a \<notin> touches r"
    by (simp add: add_a_def addKey_def)
  have k: "delKey del_a = addKey add_a" by (simp add: add_a_def addKey_def del_a_def delKey_def)
  from add_then_del_network[OF srv0_reach a s t k refl] show ?thesis by (auto simp: rep_a_def)
qed

end
