(* ===== verification/NetworkUtils.thy ===== *)
theory NetworkUtils
  imports GoNet
begin

text \<open>
  The node's network: \<^verbatim>\<open>pkg/networkutils/network.go\<close>, with the error tests of
  \<^verbatim>\<open>pkg/netlinkwrapper/netlink.go\<close>.  The kernel (netlink, iptables, /proc) and the process
  environment are parameters, the fields of \<open>'e NetAPI\<close>.  Log lines are left out.
\<close>

section \<open>Constants and data\<close>

definition hostRulePriority :: int where "hostRulePriority = 1024"
definition fromPodRulePriority :: int where "fromPodRulePriority = 1536"
definition mainRoutingTable :: int where "mainRoutingTable = 254"
definition envExternalSNAT :: string where "envExternalSNAT = ''AWS_VPC_K8S_CNI_EXTERNALSNAT''"
definition envExcludeSNATCIDRs :: string where
  "envExcludeSNATCIDRs = ''AWS_VPC_K8S_CNI_EXCLUDE_SNAT_CIDRS''"
definition envRandomizeSNAT :: string where "envRandomizeSNAT = ''AWS_VPC_K8S_CNI_RANDOMIZESNAT''"
definition envNodePortSupport :: string where "envNodePortSupport = ''AWS_VPC_CNI_NODE_PORT_SUPPORT''"
definition envConnmark :: string where "envConnmark = ''AWS_VPC_K8S_CNI_CONNMARK''"
definition defaultConnmark :: "32 word" where "defaultConnmark = 0x80"
definition ethernetMTU :: int where "ethernetMTU = 9001"
definition maxRetryRouteAdd :: nat where "maxRetryRouteAdd = 5"
definition retryRouteAddInterval :: duration where "retryRouteAddInterval = 5 * second"
definition maxAttemptsLinkByMac :: nat where "maxAttemptsLinkByMac = 5"
definition retryLinkByMacInterval :: duration where "retryLinkByMacInterval = 3 * second"

datatype snatType = sequentialSNAT | randomHashSNAT | randomPRNGSNAT

record linuxNetwork =
  ln_useExternalSNAT :: bool
  ln_excludeSNATCIDRs :: "string list"
  ln_typeOfSNAT :: snatType
  ln_nodePortSupportEnabled :: bool
  mainENIMark :: "32 word"

text \<open>
  A \<^verbatim>\<open>net.IPNet\<close>: the address (nil if it did not parse), and the ones and the bits of the mask.
\<close>

type_synonym ipNet = "goIP option \<times> nat \<times> nat"

definition ofNet :: "goNet \<Rightarrow> ipNet" where
  "ofNet n = (case n of Net4 m \<Rightarrow> (Some (V4 (netIP m)), prefixLen m, 32) | Net6 a k \<Rightarrow> (Some (V6 a), k, 128))"

text \<open>The fields of a netlink rule and route that the code sets or reads.\<close>

record Rule =
  r_Src :: "ipNet option"
  r_Dst :: "ipNet option"
  r_Table :: int
  r_Priority :: int
  r_Invert :: bool
  r_Mark :: int
  r_Mask :: int

datatype scope = SCOPE_UNIVERSE | SCOPE_LINK

record Route =
  LinkIndex :: int
  rt_Dst :: "ipNet option"
  rt_Scope :: scope
  rt_Gw :: "goIP option"
  rt_Src :: "goIP option"
  rt_Table :: int

record Link =
  l_Index :: int
  l_HardwareAddr :: string

record iptablesRule =
  ir_name :: string
  shouldExist :: bool
  ir_table :: string
  ir_chain :: string
  ir_rule :: "string list"

record 'e NetAPI =
  NewRule :: Rule
  RuleDel :: "Rule \<Rightarrow> ('e, unit) go"
  RuleAdd :: "Rule \<Rightarrow> ('e, unit) go"
  RuleList :: "('e, Rule list) go"
  Interfaces :: "('e, (string \<times> string) list) go"
  OpenFile :: "string \<Rightarrow> ('e, unit) go"
  WriteString :: "string \<Rightarrow> string \<Rightarrow> ('e, unit) go"
  CloseFile :: "string \<Rightarrow> ('e, unit) go"
  newIptables :: "('e, unit) go"
  ipt_Exists :: "string \<Rightarrow> string \<Rightarrow> string list \<Rightarrow> ('e, bool) go"
  ipt_Append :: "string \<Rightarrow> string \<Rightarrow> string list \<Rightarrow> ('e, unit) go"
  ipt_Delete :: "string \<Rightarrow> string \<Rightarrow> string list \<Rightarrow> ('e, unit) go"
  ipt_List :: "string \<Rightarrow> string \<Rightarrow> ('e, string list) go"
  ipt_NewChain :: "string \<Rightarrow> string \<Rightarrow> ('e, unit) go"
  ipt_ListChains :: "string \<Rightarrow> ('e, string list) go"
  HasRandomFully :: "'e \<Rightarrow> bool"
  LinkList :: "('e, Link list) go"
  LinkSetMTU :: "Link \<Rightarrow> int \<Rightarrow> ('e, unit) go"
  LinkSetUp :: "Link \<Rightarrow> ('e, unit) go"
  AddrList :: "Link \<Rightarrow> ('e, string list) go"
  AddrDel :: "Link \<Rightarrow> string \<Rightarrow> ('e, unit) go"
  AddrAdd :: "Link \<Rightarrow> goIP option \<Rightarrow> nat \<Rightarrow> ('e, unit) go"
  RouteDel :: "Route \<Rightarrow> ('e, unit) go"
  RouteAdd :: "Route \<Rightarrow> ('e, unit) go"
  RouteReplace :: "Route \<Rightarrow> ('e, unit) go"
  nSleep :: "duration \<Rightarrow> 'e \<Rightarrow> 'e"
  nGetenv :: "string \<Rightarrow> 'e \<Rightarrow> string"

section \<open>Errors\<close>

definition containsNoSuchRule :: "goerr \<Rightarrow> bool" where
  "containsNoSuchRule err = (case err of Errno n _ \<Rightarrow> n = 2 | _ \<Rightarrow> False)"

definition IsNotExistsError :: "goerr \<Rightarrow> bool" where
  "IsNotExistsError err = (case err of Errno n _ \<Rightarrow> n = 3 | _ \<Rightarrow> False)"

definition IsRouteExistsError :: "goerr \<Rightarrow> bool" where
  "IsRouteExistsError err = (case err of Errno n _ \<Rightarrow> n = 17 | _ \<Rightarrow> False)"

definition IsNetworkUnreachableError :: "goerr \<Rightarrow> bool" where
  "IsNetworkUnreachableError err = (case err of Errno n _ \<Rightarrow> n = 101 | _ \<Rightarrow> False)"

definition containChainExistErr :: "goerr \<Rightarrow> bool" where
  "containChainExistErr err = Contains (Error err) ''Chain already exists''"

text \<open>An error that a test accepts is dropped; another is wrapped and returned.\<close>

definition allowG :: "(goerr \<Rightarrow> bool) \<Rightarrow> string \<Rightarrow> ('w, unit) go \<Rightarrow> ('w, unit) go" where
  "allowG ok msg m =
     bindG (tryG m) (\<lambda>r. case r of
        Inl err \<Rightarrow> if ok err then retG () else errG (WrapErr msg err)
      | Inr _ \<Rightarrow> retG ())"

section \<open>Configuration\<close>

definition getBoolEnvVar :: "'e NetAPI \<Rightarrow> string \<Rightarrow> bool \<Rightarrow> 'e \<Rightarrow> bool" where
  "getBoolEnvVar api name defaultValue e =
     (let strValue = nGetenv api name e in
      if strValue \<noteq> '''' then (case ParseBool strValue of Val b \<Rightarrow> b | _ \<Rightarrow> defaultValue)
      else defaultValue)"

definition useExternalSNAT :: "'e NetAPI \<Rightarrow> 'e \<Rightarrow> bool" where
  "useExternalSNAT api e = getBoolEnvVar api envExternalSNAT False e"

definition nodePortSupportEnabled :: "'e NetAPI \<Rightarrow> 'e \<Rightarrow> bool" where
  "nodePortSupportEnabled api e = getBoolEnvVar api envNodePortSupport True e"

definition getExcludeSNATCIDRs :: "'e NetAPI \<Rightarrow> 'e \<Rightarrow> string list" where
  "getExcludeSNATCIDRs api e =
     (if useExternalSNAT api e then []
      else
        let excludeCIDRs = nGetenv api envExcludeSNATCIDRs e in
        if excludeCIDRs = '''' then []
        else List.map_filter (\<lambda>excludeCIDR. case ParseCIDR excludeCIDR of
                                 Val (_, parseCIDR) \<Rightarrow> Some (IPNetString parseCIDR) | _ \<Rightarrow> None)
               (Split excludeCIDRs (CHR '','')))"

definition UseExternalSNAT :: "'e NetAPI \<Rightarrow> 'e \<Rightarrow> bool" where
  "UseExternalSNAT api e = useExternalSNAT api e"

definition GetExcludeSNATCIDRs :: "'e NetAPI \<Rightarrow> 'e \<Rightarrow> string list" where
  "GetExcludeSNATCIDRs api e = getExcludeSNATCIDRs api e"

definition typeOfSNAT :: "'e NetAPI \<Rightarrow> 'e \<Rightarrow> snatType" where
  "typeOfSNAT api e =
     (let strValue = nGetenv api envRandomizeSNAT e in
      if strValue = '''' then randomHashSNAT
      else if strValue = ''prng'' then randomPRNGSNAT
      else if strValue = ''none'' then sequentialSNAT
      else if strValue = ''hashrandom'' then randomHashSNAT
      else randomHashSNAT)"

definition getConnmark :: "'e NetAPI \<Rightarrow> 'e \<Rightarrow> 32 word" where
  "getConnmark api e =
     (let connmark = nGetenv api envConnmark e in
      if connmark \<noteq> '''' then
        (case ParseInt connmark 0 64 of
           Val mark \<Rightarrow> if mark > 2 ^ 32 - 1 \<or> mark \<le> 0 then defaultConnmark else word_of_int mark
         | _ \<Rightarrow> defaultConnmark)
      else defaultConnmark)"

definition netNew :: "'e NetAPI \<Rightarrow> 'e \<Rightarrow> linuxNetwork" where
  "netNew api e = \<lparr>ln_useExternalSNAT = useExternalSNAT api e,
     ln_excludeSNATCIDRs = getExcludeSNATCIDRs api e, ln_typeOfSNAT = typeOfSNAT api e,
     ln_nodePortSupportEnabled = nodePortSupportEnabled api e, mainENIMark = getConnmark api e\<rparr>"

section \<open>The rules of the SNAT chains\<close>

text \<open>\<^verbatim>\<open>snatCIDR\<close>: a CIDR and whether it is an exclusion.\<close>

type_synonym snatCIDR = "string \<times> bool"

definition allCIDRs :: "linuxNetwork \<Rightarrow> string list \<Rightarrow> snatCIDR list" where
  "allCIDRs n vpcCIDRs = map (\<lambda>c. (c, False)) vpcCIDRs @ map (\<lambda>c. (c, True)) (ln_excludeSNATCIDRs n)"

definition chainName :: "nat \<Rightarrow> string" where
  "chainName i = ''AWS-SNAT-CHAIN-'' @ natToStr i"

definition firstSNATRule :: "linuxNetwork \<Rightarrow> iptablesRule" where
  "firstSNATRule n = \<lparr>ir_name = ''first SNAT rules for non-VPC outbound traffic'',
     shouldExist = (\<not> ln_useExternalSNAT n), ir_table = ''nat'', ir_chain = ''POSTROUTING'',
     ir_rule = [''-m'', ''comment'', ''--comment'', ''AWS SNAT CHAIN'', ''-j'', ''AWS-SNAT-CHAIN-0'']\<rparr>"

fun cidrRules :: "linuxNetwork \<Rightarrow> nat \<Rightarrow> snatCIDR list \<Rightarrow> iptablesRule list" where
  "cidrRules n i [] = []"
| "cidrRules n i ((cidr, isExclusion) # cidrs) =
     \<lparr>ir_name = ''['' @ natToStr i @ ''] AWS-SNAT-CHAIN'', shouldExist = (\<not> ln_useExternalSNAT n),
      ir_table = ''nat'', ir_chain = chainName i,
      ir_rule = [''!'', ''-d'', cidr, ''-m'', ''comment'', ''--comment'',
                 ''AWS SNAT CHAIN'' @ (if isExclusion then '' EXCLUSION'' else ''''),
                 ''-j'', chainName (i + 1)]\<rparr> # cidrRules n (i + 1) cidrs"

definition snatRule :: "linuxNetwork \<Rightarrow> bool \<Rightarrow> goIP option \<Rightarrow> string list" where
  "snatRule n randomFully primaryAddr =
     [''-m'', ''comment'', ''--comment'', ''AWS, SNAT'', ''-m'', ''addrtype'', ''!'', ''--dst-type'',
      ''LOCAL'', ''-j'', ''SNAT'', ''--to-source'', IPString primaryAddr] @
     (case ln_typeOfSNAT n of
        sequentialSNAT \<Rightarrow> []
      | randomHashSNAT \<Rightarrow> [''--random'']
      | randomPRNGSNAT \<Rightarrow> if randomFully then [''--random-fully''] else [''--random''])"

definition lastSNATRule :: "linuxNetwork \<Rightarrow> bool \<Rightarrow> goIP option \<Rightarrow> nat \<Rightarrow> iptablesRule" where
  "lastSNATRule n randomFully primaryAddr k = \<lparr>ir_name = ''last SNAT rule for non-VPC outbound traffic'',
     shouldExist = (\<not> ln_useExternalSNAT n), ir_table = ''nat'', ir_chain = chainName k,
     ir_rule = snatRule n randomFully primaryAddr\<rparr>"

definition snatRules :: "linuxNetwork \<Rightarrow> bool \<Rightarrow> string list \<Rightarrow> goIP option \<Rightarrow> iptablesRule list" where
  "snatRules n randomFully vpcCIDRs primaryAddr =
     (let cidrs = allCIDRs n vpcCIDRs in
      firstSNATRule n # cidrRules n 0 cidrs @ [lastSNATRule n randomFully primaryAddr (length cidrs)])"

definition staleRules :: "iptablesRule list \<Rightarrow> iptablesRule list \<Rightarrow> iptablesRule list" where
  "staleRules current wanted =
     filter (\<lambda>s. \<not> list_ex (\<lambda>w. ir_chain s = ir_chain w \<and> ir_rule w = ir_rule s) wanted) current"

definition showMark :: "32 word \<Rightarrow> string" where
  "showMark m = (if m = 0 then ''0'' else ''0x'' @ intToHex (uint m))"

definition connmarkRules :: "linuxNetwork \<Rightarrow> string \<Rightarrow> iptablesRule list" where
  "connmarkRules n primaryIntf =
     [\<lparr>ir_name = ''connmark for primary ENI'', shouldExist = ln_nodePortSupportEnabled n,
       ir_table = ''mangle'', ir_chain = ''PREROUTING'',
       ir_rule = [''-m'', ''comment'', ''--comment'', ''AWS, primary ENI'', ''-i'', primaryIntf,
                  ''-m'', ''addrtype'', ''--dst-type'', ''LOCAL'', ''--limit-iface-in'',
                  ''-j'', ''CONNMARK'', ''--set-mark'',
                  showMark (mainENIMark n) @ ''/'' @ showMark (mainENIMark n)]\<rparr>,
      \<lparr>ir_name = ''connmark restore for primary ENI'', shouldExist = ln_nodePortSupportEnabled n,
       ir_table = ''mangle'', ir_chain = ''PREROUTING'',
       ir_rule = [''-m'', ''comment'', ''--comment'', ''AWS, primary ENI'', ''-i'', ''eni+'',
                  ''-j'', ''CONNMARK'', ''--restore-mark'', ''--mask'', showMark (mainENIMark n)]\<rparr>]"

definition oldSNATRule :: "goNet \<Rightarrow> goIP option \<Rightarrow> iptablesRule" where
  "oldSNATRule vpcCIDR primaryAddr =
     \<lparr>ir_name = ''rule for primary address '' @ IPString primaryAddr, shouldExist = False,
      ir_table = ''nat'', ir_chain = ''POSTROUTING'',
      ir_rule = [''!'', ''-d'', IPNetString vpcCIDR, ''-m'', ''comment'', ''--comment'', ''AWS, SNAT'',
                 ''-m'', ''addrtype'', ''!'', ''--dst-type'', ''LOCAL'',
                 ''-j'', ''SNAT'', ''--to-source'', IPString primaryAddr]\<rparr>"

text \<open>\<^verbatim>\<open>%v\<close> of a rule is its \<^verbatim>\<open>String()\<close>.\<close>

definition showRule :: "iptablesRule \<Rightarrow> string" where
  "showRule r = ir_table r @ ''/'' @ ir_chain r @ '' rule '' @ ir_name r"

section \<open>Reading the current rules\<close>

text \<open>
  One line read by \<^verbatim>\<open>encoding/csv\<close> with a space as the comma: a field that starts with a quote
  ends at the next single quote; another field ends at the next comma and must not have a quote.
\<close>

definition dquote :: char where "dquote = CHR 0x22"

fun csvQuoted :: "string \<Rightarrow> string \<Rightarrow> (string \<times> string option) option" where
  "csvQuoted acc [] = None"
| "csvQuoted acc (c # s) =
     (if c = dquote then
        (case s of
           [] \<Rightarrow> Some (rev acc, None)
         | d # t \<Rightarrow> if d = dquote then csvQuoted (dquote # acc) t
                    else if d = CHR '' '' then Some (rev acc, Some t) else None)
      else csvQuoted (c # acc) s)"

fun csvFields :: "nat \<Rightarrow> string \<Rightarrow> string list option" where
  "csvFields 0 s = None"
| "csvFields (Suc k) s =
     (if s \<noteq> [] \<and> hd s = dquote then
        (case csvQuoted [] (tl s) of
           None \<Rightarrow> None
         | Some (f, None) \<Rightarrow> Some [f]
         | Some (f, Some rest) \<Rightarrow> map_option ((#) f) (csvFields k rest))
      else
        let f = takeWhile (\<lambda>c. c \<noteq> CHR '' '') s; rest = dropWhile (\<lambda>c. c \<noteq> CHR '' '') s in
        if dquote \<in> set f then None
        else case rest of [] \<Rightarrow> Some [f] | _ # t \<Rightarrow> map_option ((#) f) (csvFields k t))"

definition csvRead :: "string \<Rightarrow> string list res" where
  "csvRead line =
     (if line = [] then Err (NewErr ''EOF'')
      else case csvFields (Suc (length line)) line of
             None \<Rightarrow> Err (NewErr ''parse error on line 1'')
           | Some fs \<Rightarrow> Val fs)"

fun chainRules :: "string \<Rightarrow> nat \<Rightarrow> string list \<Rightarrow> iptablesRule list res" where
  "chainRules chain i [] = Val []"
| "chainRules chain i (rule # rules) =
     (case csvRead rule of
        Err e \<Rightarrow> Err (WrapErr (''host network setup: failed to parse iptables nat chain '' @ chain @
                              '' rule '' @ rule) e)
      | Panic p \<Rightarrow> Panic p
      | Val ruleSpec \<Rightarrow>
          if length ruleSpec < 2 then Panic ''slice bounds out of range''
          else
            (case chainRules chain (i + 1) rules of
               Val rs \<Rightarrow> Val (\<lparr>ir_name = ''['' @ natToStr i @ ''] '' @ chain, shouldExist = False,
                              ir_table = ''nat'', ir_chain = chain, ir_rule = drop 2 ruleSpec\<rparr> # rs)
             | x \<Rightarrow> x))"

fun list_chains_loop :: "'e NetAPI \<Rightarrow> string list \<Rightarrow> ('e, iptablesRule list) go" where
  "list_chains_loop api [] = retG []"
| "list_chains_loop api (chain # existingChains) =
     (if \<not> HasPrefix chain ''AWS-SNAT-CHAIN'' then list_chains_loop api existingChains
      else
        bindG (wrapG (''host network setup: failed to list iptables nat chain '' @ chain)
                 (ipt_List api ''nat'' chain)) (\<lambda>rules.
        bindG (resG (chainRules chain 0 rules)) (\<lambda>rs.
        bindG (list_chains_loop api existingChains) (\<lambda>toClear. retG (rs @ toClear)))))"

definition listCurrentSNATRules :: "'e NetAPI \<Rightarrow> ('e, iptablesRule list) go" where
  "listCurrentSNATRules api =
     bindG (wrapG ''host network setup: failed to list iptables nat chains'' (ipt_ListChains api ''nat''))
       (list_chains_loop api)"

section \<open>Setting up the host network\<close>

definition setProcSys :: "'e NetAPI \<Rightarrow> string \<Rightarrow> string \<Rightarrow> ('e, unit) go" where
  "setProcSys api key v =
     bindG (OpenFile api key) (\<lambda>_.
     bindG (tryG (WriteString api key v)) (\<lambda>r.
     case r of
       Inl err \<Rightarrow> bindG (ignoreG (CloseFile api key)) (\<lambda>_. errG err)
     | Inr _ \<Rightarrow> CloseFile api key))"

definition findPrimaryInterfaceName :: "'e NetAPI \<Rightarrow> string \<Rightarrow> ('e, string) go" where
  "findPrimaryInterfaceName api primaryMAC =
     bindG (wrapG ''findPrimaryInterfaceName: failed to find interfaces'' (Interfaces api)) (\<lambda>interfaces.
     case find (\<lambda>(name, hw). primaryMAC = hw) interfaces of
       Some (name, _) \<Rightarrow> retG name
     | None \<Rightarrow> errG (NewErr ''no primary interface found''))"

text \<open>One rule: added if it should exist and does not, deleted if it exists and should not.\<close>

definition syncRule :: "'e NetAPI \<Rightarrow> iptablesRule \<Rightarrow> ('e, unit) go" where
  "syncRule api rule =
     bindG (wrapG (''host network setup: failed to check existence of '' @ showRule rule)
              (ipt_Exists api (ir_table rule) (ir_chain rule) (ir_rule rule))) (\<lambda>exists.
     if \<not> exists \<and> shouldExist rule then
       wrapG (''host network setup: failed to add '' @ showRule rule)
         (ipt_Append api (ir_table rule) (ir_chain rule) (ir_rule rule))
     else if exists \<and> \<not> shouldExist rule then
       wrapG (''host network setup: failed to delete '' @ showRule rule)
         (ipt_Delete api (ir_table rule) (ir_chain rule) (ir_rule rule))
     else retG ())"

definition SetupHostNetwork ::
  "'e NetAPI \<Rightarrow> linuxNetwork \<Rightarrow> goNet \<Rightarrow> string list \<Rightarrow> string \<Rightarrow> goIP option \<Rightarrow> ('e, unit) go" where
  "SetupHostNetwork api n vpcCIDR vpcCIDRs primaryMAC primaryAddr =
     (let hostRule = (NewRule api)\<lparr>r_Dst := Some (ofNet vpcCIDR), r_Table := mainRoutingTable,
                       r_Priority := hostRulePriority, r_Invert := True\<rparr>;
          mainENIRule = (NewRule api)\<lparr>r_Mark := uint (mainENIMark n), r_Mask := uint (mainENIMark n),
                          r_Table := mainRoutingTable, r_Priority := hostRulePriority\<rparr> in
      bindG (allowG containsNoSuchRule ''host network setup: failed to delete old host rule''
               (RuleDel api hostRule)) (\<lambda>_.
      bindG (if ln_nodePortSupportEnabled n then
               bindG (wrapG ''failed to SetupHostNetwork'' (findPrimaryInterfaceName api primaryMAC)) (\<lambda>intf.
               bindG (wrapG (''failed to configure '' @ intf @ '' RPF check'')
                        (setProcSys api (''/proc/sys/net/ipv4/conf/'' @ intf @ ''/rp_filter'') ''2'')) (\<lambda>_.
               retG intf))
             else retG ''eth0'') (\<lambda>primaryIntf.
      bindG (allowG containsNoSuchRule ''host network setup: failed to delete old main ENI rule''
               (RuleDel api mainENIRule)) (\<lambda>_.
      bindG (if ln_nodePortSupportEnabled n then
               wrapG ''host network setup: failed to add main ENI rule'' (RuleAdd api mainENIRule)
             else retG ()) (\<lambda>_.
      bindG (wrapG ''host network setup: failed to create iptables'' (newIptables api)) (\<lambda>_.
      bindG (wrapG ''host network setup: failed to get SNAT chain rules to clear''
               (listCurrentSNATRules api)) (\<lambda>current.
      bindG (forG [0..<Suc (length (allCIDRs n vpcCIDRs))] (\<lambda>i.
               allowG containChainExistErr ''host network setup: failed to add chain''
                 (ipt_NewChain api ''nat'' (chainName i)))) (\<lambda>_.
      bindG (getG (HasRandomFully api)) (\<lambda>randomFully.
      let wanted = snatRules n randomFully vpcCIDRs primaryAddr in
      forG (wanted @ staleRules current wanted @ connmarkRules n primaryIntf @
            [oldSNATRule vpcCIDR primaryAddr]) (syncRule api))))))))))"

section \<open>Setting up the network of an ENI\<close>

text \<open>
  \<open>left\<close> attempts remain; the pause comes before every attempt but the first, and the last
  error is returned.
\<close>

definition attemptSuffix :: "nat \<Rightarrow> string" where
  "attemptSuffix attempt = '' (attempt '' @ natToStr attempt @ ''/'' @ natToStr maxAttemptsLinkByMac @ '')''"

fun linkByMac_loop :: "nat \<Rightarrow> nat \<Rightarrow> goerr \<Rightarrow> string \<Rightarrow> 'e NetAPI \<Rightarrow> duration \<Rightarrow> ('e, Link) go" where
  "linkByMac_loop 0 attempt lastErr mac api retryInterval = errG lastErr"
| "linkByMac_loop (Suc left) attempt lastErr mac api retryInterval =
     bindG (if attempt > 1 then modG (nSleep api retryInterval) else retG ()) (\<lambda>_.
     bindG (tryG (LinkList api)) (\<lambda>r.
     case r of
       Inl err \<Rightarrow>
         linkByMac_loop left (attempt + 1) (NewErr (Error err @ attemptSuffix attempt)) mac api retryInterval
     | Inr links \<Rightarrow>
         (case find (\<lambda>l. mac = l_HardwareAddr l) links of
            Some link \<Rightarrow> retG link
          | None \<Rightarrow>
              linkByMac_loop left (attempt + 1)
                (NewErr (''no interface found which uses mac address '' @ mac @ attemptSuffix attempt))
                mac api retryInterval)))"

definition LinkByMac :: "string \<Rightarrow> 'e NetAPI \<Rightarrow> duration \<Rightarrow> ('e, Link) go" where
  "LinkByMac mac api retryInterval =
     linkByMac_loop maxAttemptsLinkByMac 1 (NewErr '''') mac api retryInterval"

definition quoteIP :: "goIP \<Rightarrow> string" where
  "quoteIP ip = [CHR 0x22] @ IPString (Some ip) @ [CHR 0x22]"

text \<open>The next address; the comparison with all ones guards the wrap-around of \<^verbatim>\<open>intIP++\<close>.\<close>

definition incrementIPv4Addr :: "goIP \<Rightarrow> (32 word) res" where
  "incrementIPv4Addr ip =
     (case To4 ip of
        None \<Rightarrow> Err (NewErr (quoteIP ip @ '' is not a valid IPv4 Address''))
      | Some intIP \<Rightarrow>
          if intIP = 2 ^ 32 - 1 then Err (NewErr (quoteIP ip @ '' will be overflowed''))
          else Val (intIP + 1))"

text \<open>\<open>left\<close> counts the retries that remain after an unreachable network.\<close>

fun routeAdd_loop :: "nat \<Rightarrow> Route \<Rightarrow> string \<Rightarrow> string \<Rightarrow> 'e NetAPI \<Rightarrow> duration \<Rightarrow> ('e, unit) go" where
  "routeAdd_loop left r dst via api retryInterval =
     bindG (tryG (RouteAdd api r)) (\<lambda>x.
     case x of
       Inr _ \<Rightarrow> retG ()
     | Inl err \<Rightarrow>
         if IsNetworkUnreachableError err then
           (case left of
              0 \<Rightarrow> errG (WrapErr (''setupENINetwork: failed to add route '' @ dst @ ''/0 via '' @ via) err)
            | Suc k \<Rightarrow> bindG (modG (nSleep api retryInterval)) (\<lambda>_.
                       routeAdd_loop k r dst via api retryInterval))
         else if IsRouteExistsError err then
           wrapG (''setupENINetwork: unable to replace route entry '' @ dst) (RouteReplace api r)
         else errG (WrapErr (''setupENINetwork: unable to add route '' @ dst @ ''/0 via '' @ via) err))"

declare routeAdd_loop.simps [simp del]

definition eniRoutes :: "int \<Rightarrow> 32 word \<Rightarrow> int \<Rightarrow> Route list" where
  "eniRoutes deviceNumber gw eniTable =
     [\<lparr>LinkIndex = deviceNumber, rt_Dst = Some (Some (V4 gw), 32, 32), rt_Scope = SCOPE_LINK,
       rt_Gw = None, rt_Src = None, rt_Table = eniTable\<rparr>,
      \<lparr>LinkIndex = deviceNumber, rt_Dst = Some (Some (V4 0), 0, 32), rt_Scope = SCOPE_UNIVERSE,
       rt_Gw = Some (V4 gw), rt_Src = None, rt_Table = eniTable\<rparr>]"

definition routeDst :: "Route \<Rightarrow> string" where
  "routeDst r = (case rt_Dst r of None \<Rightarrow> ''<nil>'' | Some (ip, _) \<Rightarrow> IPString ip)"

definition netLen :: "goNet \<Rightarrow> nat" where
  "netLen n = (case n of Net4 m \<Rightarrow> prefixLen m | Net6 _ k \<Rightarrow> k)"

definition setupENINetwork ::
  "string \<Rightarrow> string \<Rightarrow> int \<Rightarrow> string \<Rightarrow> 'e NetAPI \<Rightarrow> duration \<Rightarrow> duration \<Rightarrow> ('e, unit) go" where
  "setupENINetwork eniIP eniMAC eniTable eniSubnetCIDR api retryLink retryRoute =
     (if eniTable = 0 then retG ()
      else
        bindG (wrapG (''setupENINetwork: failed to find the link which uses MAC address '' @ eniMAC)
                 (LinkByMac eniMAC api retryLink)) (\<lambda>link.
        bindG (wrapG (''setupENINetwork: failed to set MTU for '' @ eniIP)
                 (LinkSetMTU api link ethernetMTU)) (\<lambda>_.
        bindG (wrapG (''setupENINetwork: failed to bring up ENI '' @ eniIP) (LinkSetUp api link)) (\<lambda>_.
        bindG (wrapG (''setupENINetwork: invalid IPv4 CIDR block '' @ eniSubnetCIDR)
                 (resG (ParseCIDR eniSubnetCIDR))) (\<lambda>(_, ipnet).
        bindG (wrapG (''setupENINetwork: failed to define gateway address from '' @
                      IPString (Some (netAddr ipnet)))
                 (resG (incrementIPv4Addr (netAddr ipnet)))) (\<lambda>gw.
        bindG (wrapG ''setupENINetwork: failed to list IP address for ENI'' (AddrList api link)) (\<lambda>addrs.
        bindG (forG addrs (\<lambda>addr. wrapG ''setupENINetwork: failed to delete IP addr from ENI''
                                    (AddrDel api link addr))) (\<lambda>_.
        bindG (wrapG ''setupENINetwork: failed to add IP addr to ENI''
                 (AddrAdd api link (ParseIP eniIP) (netLen ipnet))) (\<lambda>_.
        bindG (forG (eniRoutes (l_Index link) gw eniTable) (\<lambda>r.
                 bindG (allowG IsNotExistsError ''setupENINetwork: failed to clean up old routes''
                          (RouteDel api r)) (\<lambda>_.
                 routeAdd_loop maxRetryRouteAdd r (routeDst r)
                   (IPv4String gw @ '' table '' @ Itoa eniTable) api retryRoute))) (\<lambda>_.
        allowG IsNotExistsError
          (''setupENINetwork: unable to delete default route '' @ IPNetString ipnet @
           '' for source IP '' @ eniIP)
          (RouteDel api \<lparr>LinkIndex = 0, rt_Dst = Some (ofNet ipnet), rt_Scope = SCOPE_LINK, rt_Gw = None,
             rt_Src = ParseIP eniIP, rt_Table = mainRoutingTable\<rparr>)))))))))))"

definition SetupENINetwork :: "'e NetAPI \<Rightarrow> string \<Rightarrow> string \<Rightarrow> int \<Rightarrow> string \<Rightarrow> ('e, unit) go" where
  "SetupENINetwork api eniIP eniMAC eniTable eniSubnetCIDR =
     setupENINetwork eniIP eniMAC eniTable eniSubnetCIDR api retryLinkByMacInterval retryRouteAddInterval"

section \<open>The rules of a pod\<close>

text \<open>\<^verbatim>\<open>IP.Equal\<close>: an IPv4 address equals its 16-byte form; nil equals nil.\<close>

definition ipEqual :: "goIP option \<Rightarrow> goIP option \<Rightarrow> bool" where
  "ipEqual a b = (case (a, b) of
      (None, None) \<Rightarrow> True
    | (Some x, Some y) \<Rightarrow> (case (To4 x, To4 y) of (Some v, Some w) \<Rightarrow> v = w | _ \<Rightarrow> x = y)
    | _ \<Rightarrow> False)"

definition GetRuleList :: "'e NetAPI \<Rightarrow> ('e, Rule list) go" where
  "GetRuleList api = RuleList api"

definition GetRuleListBySrc :: "Rule list \<Rightarrow> goIP option \<Rightarrow> Rule list" where
  "GetRuleListBySrc ruleList src =
     filter (\<lambda>rule. case r_Src rule of None \<Rightarrow> False | Some (ip, _) \<Rightarrow> ipEqual ip src) ruleList"

definition DeleteRuleListBySrc :: "'e NetAPI \<Rightarrow> goIP option \<Rightarrow> ('e, unit) go" where
  "DeleteRuleListBySrc api src =
     bindG (GetRuleList api) (\<lambda>ruleList.
     forG (GetRuleListBySrc ruleList src) (\<lambda>rule.
       allowG containsNoSuchRule ''DeleteRuleListBySrc: failed to delete old rule'' (RuleDel api rule)))"

definition podRule :: "'e NetAPI \<Rightarrow> goIP option \<Rightarrow> int \<Rightarrow> ipNet option \<Rightarrow> Rule" where
  "podRule api src table dst = (NewRule api)\<lparr>r_Dst := dst, r_Src := Some (src, 32, 32), r_Table := table,
     r_Priority := fromPodRulePriority\<rparr>"

definition UpdateRuleListBySrc ::
  "'e NetAPI \<Rightarrow> linuxNetwork \<Rightarrow> Rule list \<Rightarrow> goIP option \<Rightarrow> string list \<Rightarrow> bool \<Rightarrow> ('e, unit) go" where
  "UpdateRuleListBySrc api n ruleList src toCIDRs requiresSNAT =
     (let srcRuleList = GetRuleListBySrc ruleList src;
          srcRuleTable = (if srcRuleList = [] then 0 else r_Table (last srcRuleList)) in
      bindG (forG srcRuleList (\<lambda>rule.
               allowG containsNoSuchRule ''UpdateRuleListBySrc: failed to delete old rule''
                 (RuleDel api rule))) (\<lambda>_.
      if srcRuleList = [] then retG ()
      else if requiresSNAT then
        forG (toCIDRs @ ln_excludeSNATCIDRs n) (\<lambda>cidr.
          wrapG (''UpdateRuleListBySrc: failed to add pod rule for CIDR '' @ cidr)
            (RuleAdd api (podRule api src srcRuleTable
               (case ParseCIDR cidr of Val (_, dst) \<Rightarrow> Some (ofNet dst) | _ \<Rightarrow> None))))
      else
        wrapG ''UpdateRuleListBySrc: failed to add pod rule''
          (RuleAdd api (podRule api src srcRuleTable None))))"

end
