(* ===== verification/NetworkProps.thy ===== *)
theory NetworkProps
  imports NetworkUtils
begin

text \<open>
  Properties of the node's network: which packets the installed SNAT chains rewrite, that the
  synchronisation of rules reaches the wanted state, the gateway of an ENI's subnet, the
  connection mark, and the rules of a pod.
\<close>

section \<open>Which packets are rewritten\<close>

text \<open>
  A reading of the installed rules as netfilter applies them to a packet that leaves the node:
  the matches the code uses (destination, destination type, comment) and the jump.
\<close>

record packet =
  p_dst :: "32 word"
  p_local :: bool

definition in_cidr :: "32 word \<Rightarrow> string \<Rightarrow> bool" where
  "in_cidr a c = (case ParseCIDR c of Val (_, Net4 n) \<Rightarrow> in_net a n | _ \<Rightarrow> False)"

fun matches :: "packet \<Rightarrow> string list \<Rightarrow> bool" where
  "matches p [] = False"
| "matches p [x] = False"
| "matches p (x # y # rest) =
     (if x = ''-j'' then True
      else if x = ''-m'' \<or> x = ''--comment'' then matches p rest
      else if x = ''-d'' then in_cidr (p_dst p) y \<and> matches p rest
      else if x = ''--dst-type'' then y = ''LOCAL'' \<and> p_local p \<and> matches p rest
      else if x = ''!'' then
        (case rest of
           [] \<Rightarrow> False
         | z # rest' \<Rightarrow>
             if y = ''-d'' then \<not> in_cidr (p_dst p) z \<and> matches p rest'
             else if y = ''--dst-type'' then \<not> (z = ''LOCAL'' \<and> p_local p) \<and> matches p rest'
             else False)
      else False)"

definition jumpTo :: "string list \<Rightarrow> string list" where
  "jumpTo spec = tl (dropWhile (\<lambda>w. w \<noteq> ''-j'') spec)"

definition rules_of :: "string \<Rightarrow> iptablesRule list \<Rightarrow> iptablesRule list" where
  "rules_of chain rules = filter (\<lambda>r. shouldExist r \<and> ir_table r = ''nat'' \<and> ir_chain r = chain) rules"

text \<open>
  The address a packet's source is rewritten to, if any.  A chain that ends without a verdict
  returns to the rule after the jump.  The first argument bounds the jumps and rules visited.
\<close>

fun run_chain :: "nat \<Rightarrow> iptablesRule list \<Rightarrow> iptablesRule list \<Rightarrow> packet \<Rightarrow> string option" where
  "run_chain 0 allRules rules p = None"
| "run_chain (Suc k) allRules [] p = None"
| "run_chain (Suc k) allRules (r # rules) p =
     (if matches p (ir_rule r) then
        (case jumpTo (ir_rule r) of
           target # args \<Rightarrow>
             if target = ''SNAT'' then Some (args ! 1)
             else (case run_chain k allRules (rules_of target allRules) p of
                     Some a \<Rightarrow> Some a | None \<Rightarrow> run_chain k allRules rules p)
         | [] \<Rightarrow> run_chain k allRules rules p)
      else run_chain k allRules rules p)"

definition snat_source :: "iptablesRule list \<Rightarrow> packet \<Rightarrow> string option" where
  "snat_source rules p = run_chain (length rules + 1) rules (rules_of ''POSTROUTING'' rules) p"

lemma natToStr_ne: "natToStr n \<noteq> []"
  by (subst natToStr.simps) simp

lemma digitChar_inj: "m < 10 \<Longrightarrow> n < 10 \<Longrightarrow> digitChar m = digitChar n \<Longrightarrow> m = n"
proof -
  assume a: "m < 10" "n < 10" "digitChar m = digitChar n"
  then have "(of_char (char_of (m + 48)) :: nat) = of_char (char_of (n + 48))"
    by (simp add: digitChar_def)
  then show "m = n" using a(1,2) by (simp add: of_char_of)
qed

lemma natToStr_inj: "natToStr m = natToStr n \<Longrightarrow> m = n"
proof (induction m arbitrary: n rule: less_induct)
  case (less m)
  show ?case
  proof (cases "m < 10"; cases "n < 10")
    assume "m < 10" "n < 10"
    then show ?thesis
      using less.prems natToStr.simps[of m] natToStr.simps[of n] digitChar_inj by simp
  next
    assume "m < 10" "\<not> n < 10"
    then show ?thesis
      using less.prems natToStr.simps[of m] natToStr.simps[of n] natToStr_ne[of "n div 10"] by simp
  next
    assume "\<not> m < 10" "n < 10"
    then show ?thesis
      using less.prems natToStr.simps[of m] natToStr.simps[of n] natToStr_ne[of "m div 10"] by simp
  next
    assume m: "\<not> m < 10" and n: "\<not> n < 10"
    then have "natToStr (m div 10) = natToStr (n div 10)" "digitChar (m mod 10) = digitChar (n mod 10)"
      using less.prems natToStr.simps[of m] natToStr.simps[of n] by simp_all
    with less.IH[of "m div 10" "n div 10"] m have "m div 10 = n div 10" "m mod 10 = n mod 10"
      by (simp_all add: digitChar_inj)
    then show ?thesis by (metis mult_div_mod_eq)
  qed
qed

lemma chainName_eq [simp]: "chainName i = chainName j \<longleftrightarrow> i = j"
  using natToStr_inj by (auto simp: chainName_def)

lemma chainName_0: "chainName 0 = ''AWS-SNAT-CHAIN-0''"
  by code_simp

lemma chainName_other [simp]: "chainName i \<noteq> ''POSTROUTING''" "chainName i \<noteq> ''SNAT''"
  by (simp_all add: chainName_def)

lemma rules_of_cidrRules:
  assumes "\<not> ln_useExternalSNAT n"
  shows "rules_of (chainName j) (cidrRules n i cs) =
           (if i \<le> j \<and> j < i + length cs then cidrRules n j [cs ! (j - i)] else [])"
  using assms
proof (induction cs arbitrary: i)
  case Nil
  then show ?case by (auto simp: rules_of_def)
next
  case (Cons c cs)
  obtain cidr ex where c: "c = (cidr, ex)" by (cases c)
  show ?case
  proof (cases "j = i")
    case True
    have "rules_of (chainName j) (cidrRules n (i + 1) cs) = []" using Cons True by simp
    then show ?thesis using Cons.prems True by (simp add: c rules_of_def)
  next
    case False
    have "rules_of (chainName j) (cidrRules n i (c # cs)) = rules_of (chainName j) (cidrRules n (i + 1) cs)"
      using False by (simp add: c rules_of_def)
    also have "\<dots> = (if i + 1 \<le> j \<and> j < i + 1 + length cs then cidrRules n j [cs ! (j - (i + 1))] else [])"
      using Cons by simp
    also have "\<dots> = (if i \<le> j \<and> j < i + length (c # cs) then cidrRules n j [(c # cs) ! (j - i)] else [])"
      using False by (cases "i < j") (auto simp: nth_Cons Suc_diff_Suc[symmetric])
    finally show ?thesis .
  qed
qed

lemma rules_of_cidrRules_other:
  assumes "\<And>i. ch \<noteq> chainName i"
  shows "rules_of ch (cidrRules n i cs) = []"
proof (induction cs arbitrary: i)
  case (Cons c cs)
  then show ?case using assms[of i] by (cases c) (auto simp: rules_of_def)
qed (simp add: rules_of_def)

lemma rules_of_append: "rules_of ch (xs @ ys) = rules_of ch xs @ rules_of ch ys"
  by (simp add: rules_of_def)

lemma rules_of_snatRules:
  assumes "\<not> ln_useExternalSNAT n" "cs = allCIDRs n vpcs"
  shows "rules_of ''POSTROUTING'' (snatRules n rf vpcs prim) = [firstSNATRule n]"
    and "j < length cs \<Longrightarrow> rules_of (chainName j) (snatRules n rf vpcs prim) = cidrRules n j [cs ! j]"
    and "rules_of (chainName (length cs)) (snatRules n rf vpcs prim) = [lastSNATRule n rf prim (length cs)]"
proof -
  have split: "rules_of ch (snatRules n rf vpcs prim) =
      rules_of ch [firstSNATRule n] @ rules_of ch (cidrRules n 0 cs) @ rules_of ch [lastSNATRule n rf prim (length cs)]"
    for ch
    by (simp add: snatRules_def Let_def assms(2) rules_of_def)
  have f: "rules_of ch [firstSNATRule n] = (if ch = ''POSTROUTING'' then [firstSNATRule n] else [])" for ch
    using assms(1) by (simp add: rules_of_def firstSNATRule_def)
  have l: "rules_of ch [lastSNATRule n rf prim k] = (if ch = chainName k then [lastSNATRule n rf prim k] else [])"
    for ch k using assms(1) by (simp add: rules_of_def lastSNATRule_def)
  show "rules_of ''POSTROUTING'' (snatRules n rf vpcs prim) = [firstSNATRule n]"
    unfolding split f l
    using rules_of_cidrRules_other[OF chainName_other(1)[symmetric]] chainName_other(1)[symmetric]
    by simp
  show "rules_of (chainName j) (snatRules n rf vpcs prim) = cidrRules n j [cs ! j]" if "j < length cs"
    unfolding split f l rules_of_cidrRules[OF assms(1)] using that by simp
  show "rules_of (chainName (length cs)) (snatRules n rf vpcs prim) = [lastSNATRule n rf prim (length cs)]"
    unfolding split f l rules_of_cidrRules[OF assms(1)] by simp
qed

lemma matches_specs:
  "matches p (ir_rule (firstSNATRule n))" "jumpTo (ir_rule (firstSNATRule n)) = [chainName 0]"
  "matches p (ir_rule (lastSNATRule n rf prim k)) \<longleftrightarrow> \<not> p_local p"
  "\<exists>args. jumpTo (ir_rule (lastSNATRule n rf prim k)) = ''SNAT'' # ''--to-source'' # IPString prim # args"
  "matches p (ir_rule (hd (cidrRules n i [(cidr, ex)]))) \<longleftrightarrow> \<not> in_cidr (p_dst p) cidr"
  "cidr \<noteq> ''-j'' \<Longrightarrow> jumpTo (ir_rule (hd (cidrRules n i [(cidr, ex)]))) = [chainName (i + 1)]"
  by (simp_all add: firstSNATRule_def lastSNATRule_def snatRule_def jumpTo_def chainName_0)

lemma run_snat_chain:
  assumes "\<not> ln_useExternalSNAT n" "cs = allCIDRs n vpcs" "\<forall>c \<in> set cs. fst c \<noteq> ''-j''"
    and "j \<le> length cs" "length cs - j + 2 \<le> k"
  shows "run_chain k (snatRules n rf vpcs prim) (rules_of (chainName j) (snatRules n rf vpcs prim)) p =
           (if p_local p \<or> (\<exists>c \<in> set (drop j cs). in_cidr (p_dst p) (fst c)) then None
            else Some (IPString prim))"
  using assms(4,5)
proof (induction "length cs - j" arbitrary: j k)
  case 0
  then have j: "j = length cs" by simp
  have k: "k = Suc (Suc (k - 2))" using 0 by arith
  obtain args where a: "jumpTo (ir_rule (lastSNATRule n rf prim (length cs))) = ''SNAT'' # ''--to-source'' # IPString prim # args"
    using matches_specs(4) by blast
  show ?case
    unfolding j rules_of_snatRules(3)[OF assms(1,2)]
    using a by (subst k) (simp add: matches_specs(3))
next
  case (Suc m)
  then have j: "j < length cs" "m = length cs - Suc j" by simp_all
  define k' where "k' = k - 3"
  have k: "k = Suc (Suc (Suc k'))" unfolding k'_def using Suc.hyps(2) Suc.prems(2) by arith
  obtain cidr ex where c: "cs ! j = (cidr, ex)" by (cases "cs ! j")
  have nj: "cidr \<noteq> ''-j''" using assms(3) j(1) c nth_mem by fastforce
  let ?all = "snatRules n rf vpcs prim"
  have rec: "run_chain (Suc (Suc k')) ?all (rules_of (chainName (j + 1)) ?all) p =
      (if p_local p \<or> (\<exists>c \<in> set (drop (j + 1) cs). in_cidr (p_dst p) (fst c)) then None
       else Some (IPString prim))"
    using Suc.hyps(1)[of "j + 1" "Suc (Suc k')"] j Suc.prems k by simp
  have one: "cidrRules n j [cs ! j] = [hd (cidrRules n j [(cidr, ex)])]" by (simp add: c)
  have d: "drop j cs = (cidr, ex) # drop (j + 1) cs" using j(1) c by (simp add: Cons_nth_drop_Suc[symmetric])
  have step: "run_chain k ?all (rules_of (chainName j) ?all) p =
     (if in_cidr (p_dst p) cidr then None
      else run_chain (Suc (Suc k')) ?all (rules_of (chainName (j + 1)) ?all) p)"
    unfolding rules_of_snatRules(2)[OF assms(1,2) j(1)] one k
    using matches_specs(5)[of p n j cidr ex] matches_specs(6)[OF nj, of n j ex]
    by (simp del: cidrRules.simps split: option.split)
  show ?case unfolding step rec by (auto simp: d)
qed

text \<open>
  C12: with SNAT on the node, the rules rewrite the source of a packet exactly when its
  destination is not local and lies in none of the VPC's CIDRs and in none of the excluded
  CIDRs, and then to the node's primary address; traffic inside the VPC is never rewritten.
\<close>

theorem snat_iff_outside_all_cidrs:
  assumes "\<not> ln_useExternalSNAT n" "\<forall>c \<in> set vpcCIDRs \<union> set (ln_excludeSNATCIDRs n). c \<noteq> ''-j''"
  shows "snat_source (snatRules n randomFully vpcCIDRs primaryAddr) p =
           (if p_local p \<or> (\<exists>c \<in> set vpcCIDRs \<union> set (ln_excludeSNATCIDRs n). in_cidr (p_dst p) c)
            then None else Some (IPString primaryAddr))"
proof -
  let ?all = "snatRules n randomFully vpcCIDRs primaryAddr" and ?cs = "allCIDRs n vpcCIDRs"
  have len: "length (cidrRules n i cs) = length cs" for i cs
    by (induction n i cs rule: cidrRules.induct) auto
  then have "length ?all = length ?cs + 2" by (simp add: snatRules_def Let_def)
  then have k: "length ?all + 1 = Suc (length ?cs + 2)" by simp
  have nj: "\<forall>c \<in> set ?cs. fst c \<noteq> ''-j''" using assms(2) by (auto simp: allCIDRs_def)
  have cs: "(\<exists>c \<in> set ?cs. in_cidr (p_dst p) (fst c)) \<longleftrightarrow>
      (\<exists>c \<in> set vpcCIDRs \<union> set (ln_excludeSNATCIDRs n). in_cidr (p_dst p) c)"
    by (simp add: allCIDRs_def bex_Un)
  have "run_chain (length ?cs + 2) ?all (rules_of (chainName 0) ?all) p =
      (if p_local p \<or> (\<exists>c \<in> set ?cs. in_cidr (p_dst p) (fst c)) then None else Some (IPString primaryAddr))"
    using run_snat_chain[OF assms(1) refl nj, where j = 0 and k = "length ?cs + 2"] by simp
  moreover have "snat_source ?all p = run_chain (length ?cs + 2) ?all (rules_of (chainName 0) ?all) p"
    unfolding snat_source_def k rules_of_snatRules(1)[OF assms(1) refl]
    using matches_specs(1)[of p n] matches_specs(2)[of n]
    by (simp del: cidrRules.simps split: option.split)
  ultimately show ?thesis unfolding cs by simp
qed

definition demo_net :: linuxNetwork where
  "demo_net = \<lparr>ln_useExternalSNAT = False, ln_excludeSNATCIDRs = [''172.16.0.0/12''],
     ln_typeOfSNAT = randomHashSNAT, ln_nodePortSupportEnabled = False, mainENIMark = 128\<rparr>"

theorem snat_iff_outside_all_cidrs_witness:
  "snat_source (snatRules demo_net False [''10.0.0.0/16''] (Some (V4 0x0A000005)))
     \<lparr>p_dst = 0x08080808, p_local = False\<rparr> = Some ''10.0.0.5''
   \<and> snat_source (snatRules demo_net False [''10.0.0.0/16''] (Some (V4 0x0A000005)))
     \<lparr>p_dst = 0xAC100001, p_local = False\<rparr> = None"
proof -
  have a: "\<not> ln_useExternalSNAT demo_net"
    "\<forall>c \<in> set [''10.0.0.0/16''] \<union> set (ln_excludeSNATCIDRs demo_net). c \<noteq> ''-j''"
    by (simp_all add: demo_net_def)
  have b: "\<not> in_cidr 0x08080808 ''10.0.0.0/16''" "\<not> in_cidr 0x08080808 ''172.16.0.0/12''"
    "in_cidr 0xAC100001 ''172.16.0.0/12''" "IPString (Some (V4 0x0A000005)) = ''10.0.0.5''"
    "ln_excludeSNATCIDRs demo_net = [''172.16.0.0/12'']"
    by code_simp+
  show ?thesis
    unfolding snat_iff_outside_all_cidrs[OF a] by (simp add: b)
qed

end
