(* ===== verification/CniDriver.thy ===== *)
theory CniDriver
  imports NetworkUtils
begin

text \<open>
  The network of one pod: \<^verbatim>\<open>plugins/routed-eni/driver/driver.go\<close>.  The plugin runs in its own
  process; the kernel is a parameter, the fields of \<open>'e DriverAPI\<close>, which extends the network
  client's.  \<open>WithNetNSPath path f\<close> runs \<open>f\<close> in the network namespace at \<open>path\<close> and gives it the
  descriptor of the host's; what the netlink calls inside \<open>f\<close> act on is up to the parameter.
  Log lines are left out.
\<close>

definition toContainerRulePriority :: int where "toContainerRulePriority = 512"
definition fromContainerRulePriority :: int where "fromContainerRulePriority = 1536"
definition mainRouteTable :: int where "mainRouteTable = 254"
definition vethMTU :: int where "vethMTU = 9001"

record Veth =
  v_Name :: string
  v_Up :: bool
  v_MTU :: int
  PeerName :: string

datatype neighState = NUD_PERMANENT

record Neigh =
  n_LinkIndex :: int
  n_State :: neighState
  n_IP :: goIP
  n_HardwareAddr :: string

record 'e DriverAPI = "'e NetAPI" +
  LinkAdd :: "Veth \<Rightarrow> ('e, unit) go"
  LinkByName :: "string \<Rightarrow> ('e, Link) go"
  LinkDel :: "Link \<Rightarrow> ('e, unit) go"
  LinkSetNsFd :: "Link \<Rightarrow> int \<Rightarrow> ('e, unit) go"
  NeighAdd :: "Neigh \<Rightarrow> ('e, unit) go"
  AddrAddNet :: "Link \<Rightarrow> ipNet \<Rightarrow> ('e, unit) go"
  AddDefaultRoute :: "goIP \<Rightarrow> Link \<Rightarrow> ('e, unit) go"
  WithNetNSPath :: "string \<Rightarrow> (int \<Rightarrow> ('e, unit) go) \<Rightarrow> ('e, unit) go"

section \<open>Printing\<close>

text \<open>\<^verbatim>\<open>%q\<close> of a string of ASCII characters.\<close>

definition quoteChar :: "char \<Rightarrow> string" where
  "quoteChar c =
     (let n = (of_char c :: nat); bs = CHR 0x5C in
      if n = 0x22 \<or> n = 0x5C then [bs, c]
      else if n = 7 then [bs, CHR ''a''] else if n = 8 then [bs, CHR ''b'']
      else if n = 12 then [bs, CHR ''f''] else if n = 10 then [bs, CHR ''n'']
      else if n = 13 then [bs, CHR ''r''] else if n = 9 then [bs, CHR ''t'']
      else if n = 11 then [bs, CHR ''v'']
      else if n < 32 \<or> 126 < n then [bs, CHR ''x'', hexChar (int n div 16), hexChar (int n mod 16)]
      else [c])"

definition quoteString :: "string \<Rightarrow> string" where
  "quoteString s = [dquote] @ concat (map quoteChar s) @ [dquote]"

text \<open>
  \<^verbatim>\<open>IPNet.String\<close>: an IPv4 address with a 16-byte mask prints the mask's last 32 bits; a mask of
  another length than the address, or no address, prints nil.
\<close>

definition ipNetString :: "ipNet \<Rightarrow> string" where
  "ipNetString net =
     (case net of (ip, ones, bits) \<Rightarrow>
        (case ip of
           None \<Rightarrow> ''<nil>''
         | Some a \<Rightarrow>
             (case To4 a of
                Some w \<Rightarrow> IPv4String w @ ''/'' @ natToStr (if bits = 128 then ones - 96 else ones)
              | None \<Rightarrow> if bits = 32 then ''<nil>''
                        else IPString ip @ ''/'' @ natToStr ones)))"

definition netRuleString :: "Rule \<Rightarrow> string" where
  "netRuleString r = ''ip rule '' @ Itoa (r_Priority r) @ '': from '' @
     (case r_Src r of None \<Rightarrow> ''<nil>'' | Some n \<Rightarrow> ipNetString n) @ '' table '' @ Itoa (r_Table r)"

section \<open>In the container's namespace\<close>

definition gwIP :: goIP where
  "gwIP = V4 0xA9FE0101"

definition createVethPair_run :: "'e DriverAPI \<Rightarrow> string \<Rightarrow> string \<Rightarrow> ipNet \<Rightarrow> int \<Rightarrow> ('e, unit) go" where
  "createVethPair_run api contVethName hostVethName addr hostNS =
     bindG (LinkAdd api \<lparr>v_Name = contVethName, v_Up = True, v_MTU = vethMTU, PeerName = hostVethName\<rparr>) (\<lambda>_.
     bindG (wrapG (''setup NS network: failed to find link '' @ quoteString hostVethName)
              (LinkByName api hostVethName)) (\<lambda>hostVeth.
     bindG (wrapG (''setup NS network: failed to set link '' @ quoteString hostVethName @ '' up'')
              (LinkSetUp api hostVeth)) (\<lambda>_.
     bindG (wrapG (''setup NS network: failed to find link '' @ quoteString contVethName)
              (LinkByName api contVethName)) (\<lambda>contVeth.
     bindG (wrapG (''setup NS network: failed to set link '' @ quoteString contVethName @ '' up'')
              (LinkSetUp api contVeth)) (\<lambda>_.
     bindG (wrapG ''setup NS network: failed to add default gateway''
              (RouteReplace api \<lparr>LinkIndex = l_Index contVeth, rt_Dst = Some (Some gwIP, 32, 32),
                 rt_Scope = SCOPE_LINK, rt_Gw = None, rt_Src = None, rt_Table = 0\<rparr>)) (\<lambda>_.
     bindG (wrapG ''setup NS network: failed to add default route''
              (AddDefaultRoute api gwIP contVeth)) (\<lambda>_.
     bindG (wrapG (''setup NS network: failed to add IP addr to '' @ quoteString contVethName)
              (AddrAddNet api contVeth addr)) (\<lambda>_.
     bindG (wrapG ''setup NS network: failed to add static ARP''
              (NeighAdd api \<lparr>n_LinkIndex = l_Index contVeth, n_State = NUD_PERMANENT, n_IP = gwIP,
                 n_HardwareAddr = l_HardwareAddr hostVeth\<rparr>)) (\<lambda>_.
     wrapG ''setup NS network: failed to move veth to host netns''
       (LinkSetNsFd api hostVeth hostNS))))))))))"

section \<open>Rules and routes on the host\<close>

definition isRuleExistsError :: "goerr \<Rightarrow> bool" where
  "isRuleExistsError err = (case err of Errno n _ \<Rightarrow> n = 17 | _ \<Rightarrow> False)"

text \<open>\<^verbatim>\<open>containsNoSuchRule\<close> is the same as the network client's.\<close>

definition containerRule :: "'e DriverAPI \<Rightarrow> bool \<Rightarrow> ipNet \<Rightarrow> int \<Rightarrow> int \<Rightarrow> Rule" where
  "containerRule api isToContainer addr priority table =
     (if isToContainer then (NewRule api)\<lparr>r_Dst := Some addr\<rparr> else (NewRule api)\<lparr>r_Src := Some addr\<rparr>)
       \<lparr>r_Table := table, r_Priority := priority\<rparr>"

definition addContainerRule :: "'e DriverAPI \<Rightarrow> bool \<Rightarrow> ipNet \<Rightarrow> int \<Rightarrow> int \<Rightarrow> ('e, unit) go" where
  "addContainerRule api isToContainer addr priority table =
     (let rule = containerRule api isToContainer addr priority table in
      bindG (allowG containsNoSuchRule
               (''addContainerRule: failed to delete old container rule for '' @ ipNetString addr)
               (RuleDel api rule)) (\<lambda>_.
      wrapG (''addContainerRule: failed to add container rule for '' @ ipNetString addr)
        (RuleAdd api rule)))"

definition podCIDRRule :: "'e DriverAPI \<Rightarrow> ipNet \<Rightarrow> int \<Rightarrow> string \<Rightarrow> Rule" where
  "podCIDRRule api addr table cidr =
     (NewRule api)\<lparr>r_Dst := (case ParseCIDR cidr of Val (_, dst) \<Rightarrow> Some (ofNet dst) | _ \<Rightarrow> None),
       r_Src := Some addr, r_Table := table, r_Priority := fromContainerRulePriority\<rparr>"

definition hostRoute :: "int \<Rightarrow> ipNet \<Rightarrow> Route" where
  "hostRoute index addr = \<lparr>LinkIndex = index, rt_Dst = Some (fst addr, 32, 32), rt_Scope = SCOPE_LINK,
     rt_Gw = None, rt_Src = None, rt_Table = 0\<rparr>"

definition setupNS ::
  "'e DriverAPI \<Rightarrow> string \<Rightarrow> string \<Rightarrow> string \<Rightarrow> ipNet \<Rightarrow> int \<Rightarrow> string list \<Rightarrow> bool \<Rightarrow> ('e, unit) go" where
  "setupNS api hostVethName contVethName netnsPath addr table vpcCIDRs externalSNAT =
     bindG (tryG (LinkByName api hostVethName)) (\<lambda>old.
     bindG (case old of
              Inr oldHostVeth \<Rightarrow>
                wrapG (''setupNS network: failed to delete old hostVeth '' @ quoteString hostVethName)
                  (LinkDel api oldHostVeth)
            | Inl _ \<Rightarrow> retG ()) (\<lambda>_.
     bindG (wrapG ''setupNS network: failed to setup NS network''
              (WithNetNSPath api netnsPath (createVethPair_run api contVethName hostVethName addr))) (\<lambda>_.
     bindG (wrapG (''setupNS network: failed to find link '' @ quoteString hostVethName)
              (LinkByName api hostVethName)) (\<lambda>hostVeth.
     bindG (wrapG (''setupNS network: failed to set link '' @ quoteString hostVethName @ '' up'')
              (LinkSetUp api hostVeth)) (\<lambda>_.
     bindG (wrapG (''setupNS: unable to add or replace route entry for '' @ IPString (fst addr))
              (RouteReplace api (hostRoute (l_Index hostVeth) addr))) (\<lambda>_.
     bindG (wrapG ''setupNS network: failed to add toContainer''
              (addContainerRule api True addr toContainerRulePriority mainRouteTable)) (\<lambda>_.
     if table > 0 then
       if externalSNAT then
         wrapG ''add NS network: failed to add fromContainer rule''
           (addContainerRule api False addr fromContainerRulePriority table)
       else
         forG vpcCIDRs (\<lambda>cidr.
           let podRule = podCIDRRule api addr table cidr in
           allowG isRuleExistsError (''setupNS: failed to add pod rule ['' @ netRuleString podRule @ '']'')
             (RuleAdd api podRule))
     else retG ())))))))"

definition deleteRuleListBySrc :: "'e DriverAPI \<Rightarrow> ipNet \<Rightarrow> ('e, unit) go" where
  "deleteRuleListBySrc api src = DeleteRuleListBySrc (NetAPI.truncate api) (fst src)"

definition tearDownNS :: "'e DriverAPI \<Rightarrow> ipNet \<Rightarrow> int \<Rightarrow> ('e, unit) go" where
  "tearDownNS api addr table =
     bindG (ignoreG (RuleDel api ((NewRule api)\<lparr>r_Dst := Some addr, r_Priority := toContainerRulePriority\<rparr>))) (\<lambda>_.
     bindG (if table > 0 then
              wrapG (''delete NS network: failed to delete fromContainer rule for '' @ ipNetString addr)
                (deleteRuleListBySrc api addr)
            else retG ()) (\<lambda>_.
     ignoreG (RouteDel api (hostRoute 0 addr))))"

end
