(* ===== verification/DriverProps.thy ===== *)
theory DriverProps
  imports CniDriver
begin

text \<open>
  The driver and the kernel's policy rules: what setting up a pod adds, and that tearing it down
  removes exactly that.
\<close>

section \<open>What the driver relies on\<close>

text \<open>
  A delete request names the attributes that the rule must have (\<^verbatim>\<open>ip rule del\<close>): an address that
  is given, a table that is not 0 (unspecified), a priority, mark and mask that are not negative.
\<close>

definition rule_matches :: "Rule \<Rightarrow> Rule \<Rightarrow> bool" where
  "rule_matches pat x \<longleftrightarrow>
     (r_Src pat \<noteq> None \<longrightarrow> r_Src x = r_Src pat) \<and> (r_Dst pat \<noteq> None \<longrightarrow> r_Dst x = r_Dst pat) \<and>
     (r_Table pat \<noteq> 0 \<longrightarrow> r_Table x = r_Table pat) \<and> (0 \<le> r_Priority pat \<longrightarrow> r_Priority x = r_Priority pat) \<and>
     (0 \<le> r_Mark pat \<longrightarrow> r_Mark x = r_Mark pat) \<and> (0 \<le> r_Mask pat \<longrightarrow> r_Mask x = r_Mask pat)"

definition emptyRule :: Rule where
  "emptyRule = \<lparr>r_Src = None, r_Dst = None, r_Table = 0, r_Priority = -1, r_Invert = False, r_Mark = -1, r_Mask = -1\<rparr>"

text \<open>
  \<open>rules e\<close> is the set of policy rules of the host.  Adding a rule that is there fails with EEXIST;
  deleting removes one rule that the request matches, and fails with ENOENT only if there is none;
  a failed request changes nothing; the other calls leave the rules alone.
\<close>

definition add_law :: "('e, 'z) NetAPI_scheme \<Rightarrow> ('e \<Rightarrow> Rule set) \<Rightarrow> Rule \<Rightarrow> 'e \<Rightarrow> bool" where
  "add_law api rules r e \<longleftrightarrow>
     (case RuleAdd api r e of
        (Val _, e') \<Rightarrow> rules e' = insert r (rules e)
      | (Err err, e') \<Rightarrow> rules e' = rules e \<and> (isRuleExistsError err \<longrightarrow> r \<in> rules e)
      | (Panic _, e') \<Rightarrow> rules e' = rules e)"

definition del_law :: "('e, 'z) NetAPI_scheme \<Rightarrow> ('e \<Rightarrow> Rule set) \<Rightarrow> Rule \<Rightarrow> 'e \<Rightarrow> bool" where
  "del_law api rules r e \<longleftrightarrow>
     (case RuleDel api r e of
        (Val _, e') \<Rightarrow> (\<exists>x \<in> rules e. rule_matches r x \<and> rules e' = rules e - {x})
      | (Err err, e') \<Rightarrow> rules e' = rules e \<and> (containsNoSuchRule err \<longrightarrow> (\<forall>x \<in> rules e. \<not> rule_matches r x))
      | (Panic _, e') \<Rightarrow> rules e' = rules e)"

definition rule_laws :: "'e DriverAPI \<Rightarrow> ('e \<Rightarrow> Rule set) \<Rightarrow> bool" where
  "rule_laws api rules \<longleftrightarrow>
     NewRule api = emptyRule \<and> (\<forall>r e. add_law api rules r e) \<and> (\<forall>r e. del_law api rules r e) \<and>
     (\<forall>e. rules (snd (RuleList api e)) = rules e \<and> (\<forall>rs. fst (RuleList api e) = Val rs \<longrightarrow> set rs = rules e)) \<and>
     (\<forall>n e. rules (snd (LinkByName api n e)) = rules e) \<and> (\<forall>l e. rules (snd (LinkDel api l e)) = rules e) \<and>
     (\<forall>l e. rules (snd (LinkSetUp api l e)) = rules e) \<and> (\<forall>r e. rules (snd (RouteReplace api r e)) = rules e) \<and>
     (\<forall>r e. rules (snd (RouteDel api r e)) = rules e) \<and>
     (\<forall>p f e. rules (snd (WithNetNSPath api p f e)) = rules e)"

lemma rule_laws_add:
  assumes "rule_laws api rules" "RuleAdd api r e = (res, e')"
  shows "res = Val u \<Longrightarrow> rules e' = insert r (rules e)"
    and "res = Err err \<Longrightarrow> isRuleExistsError err \<Longrightarrow> rules e' = insert r (rules e)"
proof -
  have d: "add_law api rules r e" using assms(1) by (simp add: rule_laws_def)
  show "rules e' = insert r (rules e)" if "res = Val u" using d assms(2) that by (auto simp: add_law_def)
  show "rules e' = insert r (rules e)" if "res = Err err" "isRuleExistsError err"
    using d assms(2) that by (auto simp: add_law_def)
qed

lemma rule_laws_del:
  assumes "rule_laws api rules" "RuleDel api r e = (res, e')" "\<And>x. x \<in> rules e \<Longrightarrow> rule_matches r x \<Longrightarrow> x = y"
    and "rule_matches r y"
  shows "res = Val u \<Longrightarrow> rules e' = rules e - {y}"
    and "res = Err err \<Longrightarrow> containsNoSuchRule err \<Longrightarrow> rules e' = rules e - {y}"
proof -
  have d: "del_law api rules r e" using assms(1) by (simp add: rule_laws_def)
  show "rules e' = rules e - {y}" if "res = Val u" using d assms(2,3) that by (auto simp: del_law_def)
  show "rules e' = rules e - {y}" if "res = Err err" "containsNoSuchRule err"
    using d assms(2,4) that by (auto simp: del_law_def)
qed

lemma allowG_Val:
  assumes "allowG ok msg m e = (Val (), e')"
  obtains (val) u where "m e = (Val u, e')" | (allowed) err where "m e = (Err err, e')" "ok err"
  using assms by (auto simp: allowG_def bindG_tryG_run retG_def errG_def split: prod.splits res.splits if_splits)

section \<open>The rules of a pod\<close>

definition ofPod :: "32 word \<Rightarrow> ipNet" where
  "ofPod a = (Some (V4 a), 32, 32)"

definition podSrc :: "32 word \<Rightarrow> Rule \<Rightarrow> bool" where
  "podSrc a x \<longleftrightarrow> (case r_Src x of None \<Rightarrow> False | Some (ip, _) \<Rightarrow> ipEqual ip (Some (V4 a)))"

definition podRules :: "32 word \<Rightarrow> Rule set" where
  "podRules a = {x. podSrc a x \<or> r_Dst x = Some (ofPod a) \<and> r_Priority x = toContainerRulePriority}"

definition wantedRules :: "32 word \<Rightarrow> int \<Rightarrow> string list \<Rightarrow> bool \<Rightarrow> Rule set" where
  "wantedRules a table cidrs ext =
     insert (emptyRule\<lparr>r_Dst := Some (ofPod a), r_Table := 254, r_Priority := 512\<rparr>)
       (if table \<le> 0 then {}
        else if ext then {emptyRule\<lparr>r_Src := Some (ofPod a), r_Table := table, r_Priority := 1536\<rparr>}
        else (\<lambda>c. emptyRule\<lparr>r_Dst := (case ParseCIDR c of Val (_, dst) \<Rightarrow> Some (ofNet dst) | _ \<Rightarrow> None),
                r_Src := Some (ofPod a), r_Table := table, r_Priority := 1536\<rparr>) ` set cidrs)"

lemma wantedRules_pod: "wantedRules a table cidrs ext \<subseteq> podRules a"
  by (auto simp: wantedRules_def podRules_def podSrc_def ofPod_def ipEqual_def To4_def emptyRule_def
      toContainerRulePriority_def)

lemma addContainerRule_Val:
  assumes "rule_laws api rules" "addContainerRule api b addr prio table e = (Val (), e')"
    and "r = containerRule api b addr prio table" "\<And>x. x \<in> rules e \<Longrightarrow> rule_matches r x \<Longrightarrow> x = r"
  shows "rules e' = insert r (rules e)"
proof -
  from assms(2,3) obtain e1 where d: "allowG containsNoSuchRule
      (''addContainerRule: failed to delete old container rule for '' @ ipNetString addr) (RuleDel api r) e = (Val (), e1)"
    and ad: "RuleAdd api r e1 = (Val (), e')"
    unfolding addContainerRule_def Let_def by (auto elim!: bindG_Val simp: wrapG_Val)
  have m: "rule_matches r r" by (simp add: rule_matches_def)
  from d have "rules e1 = rules e - {r}"
  proof (cases rule: allowG_Val)
    case (val u)
    then show ?thesis using rule_laws_del(1)[OF assms(1) val assms(4) m] by blast
  next
    case (allowed err)
    then show ?thesis using rule_laws_del(2)[OF assms(1) allowed(1) assms(4) m] by blast
  qed
  with rule_laws_add(1)[OF assms(1) ad] show ?thesis by auto
qed

lemma add_pod_rules:
  assumes "rule_laws api rules"
    and "forG cs (\<lambda>c. allowG isRuleExistsError (msg c) (RuleAdd api (f c))) e = (Val (), e')"
  shows "rules e' = f ` set cs \<union> rules e"
  using assms(2)
proof (induction cs arbitrary: e)
  case (Cons c cs)
  from Cons.prems obtain e1 where a: "allowG isRuleExistsError (msg c) (RuleAdd api (f c)) e = (Val (), e1)"
    and r: "forG cs (\<lambda>c. allowG isRuleExistsError (msg c) (RuleAdd api (f c))) e1 = (Val (), e')"
    by (auto elim!: bindG_Val)
  from a have "rules e1 = insert (f c) (rules e)"
  proof (cases rule: allowG_Val)
    case (val u)
    then show ?thesis using rule_laws_add(1)[OF assms(1) val] by blast
  next
    case (allowed err)
    then show ?thesis using rule_laws_add(2)[OF assms(1) allowed(1)] by blast
  qed
  with Cons.IH[OF r] show ?case by auto
qed (simp add: retG_def)

lemma rule_frame:
  assumes "rule_laws api rules"
  shows "LinkByName api n e = (r1, e') \<Longrightarrow> rules e' = rules e"
    and "LinkDel api l e = (r2, e') \<Longrightarrow> rules e' = rules e"
    and "LinkSetUp api l e = (r3, e') \<Longrightarrow> rules e' = rules e"
    and "RouteReplace api rt e = (r4, e') \<Longrightarrow> rules e' = rules e"
    and "WithNetNSPath api p f e = (r5, e') \<Longrightarrow> rules e' = rules e"
    and "RouteDel api rt e = (r6, e') \<Longrightarrow> rules e' = rules e"
    and "RuleList api e = (r7, e') \<Longrightarrow> rules e' = rules e"
    and "RuleList api e = (Val rs, e') \<Longrightarrow> set rs = rules e"
  using assms unfolding rule_laws_def by (metis snd_conv fst_conv)+

lemma tryG_Val:
  assumes "tryG m e = (Val x, e')"
  obtains r where "m e = (r, e')"
  using assms by (auto simp: tryG_def split: prod.splits res.splits)

lemma setupNS_Val:
  assumes "rule_laws api rules" "setupNS api hv cv ns addr table cidrs ext e = (Val (), e')"
  obtains e1 e2 where "rules e1 = rules e"
    "addContainerRule api True addr toContainerRulePriority mainRouteTable e1 = (Val (), e2)"
    "(if table > 0 then
        if ext then addContainerRule api False addr fromContainerRulePriority table
        else forG cidrs (\<lambda>c. allowG isRuleExistsError
               (''setupNS: failed to add pod rule ['' @ netRuleString (podCIDRRule api addr table c) @ '']'')
               (RuleAdd api (podCIDRRule api addr table c)))
      else retG ()) e2 = (Val (), e')"
proof -
  from assms(2) obtain old a1 u2 a2 u3 a3 hl a4 u5 a5 u6 a6 u7 a7 where
    1: "tryG (LinkByName api hv) e = (Val old, a1)"
    and 2: "(case old of Inr l \<Rightarrow> wrapG (''setupNS network: failed to delete old hostVeth '' @ quoteString hv) (LinkDel api l)
             | Inl _ \<Rightarrow> retG ()) a1 = (Val u2, a2)"
    and 3: "WithNetNSPath api ns (createVethPair_run api cv hv addr) a2 = (Val u3, a3)"
    and 4: "LinkByName api hv a3 = (Val hl, a4)" and 5: "LinkSetUp api hl a4 = (Val u5, a5)"
    and 6: "RouteReplace api (hostRoute (l_Index hl) addr) a5 = (Val u6, a6)"
    and 7: "addContainerRule api True addr toContainerRulePriority mainRouteTable a6 = (Val u7, a7)"
    and 8: "(if table > 0 then
        if ext then wrapG ''add NS network: failed to add fromContainer rule''
                      (addContainerRule api False addr fromContainerRulePriority table)
        else forG cidrs (\<lambda>c. let r = podCIDRRule api addr table c in allowG isRuleExistsError
               (''setupNS: failed to add pod rule ['' @ netRuleString r @ '']'') (RuleAdd api r))
      else retG ()) a7 = (Val (), e')"
    unfolding setupNS_def by (auto elim!: bindG_Val simp only: wrapG_Val)
  note fr = rule_frame[OF assms(1)]
  obtain r where "LinkByName api hv e = (r, a1)" by (rule tryG_Val[OF 1])
  then have "rules a1 = rules e" by (rule fr(1))
  moreover have "rules a2 = rules a1"
    using 2 fr(2) by (cases old) (auto simp: retG_def wrapG_Val)
  moreover have "rules a6 = rules a2" using fr(5)[OF 3] fr(1)[OF 4] fr(3)[OF 5] fr(4)[OF 6] by simp
  ultimately have "rules a6 = rules e" by simp
  then show thesis using that 7 8 by (simp add: Let_def wrapG_Val split: if_splits)
qed

lemma setupNS_rules:
  assumes "rule_laws api rules" "setupNS api hv cv ns (ofPod a) table cidrs ext e = (Val (), e')"
    and "rules e \<inter> podRules a = {}"
  shows "rules e' = wantedRules a table cidrs ext \<union> rules e"
proof -
  have new: "NewRule api = emptyRule" using assms(1) by (simp add: rule_laws_def)
  from setupNS_Val[OF assms(1,2)] obtain e1 e2 where e1: "rules e1 = rules e"
    and to: "addContainerRule api True (ofPod a) toContainerRulePriority mainRouteTable e1 = (Val (), e2)"
    and from': "(if table > 0 then
        if ext then addContainerRule api False (ofPod a) fromContainerRulePriority table
        else forG cidrs (\<lambda>c. allowG isRuleExistsError
               (''setupNS: failed to add pod rule ['' @ netRuleString (podCIDRRule api (ofPod a) table c) @ '']'')
               (RuleAdd api (podCIDRRule api (ofPod a) table c)))
      else retG ()) e2 = (Val (), e')" by blast
  let ?to = "emptyRule\<lparr>r_Dst := Some (ofPod a), r_Table := 254, r_Priority := 512\<rparr>"
  let ?from = "emptyRule\<lparr>r_Src := Some (ofPod a), r_Table := table, r_Priority := 1536\<rparr>"
  have cr: "containerRule api True (ofPod a) toContainerRulePriority mainRouteTable = ?to"
    "containerRule api False (ofPod a) fromContainerRulePriority table = ?from"
    by (simp_all add: containerRule_def new toContainerRulePriority_def fromContainerRulePriority_def mainRouteTable_def)
  have "x \<in> podRules a" if "rule_matches ?to x" for x
    using that by (auto simp: podRules_def rule_matches_def emptyRule_def toContainerRulePriority_def)
  then have "rules e2 = insert ?to (rules e)"
    using addContainerRule_Val[OF assms(1) to cr(1)[symmetric]] assms(3) by (auto simp: e1)
  moreover have "rules e' = insert ?from (rules e2)" if "table > 0" "ext"
  proof (rule addContainerRule_Val[OF assms(1) _ cr(2)[symmetric]])
    show "addContainerRule api False (ofPod a) fromContainerRulePriority table e2 = (Val (), e')"
      using from' that by simp
    have "x \<in> podRules a \<and> x \<noteq> ?to" if "rule_matches ?from x" for x
      using that by (auto simp: podRules_def podSrc_def rule_matches_def emptyRule_def ofPod_def ipEqual_def To4_def)
    then show "x = ?from" if "x \<in> rules e2" "rule_matches ?from x" for x
      using that assms(3) \<open>rules e2 = insert ?to (rules e)\<close> by auto
  qed
  moreover have "rules e' = podCIDRRule api (ofPod a) table ` set cidrs \<union> rules e2" if "table > 0" "\<not> ext"
    using from' that add_pod_rules[OF assms(1)] by simp
  moreover have "e' = e2" if "\<not> table > 0" using from' that by (simp add: retG_def)
  moreover have "podCIDRRule api (ofPod a) table = (\<lambda>c. emptyRule\<lparr>r_Dst := (case ParseCIDR c of Val (_, dst) \<Rightarrow> Some (ofNet dst) | _ \<Rightarrow> None),
      r_Src := Some (ofPod a), r_Table := table, r_Priority := 1536\<rparr>)"
    by (simp add: podCIDRRule_def new fromContainerRulePriority_def fun_eq_iff)
  ultimately show ?thesis
    by (cases "table > 0"; cases ext) (auto simp: wantedRules_def)
qed

lemma del_pod_rules:
  assumes "rule_laws api rules"
    and "forG xs (\<lambda>r. allowG containsNoSuchRule msg (RuleDel api r)) e = (Val (), e')"
    and "\<And>r x. r \<in> set xs \<Longrightarrow> x \<in> rules e \<Longrightarrow> rule_matches r x \<Longrightarrow> x = r"
  shows "rules e' = rules e - set xs"
  using assms(2,3)
proof (induction xs arbitrary: e)
  case (Cons r xs)
  from Cons.prems(1) obtain e1 where d: "allowG containsNoSuchRule msg (RuleDel api r) e = (Val (), e1)"
    and f: "forG xs (\<lambda>r. allowG containsNoSuchRule msg (RuleDel api r)) e1 = (Val (), e')"
    by (auto elim!: bindG_Val)
  have u: "\<And>x. x \<in> rules e \<Longrightarrow> rule_matches r x \<Longrightarrow> x = r" using Cons.prems(2) by simp
  have m: "rule_matches r r" by (simp add: rule_matches_def)
  from d have e1: "rules e1 = rules e - {r}"
  proof (cases rule: allowG_Val)
    case (val u')
    then show ?thesis using rule_laws_del(1)[OF assms(1) val u m] by blast
  next
    case (allowed err)
    then show ?thesis using rule_laws_del(2)[OF assms(1) allowed(1) u m] by blast
  qed
  have "rules e' = rules e1 - set xs"
    using Cons.IH[OF f] Cons.prems(2) by (simp add: e1)
  then show ?case by (auto simp: e1)
qed (simp add: retG_def)

lemma wanted_cases:
  assumes "x \<in> wantedRules a table cidrs ext" "\<forall>c \<in> set cidrs. \<exists>y. ParseCIDR c = Val y"
  obtains (to) "x = emptyRule\<lparr>r_Dst := Some (ofPod a), r_Table := 254, r_Priority := 512\<rparr>"
  | (ext) "table > 0" "ext" "x = emptyRule\<lparr>r_Src := Some (ofPod a), r_Table := table, r_Priority := 1536\<rparr>"
  | (cidr) n where "table > 0" "\<not> ext" "x = emptyRule\<lparr>r_Dst := Some n, r_Src := Some (ofPod a), r_Table := table, r_Priority := 1536\<rparr>"
proof (cases "x = emptyRule\<lparr>r_Dst := Some (ofPod a), r_Table := 254, r_Priority := 512\<rparr>")
  case False
  show thesis
  proof (cases "ext")
    case True
    then show thesis using assms(1) False ext by (auto simp: wantedRules_def split: if_splits)
  next
    case nx: False
    with assms(1) False obtain c where c: "table > 0" "c \<in> set cidrs"
      "x = emptyRule\<lparr>r_Dst := (case ParseCIDR c of Val (_, dst) \<Rightarrow> Some (ofNet dst) | _ \<Rightarrow> None),
             r_Src := Some (ofPod a), r_Table := table, r_Priority := 1536\<rparr>"
      by (auto simp: wantedRules_def split: if_splits)
    obtain ip dst where "ParseCIDR c = Val (ip, dst)" using assms(2) c(2) by auto
    with c nx cidr show thesis by simp
  qed
qed (rule to)

text \<open>A pod's rule that names its source is matched by no other of its rules.\<close>

lemma wanted_matches_self:
  assumes "r \<in> wantedRules a table cidrs ext" "x \<in> wantedRules a table cidrs ext" "podSrc a r" "rule_matches r x"
    and "\<forall>c \<in> set cidrs. \<exists>y. ParseCIDR c = Val y"
  shows "x = r"
  using assms(1,5)
proof (cases rule: wanted_cases)
  case to
  then show ?thesis using assms(3) by (simp add: podSrc_def emptyRule_def)
next
  case ext
  with assms(2,5) show ?thesis
    by (cases rule: wanted_cases) (use assms(4) in \<open>auto simp: rule_matches_def emptyRule_def\<close>)
next
  case (cidr n)
  note r = this
  from assms(2,5) show ?thesis
    by (cases rule: wanted_cases) (use assms(4) r in \<open>auto simp: rule_matches_def emptyRule_def\<close>)
qed

lemma wanted_to_unique:
  assumes "x \<in> wantedRules a table cidrs ext" "\<forall>c \<in> set cidrs. \<exists>y. ParseCIDR c = Val y" "r_Priority x = 512"
  shows "x = emptyRule\<lparr>r_Dst := Some (ofPod a), r_Table := 254, r_Priority := 512\<rparr>"
  using assms(1,2) by (cases rule: wanted_cases) (use assms(3) in \<open>auto simp: emptyRule_def\<close>)

lemma truncate_sel [simp]:
  "RuleList (NetAPI.truncate api) = RuleList api" "RuleDel (NetAPI.truncate api) = RuleDel api"
  by (simp_all add: NetAPI.truncate_def)

lemma GetRuleListBySrc_pod: "set (GetRuleListBySrc rs (Some (V4 a))) = {x \<in> set rs. podSrc a x}"
  by (auto simp: GetRuleListBySrc_def podSrc_def)

text \<open>The first part of tearing down removes the rule towards the pod, the second those from it.\<close>

lemma tearDown_to:
  assumes "rule_laws api rules" "tryG (RuleDel api (emptyRule\<lparr>r_Dst := Some (ofPod a), r_Priority := toContainerRulePriority\<rparr>)) e = (Val u, e1)"
    and "\<And>r e err. fst (RuleDel api r e) = Err err \<Longrightarrow> containsNoSuchRule err"
    and "rules e \<inter> podRules a = wantedRules a table cidrs ext" "\<forall>c \<in> set cidrs. \<exists>y. ParseCIDR c = Val y"
  shows "rules e1 = rules e - {emptyRule\<lparr>r_Dst := Some (ofPod a), r_Table := 254, r_Priority := 512\<rparr>}"
proof -
  let ?to = "emptyRule\<lparr>r_Dst := Some (ofPod a), r_Table := 254, r_Priority := 512\<rparr>"
  let ?pat = "emptyRule\<lparr>r_Dst := Some (ofPod a), r_Priority := toContainerRulePriority\<rparr>"
  have uniq: "x = ?to" if "x \<in> rules e" "rule_matches ?pat x" for x
  proof -
    have "x \<in> podRules a" "r_Priority x = 512"
      using that(2) by (auto simp: podRules_def rule_matches_def emptyRule_def toContainerRulePriority_def)
    with that(1) assms(4) wanted_to_unique[OF _ assms(5)] show ?thesis by blast
  qed
  have m: "rule_matches ?pat ?to" by (simp add: rule_matches_def emptyRule_def toContainerRulePriority_def)
  show ?thesis
  proof (cases "fst (RuleDel api ?pat e)")
    case (Val x)
    with assms(2) have "RuleDel api ?pat e = (Val x, e1)" by (auto simp: tryG_def split: prod.splits)
    from rule_laws_del(1)[OF assms(1) this uniq m refl] show ?thesis .
  next
    case (Err err)
    with assms(2) have "RuleDel api ?pat e = (Err err, e1)" by (auto simp: tryG_def split: prod.splits)
    from rule_laws_del(2)[OF assms(1) this uniq m refl assms(3)[OF Err]] show ?thesis .
  next
    case (Panic p)
    with assms(2) show ?thesis by (auto simp: tryG_def split: prod.splits)
  qed
qed

lemma tearDown_from:
  assumes "rule_laws api rules" "deleteRuleListBySrc api (ofPod a) e1 = (Val u, e2)"
    and "{x \<in> rules e1. podSrc a x} = S" "S \<subseteq> wantedRules a table cidrs ext"
    and "rules e1 \<inter> podRules a \<subseteq> wantedRules a table cidrs ext" "\<forall>c \<in> set cidrs. \<exists>y. ParseCIDR c = Val y"
  shows "rules e2 = rules e1 - S"
proof -
  from assms(2) obtain rs a1 where l: "RuleList api e1 = (Val rs, a1)"
    and f: "forG (GetRuleListBySrc rs (Some (V4 a))) (\<lambda>rule. allowG containsNoSuchRule
              ''DeleteRuleListBySrc: failed to delete old rule'' (RuleDel api rule)) a1 = (Val (), e2)"
    by (auto simp: deleteRuleListBySrc_def DeleteRuleListBySrc_def GetRuleList_def ofPod_def elim!: bindG_Val)
  have a1: "rules a1 = rules e1" "set rs = rules e1" using rule_frame(7,8)[OF assms(1) l] by simp_all
  have xs: "set (GetRuleListBySrc rs (Some (V4 a))) = S" using assms(3) by (simp add: GetRuleListBySrc_pod a1)
  have "x = r" if "r \<in> set (GetRuleListBySrc rs (Some (V4 a)))" "x \<in> rules a1" "rule_matches r x" for r x
  proof -
    have r: "r \<in> wantedRules a table cidrs ext" "podSrc a r" using that(1) xs assms(3,4) by blast+
    have "x \<in> podRules a"
      using r that(3) by (auto simp: podRules_def podSrc_def rule_matches_def split: option.splits)
    then have "x \<in> wantedRules a table cidrs ext" using that(2) assms(5) a1 by blast
    then show ?thesis using wanted_matches_self[OF r(1) _ r(2) that(3) assms(6)] by blast
  qed
  from del_pod_rules[OF assms(1) f this] show ?thesis by (simp add: xs a1)
qed

lemma tearDownNS_rules:
  assumes "rule_laws api rules" "tearDownNS api (ofPod a) table e = (Val (), e')"
    and "\<And>r e err. fst (RuleDel api r e) = Err err \<Longrightarrow> containsNoSuchRule err"
    and "rules e \<inter> podRules a = wantedRules a table cidrs ext" "\<forall>c \<in> set cidrs. \<exists>y. ParseCIDR c = Val y"
  shows "rules e' = rules e - podRules a"
proof -
  let ?to = "emptyRule\<lparr>r_Dst := Some (ofPod a), r_Table := 254, r_Priority := 512\<rparr>"
  let ?W = "wantedRules a table cidrs ext"
  have new: "NewRule api = emptyRule" using assms(1) by (simp add: rule_laws_def)
  from assms(2) obtain u e1 u2 e2 u3 where
    1: "tryG (RuleDel api (emptyRule\<lparr>r_Dst := Some (ofPod a), r_Priority := toContainerRulePriority\<rparr>)) e = (Val u, e1)"
    and 2: "(if table > 0 then wrapG (''delete NS network: failed to delete fromContainer rule for '' @ ipNetString (ofPod a))
                (deleteRuleListBySrc api (ofPod a)) else retG ()) e1 = (Val u2, e2)"
    and 3: "tryG (RouteDel api (hostRoute 0 (ofPod a))) e2 = (Val u3, e')"
    unfolding tearDownNS_def new ignoreG_def by (auto elim!: bindG_Val simp: retG_def)
  note e1 = tearDown_to[OF assms(1) 1 assms(3-5)]
  have e': "rules e' = rules e2" using tryG_Val[OF 3] rule_frame(6)[OF assms(1)] by metis
  have "podSrc a x" if "x \<in> ?W" "x \<noteq> ?to" for x
    using that(1) assms(5) by (cases rule: wanted_cases) (use that(2) in \<open>auto simp: podSrc_def ofPod_def ipEqual_def To4_def\<close>)
  then have src: "{x \<in> rules e1. podSrc a x} = ?W - {?to}" using assms(4) by (auto simp: e1 podRules_def)
  have "rules e2 = rules e1 - (?W - {?to})"
  proof (cases "table > 0")
    case True
    with 2 show ?thesis using assms(4) e1
      by (intro tearDown_from[OF assms(1) _ src _ _ assms(5)]) (auto simp: wrapG_Val)
  next
    case False
    then have "?W - {?to} = {}" by (auto simp: wantedRules_def)
    with 2 False show ?thesis by (auto simp: retG_def)
  qed
  moreover have "?to \<in> ?W" by (simp add: wantedRules_def)
  ultimately show ?thesis using assms(4) e' e1 by auto
qed



text \<open>A kernel that keeps the host's rules in a list.\<close>

definition list_kernel :: "Rule list DriverAPI" where
  "list_kernel = \<lparr>NewRule = emptyRule,
     RuleDel = (\<lambda>r e. case find (rule_matches r) e of
                  None \<Rightarrow> (Err (Errno 2 ''no such file or directory''), e) | Some x \<Rightarrow> (Val (), removeAll x e)),
     RuleAdd = (\<lambda>r e. if r \<in> set e then (Err (Errno 17 ''file exists''), e) else (Val (), r # e)),
     RuleList = (\<lambda>e. (Val e, e)), Interfaces = retG [], OpenFile = (\<lambda>_. retG ()), WriteString = (\<lambda>_ _. retG ()),
     CloseFile = (\<lambda>_. retG ()), newIptables = retG (), ipt_Exists = (\<lambda>_ _ _. retG False),
     ipt_Append = (\<lambda>_ _ _. retG ()), ipt_Delete = (\<lambda>_ _ _. retG ()), ipt_List = (\<lambda>_ _. retG []),
     ipt_NewChain = (\<lambda>_ _. retG ()), ipt_ListChains = (\<lambda>_. retG []), HasRandomFully = (\<lambda>_. True),
     LinkList = retG [], LinkSetMTU = (\<lambda>_ _. retG ()), LinkSetUp = (\<lambda>_. retG ()), AddrList = (\<lambda>_. retG []),
     AddrDel = (\<lambda>_ _. retG ()), AddrAdd = (\<lambda>_ _ _. retG ()), RouteDel = (\<lambda>_. retG ()), RouteAdd = (\<lambda>_. retG ()),
     RouteReplace = (\<lambda>_. retG ()), nSleep = (\<lambda>_ e. e), nGetenv = (\<lambda>_ _. ''''),
     LinkAdd = (\<lambda>_. retG ()), LinkByName = (\<lambda>_. retG \<lparr>l_Index = 7, l_HardwareAddr = ''''\<rparr>), LinkDel = (\<lambda>_. retG ()),
     LinkSetNsFd = (\<lambda>_ _. retG ()), NeighAdd = (\<lambda>_. retG ()), AddrAddNet = (\<lambda>_ _. retG ()),
     AddDefaultRoute = (\<lambda>_ _. retG ()), WithNetNSPath = (\<lambda>_ f e. (fst (f 3 e), e))\<rparr>"

lemma list_kernel_laws: "rule_laws list_kernel set"
proof -
  have "del_law list_kernel set r e" for r e
  proof (cases "find (rule_matches r) e")
    case None
    then have "\<forall>x \<in> set e. \<not> rule_matches r x" by (simp add: find_None_iff)
    with None show ?thesis by (simp add: del_law_def list_kernel_def)
  next
    case (Some x)
    then show ?thesis using find_SomeD[OF Some] by (auto simp: del_law_def list_kernel_def)
  qed
  moreover have "add_law list_kernel set r e" for r e
    by (simp add: add_law_def list_kernel_def isRuleExistsError_def)
  ultimately show ?thesis by (simp add: rule_laws_def) (simp add: list_kernel_def retG_def)
qed

definition demo_rules :: "Rule list" where
  "demo_rules = [emptyRule\<lparr>r_Src := Some (ofPod 0x0A000009), r_Table := 2, r_Priority := 1536\<rparr>]"


end
