(* ===== verification/CniPlugin.thy ===== *)
theory CniPlugin
  imports RpcHandler CniDriver
begin

text \<open>
  The CNI plugin: \<^verbatim>\<open>plugins/routed-eni/cni.go\<close>.  The container runtime's arguments, the parsing of
  the configuration and of the arguments, the connection, the two remote calls, the driver
  and the printing of the result are parameters, the fields of \<open>'e PluginAPI\<close>.  Log lines are
  left out.
\<close>

section \<open>The name of the host's end of the veth pair\<close>

text \<open>
  \<^verbatim>\<open>crypto/sha1\<close>: the message is padded to blocks of 64 bytes, a block is expanded to 80 words
  (kept newest first) and mixed into five words of state.
\<close>

definition bigEndian :: "nat \<Rightarrow> int \<Rightarrow> int list" where
  "bigEndian n x = map (\<lambda>i. x div 256 ^ (n - 1 - i) mod 256) [0..<n]"

definition sha1_pad :: "int list \<Rightarrow> int list" where
  "sha1_pad bs = bs @ [0x80] @ replicate ((119 - length bs mod 64) mod 64) 0 @ bigEndian 8 (8 * int (length bs))"

fun chunks :: "nat \<Rightarrow> nat \<Rightarrow> 'a list \<Rightarrow> 'a list list" where
  "chunks 0 n xs = []"
| "chunks (Suc k) n xs = take n xs # chunks k n (drop n xs)"

definition sha1_words :: "int list \<Rightarrow> (32 word) list" where
  "sha1_words block = map (\<lambda>bs. word_of_int (joinBytes 256 bs)) (chunks 16 4 block)"

fun sha1_expand :: "nat \<Rightarrow> (32 word) list \<Rightarrow> (32 word) list" where
  "sha1_expand 0 ws = ws"
| "sha1_expand (Suc k) ws =
     sha1_expand k (word_rotl 1 (ws ! 2 XOR ws ! 7 XOR ws ! 13 XOR ws ! 15) # ws)"

type_synonym sha1State = "32 word \<times> 32 word \<times> 32 word \<times> 32 word \<times> 32 word"

definition sha1_fk :: "nat \<Rightarrow> 32 word \<Rightarrow> 32 word \<Rightarrow> 32 word \<Rightarrow> 32 word" where
  "sha1_fk t b c d =
     (if t < 20 then ((b AND c) OR (NOT b AND d)) + 0x5A827999
      else if t < 40 then (b XOR c XOR d) + 0x6ED9EBA1
      else if t < 60 then ((b AND c) OR (b AND d) OR (c AND d)) + 0x8F1BBCDC
      else (b XOR c XOR d) + 0xCA62C1D6)"

fun sha1_rounds :: "nat \<Rightarrow> (32 word) list \<Rightarrow> sha1State \<Rightarrow> sha1State" where
  "sha1_rounds t [] s = s"
| "sha1_rounds t (w # ws) (a, b, c, d, e) =
     sha1_rounds (t + 1) ws (word_rotl 5 a + sha1_fk t b c d + e + w, a, word_rotl 30 b, c, d)"

definition sha1_block :: "int list \<Rightarrow> sha1State \<Rightarrow> sha1State" where
  "sha1_block block s =
     (case (s, sha1_rounds 0 (rev (sha1_expand 64 (rev (sha1_words block)))) s) of
        ((a, b, c, d, e), (a', b', c', d', e')) \<Rightarrow> (a + a', b + b', c + c', d + d', e + e'))"

definition sha1 :: "string \<Rightarrow> int list" where
  "sha1 msg =
     (let bs = sha1_pad (map of_char msg) in
      case fold sha1_block (chunks (length bs div 64) 64 bs)
             (0x67452301, 0xEFCDAB89, 0x98BADCFE, 0x10325476, 0xC3D2E1F0) of
        (a, b, c, d, e) \<Rightarrow> concat (map (\<lambda>w. bigEndian 4 (uint w)) [a, b, c, d, e]))"

definition hexEncode :: "int list \<Rightarrow> string" where
  "hexEncode bs = concat (map (\<lambda>b. [hexChar (b div 16), hexChar (b mod 16)]) bs)"

definition generateHostVethName :: "string \<Rightarrow> string \<Rightarrow> string \<Rightarrow> string" where
  "generateHostVethName prefix namespace podname =
     prefix @ take 11 (hexEncode (sha1 (namespace @ ''.'' @ podname)))"

section \<open>The two commands\<close>

definition ipamDAddress :: string where "ipamDAddress = ''localhost:50051''"

record CmdArgs =
  Netns :: string
  IfName :: string
  Args :: string
  StdinData :: string

record NetConf =
  CNIVersion :: string
  VethPrefix :: string

record K8sArgs =
  ka_IP :: "goIP option"
  K8S_POD_NAME :: string
  K8S_POD_NAMESPACE :: string
  K8S_POD_INFRA_CONTAINER_ID :: string

record 'e PluginAPI =
  Unmarshal :: "string \<Rightarrow> NetConf res"
  LoadArgs :: "string \<Rightarrow> K8sArgs res"
  Dial :: "string \<Rightarrow> ('e, unit) go"
  CloseConn :: "'e \<Rightarrow> 'e"
  c_AddNetwork :: "AddNetworkRequest \<Rightarrow> ('e, AddNetworkReply) go"
  c_DelNetwork :: "DelNetworkRequest \<Rightarrow> ('e, DelNetworkReply) go"
  d_SetupNS :: "string \<Rightarrow> string \<Rightarrow> string \<Rightarrow> ipNet \<Rightarrow> int \<Rightarrow> string list \<Rightarrow> bool \<Rightarrow> ('e, unit) go"
  d_TeardownNS :: "ipNet \<Rightarrow> int \<Rightarrow> ('e, unit) go"
  PrintResult :: "(string \<times> ipNet) list \<Rightarrow> string \<Rightarrow> ('e, unit) go"

definition addRequest :: "CmdArgs \<Rightarrow> K8sArgs \<Rightarrow> AddNetworkRequest" where
  "addRequest args k8sArgs = \<lparr>ar_PodName = K8S_POD_NAME k8sArgs, ar_PodNamespace = K8S_POD_NAMESPACE k8sArgs,
     ar_ContainerID = K8S_POD_INFRA_CONTAINER_ID k8sArgs, ar_Netns = Netns args, ar_IfName = IfName args\<rparr>"

definition delRequest :: "K8sArgs \<Rightarrow> string \<Rightarrow> string \<Rightarrow> DelNetworkRequest" where
  "delRequest k8sArgs ip reason = \<lparr>dr_PodName = K8S_POD_NAME k8sArgs, dr_PodNamespace = K8S_POD_NAMESPACE k8sArgs,
     dr_ContainerID = K8S_POD_INFRA_CONTAINER_ID k8sArgs, dr_IPv4Addr = ip, dr_Reason = reason\<rparr>"

definition podNet :: "string \<Rightarrow> ipNet" where
  "podNet ip = (ParseIP ip, 32, 32)"

text \<open>
  When both the driver and the call that returns the address fail, the reply is nil and reading
  \<^verbatim>\<open>r.Success\<close> panics.
\<close>

definition add :: "'e PluginAPI \<Rightarrow> CmdArgs \<Rightarrow> ('e, unit) go" where
  "add api args =
     bindG (wrapG ''add cmd: error loading config from args'' (resG (Unmarshal api (StdinData args)))) (\<lambda>conf.
     bindG (wrapG ''add cmd: failed to load k8s config from arg'' (resG (LoadArgs api (Args args)))) (\<lambda>k8sArgs.
     let vethPrefix = (if VethPrefix conf = '''' then ''eni'' else VethPrefix conf) in
     if length vethPrefix > 4 then errG (NewErr ''conf.VethPrefix must be less than 4 characters long'')
     else
       bindG (wrapG ''add cmd: failed to connect to backend server'' (Dial api ipamDAddress)) (\<lambda>_.
       deferG (CloseConn api) (
         bindG (c_AddNetwork api (addRequest args k8sArgs)) (\<lambda>r.
         if \<not> Success r then errG (NewErr ''add cmd: failed to assign an IP address to container'')
         else
           let addr = podNet (IPv4Addr r);
               hostVethName = generateHostVethName vethPrefix (K8S_POD_NAMESPACE k8sArgs) (K8S_POD_NAME k8sArgs) in
           bindG (tryG (d_SetupNS api hostVethName (IfName args) (Netns args) addr
                          (sint (rp_DeviceNumber r)) (VPCcidrs r) (rp_UseExternalSNAT r))) (\<lambda>s.
           case s of
             Inl err \<Rightarrow>
               bindG (tryG (c_DelNetwork api (delRequest k8sArgs (IPv4Addr r) ''SetupNSFailed''))) (\<lambda>d.
               case d of
                 Inl _ \<Rightarrow> panicG ''nil pointer dereference''
               | Inr _ \<Rightarrow> errG (WrapErr ''add command: failed to setup network'' err))
           | Inr _ \<Rightarrow> PrintResult api [(''4'', addr)] (CNIVersion conf)))))))"

definition del :: "'e PluginAPI \<Rightarrow> CmdArgs \<Rightarrow> ('e, unit) go" where
  "del api args =
     bindG (wrapG ''del cmd: failed to load netconf from args'' (resG (Unmarshal api (StdinData args)))) (\<lambda>conf.
     bindG (wrapG ''del cmd: failed to load k8s config from args'' (resG (LoadArgs api (Args args)))) (\<lambda>k8sArgs.
     bindG (wrapG ''del cmd: failed to connect to backend server'' (Dial api ipamDAddress)) (\<lambda>_.
     deferG (CloseConn api) (
       bindG (c_DelNetwork api (delRequest k8sArgs (IPString (ka_IP k8sArgs)) ''PodDeleted'')) (\<lambda>r.
       if \<not> dp_Success r then errG (NewErr ''del cmd: failed to process delete request'')
       else d_TeardownNS api (podNet (dp_IPv4Addr r)) (sint (dp_DeviceNumber r)))))))"

end
