(* ===== verification/PluginProps.thy ===== *)
theory PluginProps
  imports CniPlugin
begin

text \<open>
  The plugin and the daemon together: the plugin's remote calls reach the handlers of the daemon,
  everything else it calls (parsing, driver, output) acts on the host.
\<close>

section \<open>Connecting the plugin to the daemon\<close>

definition onDaemon :: "('e ipam, 'a) go \<Rightarrow> ('e ipam \<times> 'k, 'a) go" where
  "onDaemon m = zoomG fst (\<lambda>c (_, k). (c, k)) m"

definition onHost :: "('k, 'a) go \<Rightarrow> ('e ipam \<times> 'k, 'a) go" where
  "onHost m = zoomG snd (\<lambda>k (c, _). (c, k)) m"

definition connect :: "('e, 'r) IpamAPI \<Rightarrow> 'k PluginAPI \<Rightarrow> ('e ipam \<times> 'k) PluginAPI" where
  "connect api p = \<lparr>Unmarshal = Unmarshal p, LoadArgs = LoadArgs p,
     Dial = (\<lambda>a. onHost (Dial p a)), CloseConn = (\<lambda>(c, k). (c, CloseConn p k)),
     c_AddNetwork = (\<lambda>req. onDaemon (AddNetwork api req)),
     c_DelNetwork = (\<lambda>req. onDaemon (DelNetwork api req)),
     d_SetupNS = (\<lambda>hv cv ns a t cidrs ext. onHost (d_SetupNS p hv cv ns a t cidrs ext)),
     d_TeardownNS = (\<lambda>a t. onHost (d_TeardownNS p a t)),
     PrintResult = (\<lambda>ips v. onHost (PrintResult p ips v))\<rparr>"

lemma on_run [simp]:
  "onDaemon m (c, k) = (fst (m c), (snd (m c), k))"
  "onHost n (c, k) = (fst (n k), (c, snd (n k)))"
  by (simp_all add: onDaemon_def onHost_def zoomG_def split: prod.split)

lemma AddNetwork_Val: "\<exists>rep. fst (AddNetwork api req c) = Val rep"
  using AddNetwork_run[of api c req] by (metis fst_conv prod.collapse)

lemma DelNetwork_Val: "\<exists>rep. fst (DelNetwork api req c) = Val rep"
proof -
  obtain r ds1 where 1: "UnassignPodIPv4Address (t_Now api (ienv c)) (cniPod (delKey req)) (dataStore c) = (r, ds1)"
    by fastforce
  obtain r' ds' where "(if r = Err ErrUnknownPod
      then UnassignPodIPv4Address (t_Now api (ienv c)) (cniPod (nameKey req)) ds1 else (r, ds1)) = (r', ds')"
    by fastforce
  from DelNetwork_run[OF 1 this] show ?thesis by simp
qed

definition prefixOf :: "NetConf \<Rightarrow> string" where
  "prefixOf conf = (if VethPrefix conf = '''' then ''eni'' else VethPrefix conf)"

definition vethOf :: "NetConf \<Rightarrow> K8sArgs \<Rightarrow> string" where
  "vethOf conf ka = generateHostVethName (prefixOf conf) (K8S_POD_NAMESPACE ka) (K8S_POD_NAME ka)"

definition k8sKey :: "K8sArgs \<Rightarrow> PodKey" where
  "k8sKey ka = \<lparr>pk_name = K8S_POD_NAME ka, pk_namespace = K8S_POD_NAMESPACE ka,
     pk_container = K8S_POD_INFRA_CONTAINER_ID ka\<rparr>"

lemma request_keys [simp]:
  "addKey (addRequest args ka) = k8sKey ka" "delKey (delRequest ka ip reason) = k8sKey ka"
  by (simp_all add: addKey_def addRequest_def delKey_def delRequest_def k8sKey_def)

text \<open>An add whose address was assigned, in terms of what the driver answers.\<close>

definition add_body :: "('e, 'r) IpamAPI \<Rightarrow> 'k PluginAPI \<Rightarrow> CmdArgs \<Rightarrow> NetConf \<Rightarrow> K8sArgs \<Rightarrow>
    AddNetworkReply \<Rightarrow> ('e ipam \<times> 'k, unit) go" where
  "add_body api p args conf ka r = (\<lambda>(c, k).
     case d_SetupNS p (vethOf conf ka) (IfName args) (Netns args) (podNet (IPv4Addr r))
            (sint (rp_DeviceNumber r)) (VPCcidrs r) (rp_UseExternalSNAT r) k of
       (Val _, k') \<Rightarrow> onHost (PrintResult p [(''4'', podNet (IPv4Addr r))] (CNIVersion conf)) (c, k')
     | (Err err, k') \<Rightarrow> (Err (WrapErr ''add command: failed to setup network'' err),
          (snd (DelNetwork api (delRequest ka (IPv4Addr r) ''SetupNSFailed'') c), k'))
     | (Panic x, k') \<Rightarrow> (Panic x, (c, k')))"

lemma add_connect:
  assumes "Unmarshal p (StdinData args) = Val conf" "LoadArgs p (Args args) = Val ka"
    and "length (prefixOf conf) \<le> 4" "Dial p ipamDAddress k = (Val u, k1)"
    and "AddNetwork api (addRequest args ka) c = (Val rep, c1)"
  shows "add (connect api p) args (c, k) =
    (if \<not> Success rep then (Err (NewErr ''add cmd: failed to assign an IP address to container''), (c1, CloseConn p k1))
     else deferG (\<lambda>(c, k). (c, CloseConn p k)) (add_body api p args conf ka rep) (c1, k1))"
proof -
  obtain del c2 where d: "DelNetwork api (delRequest ka (IPv4Addr rep) ''SetupNSFailed'') c1 = (Val del, c2)"
    using DelNetwork_Val by (metis prod.collapse)
  have sel: "Unmarshal (connect api p) = Unmarshal p" "LoadArgs (connect api p) = LoadArgs p"
    "Dial (connect api p) a (c, k) = (fst (Dial p a k), (c, snd (Dial p a k)))"
    "c_AddNetwork (connect api p) req (c, k) = (fst (AddNetwork api req c), (snd (AddNetwork api req c), k))"
    "c_DelNetwork (connect api p) dreq (c, k) = (fst (DelNetwork api dreq c), (snd (DelNetwork api dreq c), k))"
    "CloseConn (connect api p) = (\<lambda>(c, k). (c, CloseConn p k))"
    "d_SetupNS (connect api p) hv cv ns ad t cidrs ext = onHost (d_SetupNS p hv cv ns ad t cidrs ext)"
    "PrintResult (connect api p) ips v = onHost (PrintResult p ips v)"
    for a req dreq c k hv cv ns ad t cidrs ext ips v
    by (simp_all add: connect_def)
  have dial: "wrapG msg (Dial (connect api p) ipamDAddress) (c, k) = (Val u, (c, k1))" for msg
    by (rule wrapG_run) (simp add: sel assms(4))
  have addn: "c_AddNetwork (connect api p) (addRequest args ka) (c, k1) = (Val rep, (c1, k1))"
    by (simp add: sel assms(5))
  have deln: "c_DelNetwork (connect api p) (delRequest ka (IPv4Addr rep) ''SetupNSFailed'') (c1, h) = (Val del, (c2, h))"
    for h by (simp add: sel d)
  have veth: "generateHostVethName (if VethPrefix conf = '''' then ''eni'' else VethPrefix conf)
      (K8S_POD_NAMESPACE ka) (K8S_POD_NAME ka) = vethOf conf ka"
    "\<not> length (if VethPrefix conf = '''' then ''eni'' else VethPrefix conf) > 4"
    using assms(3) by (simp_all add: vethOf_def prefixOf_def split: if_splits)
  show ?thesis
    unfolding add_def sel(1,2) assms(1,2) go_simps Let_def veth(1) if_not_P[OF veth(2)]
      bindG_run(1)[of "wrapG _ (Dial _ _)", OF dial]
    by (simp add: deferG_def bindG_run(1)[of "c_AddNetwork _ _", OF addn] bindG_tryG_run deln add_body_def sel errG_def d
        split: prod.split res.split)
qed

lemma add_cases:
  assumes "add (connect api p) args (c, k) = (res, (c', k'))"
  obtains (early) "c' = c" "\<And>x. res \<noteq> Val x"
  | (called) conf ka k1 rep c1 where "Unmarshal p (StdinData args) = Val conf"
      "LoadArgs p (Args args) = Val ka" "length (prefixOf conf) \<le> 4"
      "Dial p ipamDAddress k = (Val (), k1)" "AddNetwork api (addRequest args ka) c = (Val rep, c1)"
proof (cases "\<exists>conf ka k1. Unmarshal p (StdinData args) = Val conf \<and> LoadArgs p (Args args) = Val ka \<and>
    length (prefixOf conf) \<le> 4 \<and> Dial p ipamDAddress k = (Val (), k1)")
  case True
  then obtain conf ka k1 where 1: "Unmarshal p (StdinData args) = Val conf" "LoadArgs p (Args args) = Val ka"
    "length (prefixOf conf) \<le> 4" "Dial p ipamDAddress k = (Val (), k1)" by blast
  obtain rep c1 where "AddNetwork api (addRequest args ka) c = (Val rep, c1)"
    using AddNetwork_Val by (metis prod.collapse)
  with 1 called show thesis by blast
next
  case False
  let ?sel = "add (connect api p) args (c, k)"
  have "fst (snd ?sel) = c \<and> (\<forall>x. fst ?sel \<noteq> Val x)"
  proof (cases "Unmarshal p (StdinData args)")
    case conf: (Val conf)
    show ?thesis
    proof (cases "LoadArgs p (Args args)")
      case (Val ka)
      with False conf have "\<not> length (prefixOf conf) \<le> 4 \<or> (\<forall>k1. Dial p ipamDAddress k \<noteq> (Val (), k1))" by blast
      then show ?thesis
        using conf Val
        by (cases "Dial p ipamDAddress k"; cases "fst (Dial p ipamDAddress k)")
           (auto simp: add_def connect_def bindG_wrapG_run resG_def Let_def prefixOf_def errG_def)
    qed (use conf in \<open>auto simp: add_def connect_def go_simps\<close>)
  qed (auto simp: add_def connect_def go_simps)
  then have "c' = c" "\<And>x. res \<noteq> Val x" by (simp_all add: assms)
  then show thesis by (rule early)
qed

lemma AddNetwork_refused:
  assumes "ds_full_inv (dataStore c)" "AddNetwork api req c = (Val rep, c1)" "\<not> Success rep"
  shows "dataStore c1 = dataStore c"
proof -
  obtain r ds' where r: "AssignPodIPv4Address (t_Now api (ienv c)) (cniPod (addKey req)) (dataStore c) = (r, ds')"
    by fastforce
  have "\<forall>x. r \<noteq> Val x" using AddNetwork_run[OF r] assms(2,3) by auto
  with store.assign_not_Val[OF assms(1) r] have "ds' = dataStore c" by blast
  then show ?thesis using AddNetwork_run[OF r] assms(2) by simp
qed

lemma rpc_add_del:
  assumes "ds_full_inv (dataStore c)" "AddNetwork api req c = (Val rep, c1)" "Success rep"
  obtains ip d where "IPv4Addr rep = ip" "rp_DeviceNumber rep = word_of_int d"
    "ds_held (dataStore c) (addKey req) = None" "\<forall>pk d'. ds_held (dataStore c) pk \<noteq> Some (ip, d')"
    "ds_held (dataStore c1) = (ds_held (dataStore c))(addKey req \<mapsto> (ip, d))" "ds_full_inv (dataStore c1)"
proof -
  obtain r ds' where r: "AssignPodIPv4Address (t_Now api (ienv c)) (cniPod (addKey req)) (dataStore c) = (r, ds')"
    by fastforce
  obtain ip d where Val: "r = Val (ip, d)" using AddNetwork_run[OF r] assms(2,3) by auto
  have rep: "IPv4Addr rep = ip" "rp_DeviceNumber rep = word_of_int d" "c1 = c\<lparr>dataStore := ds'\<rparr>"
    using AddNetwork_run[OF r] assms(2) Val by auto
  moreover have "ds_full_inv (dataStore c1)"
    using store.invar_assign[OF assms(1), of "t_Now api (ienv c)" "addKey req"] r rep by simp
  moreover have "ds_held (dataStore c) (addKey req) = None"
    "ds_held (dataStore c1) = (ds_held (dataStore c))(addKey req \<mapsto> (ip, d))"
    using store.assign_Val[OF assms(1) r[unfolded Val]] rep by simp_all
  moreover have "\<forall>pk d'. ds_held (dataStore c) pk \<noteq> Some (ip, d')"
    using store.assign_exclusive[OF assms(1) r[unfolded Val]] by blast
  ultimately show thesis using that by blast
qed

lemma DelNetwork_held:
  assumes "ds_full_inv (dataStore c)" "ds_held (dataStore c) (delKey req) = Some (ip, d)"
  obtains c' where "DelNetwork api req c = (Val \<lparr>dp_Success = True, dp_IPv4Addr = ip, dp_DeviceNumber = word_of_int d\<rparr>, c')"
    "ds_held (dataStore c') = (ds_held (dataStore c))(delKey req := None)"
proof -
  from store.release_held[OF assms, of "t_Now api (ienv c)"] obtain ds' where
    u: "UnassignPodIPv4Address (t_Now api (ienv c)) (cniPod (delKey req)) (dataStore c) = (Val (ip, d), ds')"
    and h: "ds_held ds' = (ds_held (dataStore c))(delKey req := None)" by blast
  from DelNetwork_run[OF u, of "Val (ip, d)" ds'] h that show thesis by simp
qed

text \<open>
  C14: a pod whose network could not be set up keeps no address.  Whatever the driver does, when
  \<^verbatim>\<open>add\<close> returns an error the daemon's store holds for every pod what it held before, and
  when it succeeds exactly this pod has been given an address that no other pod holds.
  (Printing the result is assumed to succeed; an address is not returned when only that fails.)
\<close>

theorem failed_add_returns_address:
  assumes "cni_reach (dataStore c)" "add (connect api p) args (c, k) = (res, (c', k'))"
    and "\<And>ips v h. fst (PrintResult p ips v h) = Val ()"
  shows "case res of
           Err _ \<Rightarrow> ds_held (dataStore c') = ds_held (dataStore c)
         | Val _ \<Rightarrow> \<exists>ka ip d. LoadArgs p (Args args) = Val ka \<and> ds_held (dataStore c) (k8sKey ka) = None \<and>
                      (\<forall>pk d'. ds_held (dataStore c) pk \<noteq> Some (ip, d')) \<and>
                      ds_held (dataStore c') = (ds_held (dataStore c))(k8sKey ka \<mapsto> (ip, d))
         | Panic _ \<Rightarrow> True"
  using assms(2)
proof (cases rule: add_cases)
  case early
  then show ?thesis by (cases res) auto
next
  case (called conf ka k1 rep c1)
  have inv: "ds_full_inv (dataStore c)" using cni_reach_inv[OF assms(1)] .
  note run = add_connect[OF called, symmetric, unfolded assms(2)]
  show ?thesis
  proof (cases "Success rep")
    case False
    then have "dataStore c1 = dataStore c" using AddNetwork_refused[OF inv called(5)] by simp
    with run False show ?thesis by (auto simp: eq_commute)
  next
    case True
    from rpc_add_del[OF inv called(5) True] obtain ip d where
      rep: "IPv4Addr rep = ip" "ds_held (dataStore c) (k8sKey ka) = None"
      and ex: "\<forall>pk d'. ds_held (dataStore c) pk \<noteq> Some (ip, d')"
      and h1: "ds_held (dataStore c1) = (ds_held (dataStore c))(k8sKey ka \<mapsto> (ip, d))"
      and inv1: "ds_full_inv (dataStore c1)" by (metis request_keys(1))
    have "ds_held (dataStore c1) (delKey (delRequest ka (IPv4Addr rep) ''SetupNSFailed'')) = Some (ip, d)"
      by (simp add: h1)
    from DelNetwork_held[OF inv1 this, of api] obtain c2 where
      d: "snd (DelNetwork api (delRequest ka (IPv4Addr rep) ''SetupNSFailed'') c1) = c2"
      and h2: "ds_held (dataStore c2) = (ds_held (dataStore c1))(k8sKey ka := None)" by (metis request_keys(2) snd_conv)
    have h2': "ds_held (dataStore c2) = ds_held (dataStore c)" using h1 h2 rep(2) by (simp add: fun_upd_idem)
    show ?thesis
      using run True assms(3) d h2' h1 ex rep(2) called(2)
      by (auto simp: add_body_def deferG_def split: prod.splits res.splits)
  qed
qed


section \<open>Setting up and tearing down\<close>

lemma length_hexEncode: "length (hexEncode bs) = 2 * length bs"
  by (induction bs) (simp_all add: hexEncode_def)

lemma length_sha1: "length (sha1 msg) = 20"
  by (simp add: sha1_def Let_def bigEndian_def split: prod.split)

lemma length_vethName: "length (generateHostVethName prefix ns pod) = length prefix + 11"
  by (simp add: generateHostVethName_def length_hexEncode length_sha1)

lemma del_connect:
  assumes "Unmarshal p (StdinData args) = Val conf" "LoadArgs p (Args args) = Val ka"
    and "Dial p ipamDAddress k = (Val u, k1)"
    and "DelNetwork api (delRequest ka (IPString (ka_IP ka)) ''PodDeleted'') c = (Val rep, c1)" "dp_Success rep"
    and "d_TeardownNS p (podNet (dp_IPv4Addr rep)) (sint (dp_DeviceNumber rep)) k1 = (r, k2)"
  shows "del (connect api p) args (c, k) = (r, (c1, CloseConn p k2))"
  using assms
  by (simp add: del_def connect_def bindG_wrapG_run resG_def deferG_def bindG_def[of "onDaemon _"])

text \<open>
  C15: what the plugin set up for a pod, it tears down.  After a successful \<^verbatim>\<open>add\<close>, and any requests for
  other pods in between, \<^verbatim>\<open>del\<close> of the same pod calls the driver's teardown with exactly the address
  and the routing table that the driver's setup was given, returns what the teardown returns, and
  the pod holds no address afterwards; the name of the pod's host interface fits
  the 15 characters that Linux allows.
\<close>

theorem del_tears_down_what_add_set_up:
  assumes "cni_reach (dataStore c)" "add (connect api p) args (c, k) = (Val (), (c1, k1))"
    and "LoadArgs p (Args args) = Val ka" "\<forall>(env, r) \<in> set rs. k8sKey ka \<notin> touches r"
    and "Unmarshal p (StdinData args') = Val conf'" "LoadArgs p (Args args') = Val ka'" "k8sKey ka' = k8sKey ka"
  shows "\<exists>net table. (\<exists>veth cidrs ext h h'. length veth \<le> 15 \<and>
             d_SetupNS p veth (IfName args) (Netns args) net table cidrs ext h = (Val (), h')) \<and>
           (\<forall>k2 k3. Dial p ipamDAddress k2 = (Val (), k3) \<longrightarrow>
              (\<exists>c2. del (connect api p) args' (rpc_run api rs c1, k2) =
                   (fst (d_TeardownNS p net table k3), (c2, CloseConn p (snd (d_TeardownNS p net table k3)))) \<and>
                 ds_held (dataStore c2) (k8sKey ka) = None))"
  using assms(2)
proof (cases rule: add_cases)
  case (called conf ka0 h rep c0)
  have inv: "ds_full_inv (dataStore c)" using cni_reach_inv[OF assms(1)] .
  have [simp]: "ka0 = ka" using called(2) assms(3) by simp
  note run = add_connect[OF called, symmetric, unfolded assms(2)]
  then have ok: "Success rep" by (auto split: if_splits)
  from rpc_add_del[OF inv called(5) ok] obtain ip d where
    rep: "IPv4Addr rep = ip" "rp_DeviceNumber rep = word_of_int d"
    and held: "ds_held (dataStore c0) = (ds_held (dataStore c))(k8sKey ka \<mapsto> (ip, d))"
    and inv0: "ds_full_inv (dataStore c0)" by (metis request_keys(1) \<open>ka0 = ka\<close>)
  let ?net = "podNet ip" and ?table = "sint (word_of_int d :: 32 word)"
  from run ok obtain h' where c1: "c1 = c0" and
    su: "d_SetupNS p (vethOf conf ka) (IfName args) (Netns args) ?net ?table (VPCcidrs rep)
              (rp_UseExternalSNAT rep) h = (Val (), h')"
    by (auto simp: add_body_def deferG_def rep split: prod.splits res.splits)
  from rpc_run_held[OF inv0 assms(4), of api]
  have inv2: "ds_full_inv (dataStore (rpc_run api rs c1))"
    and held2: "ds_held (dataStore (rpc_run api rs c1)) (k8sKey ka) = Some (ip, d)" by (simp_all add: c1 held)
  let ?dreq = "delRequest ka' (IPString (ka_IP ka')) ''PodDeleted''"
  have hk: "ds_held (dataStore (rpc_run api rs c1)) (delKey ?dreq) = Some (ip, d)" using held2 assms(7) by simp
  obtain c2 where
    dn: "DelNetwork api ?dreq (rpc_run api rs c1) =
        (Val \<lparr>dp_Success = True, dp_IPv4Addr = ip, dp_DeviceNumber = word_of_int d\<rparr>, c2)"
    and "ds_held (dataStore c2) = (ds_held (dataStore (rpc_run api rs c1)))(delKey ?dreq := None)"
    by (rule DelNetwork_held[OF inv2 hk])
  then have c2: "ds_held (dataStore c2) (k8sKey ka) = None" using assms(7) by simp
  have veth: "length (vethOf conf ka) \<le> 15"
    using called(3) by (simp add: vethOf_def length_vethName)
  have "del (connect api p) args' (rpc_run api rs c1, k2) =
      (fst (d_TeardownNS p ?net ?table k3), (c2, CloseConn p (snd (d_TeardownNS p ?net ?table k3))))"
    if "Dial p ipamDAddress k2 = (Val (), k3)" for k2 k3
    by (rule del_connect[OF assms(5,6) that dn]) simp_all
  with c2 have "\<forall>k2 k3. Dial p ipamDAddress k2 = (Val (), k3) \<longrightarrow>
      (\<exists>c2. del (connect api p) args' (rpc_run api rs c1, k2) =
         (fst (d_TeardownNS p ?net ?table k3), (c2, CloseConn p (snd (d_TeardownNS p ?net ?table k3)))) \<and>
       ds_held (dataStore c2) (k8sKey ka) = None)" by blast
  with su veth show ?thesis by blast
qed simp

text \<open>A host whose driver records the pods it has set up, and may fail.\<close>

definition demo_host :: "bool \<Rightarrow> (ipNet \<times> int) list PluginAPI" where
  "demo_host ok = \<lparr>Unmarshal = (\<lambda>_. Val \<lparr>CNIVersion = ''0.3.1'', VethPrefix = ''''\<rparr>),
     LoadArgs = (\<lambda>_. Val \<lparr>ka_IP = None, K8S_POD_NAME = ''a'', K8S_POD_NAMESPACE = ''ns'',
                      K8S_POD_INFRA_CONTAINER_ID = ''c1''\<rparr>),
     Dial = (\<lambda>_. retG ()), CloseConn = (\<lambda>h. h), c_AddNetwork = (\<lambda>_. panicG ''not connected''),
     c_DelNetwork = (\<lambda>_. panicG ''not connected''),
     d_SetupNS = (\<lambda>_ _ _ net table _ _ h. if ok then (Val (), (net, table) # h) else (Err (NewErr ''no netns''), h)),
     d_TeardownNS = (\<lambda>net table h. (Val (), remove1 (net, table) h)),
     PrintResult = (\<lambda>_ _. retG ())\<rparr>"

definition demo_args :: CmdArgs where
  "demo_args = \<lparr>Netns = ''/proc/7/ns/net'', IfName = ''eth0'', Args = '''', StdinData = ''''\<rparr>"

definition demo_ka :: K8sArgs where
  "demo_ka = \<lparr>ka_IP = None, K8S_POD_NAME = ''a'', K8S_POD_NAMESPACE = ''ns'', K8S_POD_INFRA_CONTAINER_ID = ''c1''\<rparr>"

lemma demo_host_sel:
  "Unmarshal (demo_host ok) s = Val \<lparr>CNIVersion = ''0.3.1'', VethPrefix = ''''\<rparr>"
  "LoadArgs (demo_host ok) s = Val demo_ka" "Dial (demo_host ok) s h = (Val (), h)"
  "fst (PrintResult (demo_host ok) ips v h) = Val ()" "CloseConn (demo_host ok) h = h"
  "d_SetupNS (demo_host True) hv cv ns net table cidrs ext h = (Val (), (net, table) # h)"
  "d_SetupNS (demo_host False) hv cv ns net table cidrs ext h = (Err (NewErr ''no netns''), h)"
  "d_TeardownNS (demo_host ok) net table h = (Val (), remove1 (net, table) h)"
  by (simp_all add: demo_host_def demo_ka_def retG_def)

lemma demo_request: "addRequest demo_args demo_ka = add_a"
  by (simp add: addRequest_def demo_args_def demo_ka_def add_a_def)

lemma demo_add:
  "add (connect (sim_ipam True) (demo_host ok)) demo_args (srv0, []) =
     deferG (\<lambda>(c, k). (c, k)) (add_body (sim_ipam True) (demo_host ok) demo_args
       \<lparr>CNIVersion = ''0.3.1'', VethPrefix = ''''\<rparr> demo_ka rep_a) (snd (AddNetwork (sim_ipam True) add_a srv0), [])"
proof -
  have a: "AddNetwork (sim_ipam True) (addRequest demo_args demo_ka) srv0 =
      (Val rep_a, snd (AddNetwork (sim_ipam True) add_a srv0))"
    using add_a_reply by (metis demo_request prod.collapse)
  have "Success rep_a" by (simp add: rep_a_def)
  with add_connect[OF demo_host_sel(1,2) _ demo_host_sel(3) a, of ok "[]"] show ?thesis
    by (simp add: prefixOf_def demo_host_sel(5))
qed

theorem failed_add_returns_address_witness:
  "ds_held (dataStore (fst (snd (add (connect (sim_ipam True) (demo_host False)) demo_args (srv0, []))))) =
     ds_held (dataStore srv0)"
proof -
  let ?r = "add (connect (sim_ipam True) (demo_host False)) demo_args (srv0, [])"
  obtain err c' k' where r: "?r = (Err err, (c', k'))"
    by (simp add: demo_add add_body_def deferG_def demo_host_sel)
  from failed_add_returns_address[OF srv0_reach r demo_host_sel(4)] show ?thesis by (simp add: r)
qed

theorem del_tears_down_what_add_set_up_witness:
  "\<exists>net table c2. del (connect (sim_ipam True) (demo_host True)) demo_args
      (rpc_run (sim_ipam True) [] (fst (snd (add (connect (sim_ipam True) (demo_host True)) demo_args (srv0, [])))),
       [(net, table)]) = (Val (), (c2, [])) \<and> ds_held (dataStore c2) (k8sKey demo_ka) = None"
proof -
  let ?r = "add (connect (sim_ipam True) (demo_host True)) demo_args (srv0, [])"
  obtain c1 k1 where r: "?r = (Val (), (c1, k1))"
    by (cases ?r) (auto simp: demo_add add_body_def deferG_def demo_host_sel)
  have n: "\<forall>(env, r) \<in> set ([] :: ((time \<Rightarrow> time) \<times> rpc) list). k8sKey demo_ka \<notin> touches r" by simp
  from del_tears_down_what_add_set_up[OF srv0_reach r demo_host_sel(2) n demo_host_sel(1,2) refl]
  obtain net table where t: "\<And>k2 k3. Dial (demo_host True) ipamDAddress k2 = (Val (), k3) \<Longrightarrow>
      \<exists>c2. del (connect (sim_ipam True) (demo_host True)) demo_args (rpc_run (sim_ipam True) [] c1, k2) =
        (fst (d_TeardownNS (demo_host True) net table k3),
         (c2, CloseConn (demo_host True) (snd (d_TeardownNS (demo_host True) net table k3)))) \<and>
        ds_held (dataStore c2) (k8sKey demo_ka) = None" by blast
  from t[OF demo_host_sel(3), of "[(net, table)]"] show ?thesis
    unfolding r fst_conv snd_conv by (simp add: demo_host_sel(5,8) del: split_paired_Ex) blast
qed

section \<open>The name of the interface\<close>

text \<open>
  A name Linux accepts for the host's end: at most 15 characters, the last eleven of them lower-case hexadecimal digits.
\<close>

definition vethNameOk :: "string \<Rightarrow> bool" where
  "vethNameOk name \<longleftrightarrow> 11 \<le> length name \<and> length name \<le> 15 \<and>
     list_all (\<lambda>c. c \<in> set ''0123456789abcdef'') (drop (length name - 11) name)"

lemma hexChar_digit: "0 \<le> d \<Longrightarrow> d < 16 \<Longrightarrow> hexChar d \<in> set ''0123456789abcdef''"
proof -
  assume "0 \<le> d" "d < 16"
  then have "nat d \<in> set [0..<16]" by auto
  moreover have "list_all (\<lambda>n. hexChar (int n) \<in> set ''0123456789abcdef'') [0..<16]" by code_simp
  ultimately have "hexChar (int (nat d)) \<in> set ''0123456789abcdef''" unfolding list_all_iff by (rule bspec[rotated])
  with \<open>0 \<le> d\<close> show ?thesis by simp
qed

lemma sha1_bytes: "\<forall>b \<in> set (sha1 msg). 0 \<le> b \<and> b < 256"
  by (auto simp: sha1_def Let_def bigEndian_def split: prod.splits)

lemma hexEncode_digits: "\<forall>b \<in> set bs. 0 \<le> b \<and> b < 256 \<Longrightarrow> set (hexEncode bs) \<subseteq> set ''0123456789abcdef''"
proof -
  assume "\<forall>b \<in> set bs. 0 \<le> b \<and> b < 256"
  then have "hexChar (b div 16) \<in> set ''0123456789abcdef'' \<and> hexChar (b mod 16) \<in> set ''0123456789abcdef''" if "b \<in> set bs" for b
    using that by (intro conjI hexChar_digit) auto
  then show ?thesis by (auto simp: hexEncode_def)
qed

lemma vethName_ok: "length prefix \<le> 4 \<Longrightarrow> vethNameOk (generateHostVethName prefix ns pod)"
proof -
  assume "length prefix \<le> 4"
  moreover have "set (take 11 (hexEncode (sha1 m))) \<subseteq> set ''0123456789abcdef''" for m
    using hexEncode_digits[OF sha1_bytes, of m] set_take_subset[of 11 "hexEncode (sha1 m)"] by (rule subset_trans[rotated])
  ultimately show ?thesis
    unfolding vethNameOk_def length_vethName list_all_iff
    by (auto simp: generateHostVethName_def simp del: set_simps list.set)
qed

text \<open>
  C17: the driver is only ever called with a well-formed interface name.  Whatever the configuration says of the prefix, \<^verbatim>\<open>add\<close> behaves
  as it would with a driver that panics on a name that is longer than 15 characters or does not end in eleven hexadecimal digits.
\<close>

theorem add_passes_valid_names:
  "add (api\<lparr>d_SetupNS := (\<lambda>name ifName netns addr table cidrs ext.
          if vethNameOk name then d_SetupNS api name ifName netns addr table cidrs ext else panicG ''bad interface name'')\<rparr>) args =
   add api args"
proof -
  define vp where "vp conf = (if VethPrefix conf = '''' then ''eni'' else VethPrefix conf)" for conf :: NetConf
  have ok: "vethNameOk (generateHostVethName (vp conf) ns pod)" if "length (vp conf) \<le> 4" for conf ns pod
    using that by (rule vethName_ok)
  show ?thesis unfolding add_def Let_def vp_def[symmetric] by (simp add: ok not_less cong: if_cong)
qed

end
