(* ===== verification/Discovery.thy ===== *)
theory Discovery
  imports DataStore GoStrings
begin

text \<open>
  The pod controller: \<^verbatim>\<open>pkg/k8sapi/discovery.go\<close>, with the work queue it runs on (the vendored
  \<^verbatim>\<open>k8s.io/client-go/util/workqueue\<close>).  Three goroutines share its state: the informer stores each
  object of the watch and then puts the object's key into the queue, the one worker takes keys out and
  handles them, and the queue's own goroutine puts rate-limited keys back.  Each call under one lock is an
  atomic step; the relation \<open>discStep\<close> interleaves them in every order.  The delays of rate-limited keys and
  the contents of an object that is not a pod are left open; log lines and queue metrics are left out.
\<close>

section \<open>The work queue\<close>

record workqueue =
  queue :: "string list"
  dirty :: "string set"
  processing :: "string set"
  shuttingDown :: bool
  failures :: "(string, int) gomap"
  waiting :: "string list"     \<comment> \<open>keys on their way through \<^verbatim>\<open>waitingLoop\<close>\<close>

definition NewRateLimitingQueue :: workqueue where
  "NewRateLimitingQueue = \<lparr>queue = [], dirty = {}, processing = {}, shuttingDown = False, failures = [], waiting = []\<rparr>"

definition wqAdd :: "string \<Rightarrow> workqueue \<Rightarrow> workqueue" where
  "wqAdd item q =
     (if shuttingDown q then q
      else if item \<in> dirty q then q
      else
        (let q = q\<lparr>dirty := insert item (dirty q)\<rparr> in
         if item \<in> processing q then q else q\<lparr>queue := queue q @ [item]\<rparr>))"

text \<open>\<open>None\<close>: the call blocks; \<open>Some (None, _)\<close>: the queue is drained and shutting down.\<close>

definition wqGet :: "workqueue \<Rightarrow> (string option \<times> workqueue) option" where
  "wqGet q =
     (case queue q of
        [] \<Rightarrow> if shuttingDown q then Some (None, q) else None
      | item # rest \<Rightarrow>
          Some (Some item, q\<lparr>queue := rest, processing := insert item (processing q), dirty := dirty q - {item}\<rparr>))"

definition wqDone :: "string \<Rightarrow> workqueue \<Rightarrow> workqueue" where
  "wqDone item q =
     (let q = q\<lparr>processing := processing q - {item}\<rparr> in
      if item \<in> dirty q then q\<lparr>queue := queue q @ [item]\<rparr> else q)"

definition wqShutDown :: "workqueue \<Rightarrow> workqueue" where
  "wqShutDown q = q\<lparr>shuttingDown := True\<rparr>"

definition NumRequeues :: "string \<Rightarrow> workqueue \<Rightarrow> int" where
  "NumRequeues item q = (case map_of (failures q) item of None \<Rightarrow> 0 | Some n \<Rightarrow> n)"

definition wqForget :: "string \<Rightarrow> workqueue \<Rightarrow> workqueue" where
  "wqForget item q = q\<lparr>failures := AList.delete item (failures q)\<rparr>"

text \<open>The item limiter's delay is at least 5 milliseconds, so \<^verbatim>\<open>AddAfter\<close> never adds at once.\<close>

definition AddRateLimited :: "string \<Rightarrow> workqueue \<Rightarrow> workqueue" where
  "AddRateLimited item q =
     (let q = q\<lparr>failures := AList.update item (wrap64 (NumRequeues item q + 1)) (failures q)\<rparr> in
      if shuttingDown q then q else q\<lparr>waiting := waiting q @ [item]\<rparr>)"

text \<open>The queue's goroutine adds an item whose time has come.\<close>

definition addReady :: "string \<Rightarrow> workqueue \<Rightarrow> workqueue" where
  "addReady item q = wqAdd item (q\<lparr>waiting := remove1 item (waiting q)\<rparr>)"

section \<open>Pods and the controller\<close>

record Pod =
  pod_Name :: string
  pod_Namespace :: string
  pod_UID :: string
  pod_NodeName :: string
  pod_HostNetwork :: bool
  pod_ContainerIDs :: "string list"
  pod_PodIP :: string

datatype obj = PodObj Pod | OtherObj string   \<comment> \<open>an object that is not a pod, by its key\<close>

definition MetaNamespaceKeyFunc :: "Pod \<Rightarrow> string" where
  "MetaNamespaceKeyFunc pod =
     (if 0 < length (pod_Namespace pod) then pod_Namespace pod @ ''/'' @ pod_Name pod else pod_Name pod)"

fun keyOf :: "obj \<Rightarrow> string" where
  "keyOf (PodObj pod) = MetaNamespaceKeyFunc pod"
| "keyOf (OtherObj k) = k"

definition cniPodName :: string where "cniPodName = ''aws-node''"
definition NamespaceSystem :: string where "NamespaceSystem = ''kube-system''"

definition ErrInformerNotSynced :: goerr where
  "ErrInformerNotSynced = Sentinel ''discovery: informer not synced''"

record discController =
  workerPods :: "(string, K8SPodInfo) gomap"
  cniPods :: "(string, string) gomap"
  myNodeName :: string
  synced :: bool

definition NewController :: "(string \<Rightarrow> string) \<Rightarrow> discController" where
  "NewController Getenv =
     \<lparr>workerPods = [], cniPods = [], myNodeName = Getenv ''MY_NODE_NAME'', synced = False\<rparr>"

definition GetCNIPods :: "discController \<Rightarrow> string list" where
  "GetCNIPods d = mkeys (cniPods d)"

definition K8SGetLocalPodIPs :: "discController \<Rightarrow> K8SPodInfo list res" where
  "K8SGetLocalPodIPs d =
     (if \<not> synced d then Err ErrInformerNotSynced else Val (map snd (workerPods d)))"

definition podInfo :: "Pod \<Rightarrow> K8SPodInfo" where
  "podInfo pod =
     \<lparr>Name = pod_Name pod, Namespace = pod_Namespace pod,
      Container = (if 0 < length (pod_ContainerIDs pod) then pod_ContainerIDs pod ! 0 else ''''),
      IP = pod_PodIP pod, UID = pod_UID pod\<rparr>"

text \<open>\<open>got\<close> is what \<^verbatim>\<open>indexer.GetByKey(key)\<close> returned.\<close>

definition handlePodUpdate :: "string \<Rightarrow> obj option res \<Rightarrow> (discController, unit) go" where
  "handlePodUpdate key got =
     bindG (resG got) (\<lambda>found.
     let isCNI = HasPrefix key (NamespaceSystem @ ''/'' @ cniPodName) in
     case found of
       None \<Rightarrow> modG (\<lambda>d.
         let d = d\<lparr>workerPods := AList.delete key (workerPods d)\<rparr> in
         if isCNI then d\<lparr>cniPods := AList.delete key (cniPods d)\<rparr> else d)
     | Some (OtherObj _) \<Rightarrow> errG (NewErr ''received a non-pod object update'')
     | Some (PodObj pod) \<Rightarrow> modG (\<lambda>d.
         let podName = pod_Name pod in
         if myNodeName d = pod_NodeName pod \<and> \<not> pod_HostNetwork pod
         then d\<lparr>workerPods := AList.update key (podInfo pod) (workerPods d)\<rparr>
         else if isCNI then d\<lparr>cniPods := AList.update podName podName (cniPods d)\<rparr>
         else d))"

definition handleErr :: "unit res \<Rightarrow> string \<Rightarrow> workqueue \<Rightarrow> workqueue" where
  "handleErr err key q =
     (case err of
        Err _ \<Rightarrow> if NumRequeues key q < 5 then AddRateLimited key q else wqForget key q
      | _ \<Rightarrow> wqForget key q)"

text \<open>One turn of the worker when nothing else runs; \<open>None\<close>: it waits for an item.\<close>

definition processNextItem ::
  "(string \<Rightarrow> obj option res) \<Rightarrow> discController \<times> workqueue \<Rightarrow> (bool \<times> discController \<times> workqueue) option" where
  "processNextItem GetByKey = (\<lambda>(d, q).
     case wqGet q of
       None \<Rightarrow> None
     | Some (None, q) \<Rightarrow> Some (False, d, q)
     | Some (Some key, q) \<Rightarrow>
         (case handlePodUpdate key (GetByKey key) d of
            (err, d) \<Rightarrow> Some (True, d, wqDone key (handleErr err key q))))"

lemma AddRateLimited_fields [simp]:
  "queue (AddRateLimited k q) = queue q" "dirty (AddRateLimited k q) = dirty q"
  "processing (AddRateLimited k q) = processing q" "shuttingDown (AddRateLimited k q) = shuttingDown q"
  by (simp_all add: AddRateLimited_def Let_def)

lemma handleErr_fields [simp]:
  "queue (handleErr r k q) = queue q" "dirty (handleErr r k q) = dirty q"
  "processing (handleErr r k q) = processing q" "shuttingDown (handleErr r k q) = shuttingDown q"
  by (simp_all add: handleErr_def wqForget_def split: res.split)

lemma processNextItem_shrinks:
  assumes "processNextItem g (d, q) = Some (True, d', q')"
  shows "length (queue q') < length (queue q)"
  using assms
  by (auto simp: processNextItem_def wqGet_def wqDone_def Let_def split: list.splits if_splits prod.splits)

text \<open>\<^verbatim>\<open>for d.processNextItem() {}\<close>, until it waits or the queue is shut down.\<close>

function runWorker :: "(string \<Rightarrow> obj option res) \<Rightarrow> discController \<times> workqueue \<Rightarrow> discController \<times> workqueue" where
  "runWorker g s =
     (case processNextItem g s of
        None \<Rightarrow> s
      | Some (True, s') \<Rightarrow> runWorker g s'
      | Some (False, s') \<Rightarrow> s')"
  by pat_completeness auto
termination
  by (relation "measure (\<lambda>(g, d, q). length (queue q))") (auto dest: processNextItem_shrinks)

declare runWorker.simps [simp del]

section \<open>The goroutines, interleaved\<close>

datatype informerPC = InfIdle | InfNotify string
datatype workerPC = WIdle | WGot string | WRead string "obj option res" | WHandled string "unit res" | WFinish string

record discovery =
  ctl :: discController
  wq :: workqueue
  store :: "string \<rightharpoonup> obj"      \<comment> \<open>the informer's indexer\<close>
  informer :: informerPC
  wrk :: workerPC

definition discInit :: "(string \<Rightarrow> string) \<Rightarrow> discovery" where
  "discInit Getenv =
     \<lparr>ctl = NewController Getenv, wq = NewRateLimitingQueue, store = Map.empty, informer = InfIdle, wrk = WIdle\<rparr>"

text \<open>
  The informer's callbacks of \<^verbatim>\<open>DiscoverK8SPods\<close> (\<open>stored\<close>, \<open>removed\<close>, \<open>notify\<close>), \<^verbatim>\<open>run\<close> (\<open>sync\<close>,
  \<open>shutdown\<close>), the worker's \<^verbatim>\<open>processNextItem\<close> (\<open>get\<close> to \<open>finish\<close>) and the queue's own goroutine (\<open>ready\<close>).
\<close>

inductive discStep :: "discovery \<Rightarrow> discovery \<Rightarrow> bool" where
  stored: "informer s = InfIdle \<Longrightarrow> k = keyOf ob \<Longrightarrow>
    discStep s (s\<lparr>store := (store s)(k \<mapsto> ob), informer := InfNotify k\<rparr>)"
| removed: "informer s = InfIdle \<Longrightarrow> discStep s (s\<lparr>store := (store s)(k := None), informer := InfNotify k\<rparr>)"
| notify: "informer s = InfNotify k \<Longrightarrow> discStep s (s\<lparr>wq := wqAdd k (wq s), informer := InfIdle\<rparr>)"
| sync: "discStep s (s\<lparr>ctl := (ctl s)\<lparr>synced := True\<rparr>\<rparr>)"
| get: "synced (ctl s) \<Longrightarrow> wrk s = WIdle \<Longrightarrow> wqGet (wq s) = Some (Some k, q) \<Longrightarrow>
    discStep s (s\<lparr>wq := q, wrk := WGot k\<rparr>)"
| read: "wrk s = WGot k \<Longrightarrow> discStep s (s\<lparr>wrk := WRead k (Val (store s k))\<rparr>)"
| handle: "wrk s = WRead k got \<Longrightarrow> handlePodUpdate k got (ctl s) = (err, d) \<Longrightarrow>
    discStep s (s\<lparr>ctl := d, wrk := WHandled k err\<rparr>)"
| account: "wrk s = WHandled k err \<Longrightarrow> discStep s (s\<lparr>wq := handleErr err k (wq s), wrk := WFinish k\<rparr>)"
| finish: "wrk s = WFinish k \<Longrightarrow> discStep s (s\<lparr>wq := wqDone k (wq s), wrk := WIdle\<rparr>)"
| ready: "k \<in> set (waiting (wq s)) \<Longrightarrow> discStep s (s\<lparr>wq := addReady k (wq s)\<rparr>)"
| shutdown: "discStep s (s\<lparr>wq := wqShutDown (wq s)\<rparr>)"

text \<open>Runs in which every object the informer holds satisfies \<open>ok\<close>.\<close>

inductive discRun :: "(obj \<Rightarrow> bool) \<Rightarrow> discovery \<Rightarrow> discovery \<Rightarrow> bool" for ok s0 where
  start: "discRun ok s0 s0"
| step: "discRun ok s0 s \<Longrightarrow> discStep s s' \<Longrightarrow> (\<And>ob. ob \<in> ran (store s') \<Longrightarrow> ok ob) \<Longrightarrow> discRun ok s0 s'"


end
