(* ===== verification/DiscoveryProps.thy ===== *)
theory DiscoveryProps
  imports Discovery
begin

text \<open>
  What the pod controller of \<open>Discovery\<close> guarantees: the contract of the work queue (a locale, interpreted on
  the queue's model), the invariant of the interleaved goroutines, that the worker drains the queue, and
  what the list of local pods then holds; and the two ways in which its caches go stale.
\<close>

section \<open>The contract of the work queue\<close>

locale work_queue =
  fixes Add :: "'k \<Rightarrow> 'q \<Rightarrow> 'q" and Get :: "'q \<Rightarrow> ('k option \<times> 'q) option" and Done :: "'k \<Rightarrow> 'q \<Rightarrow> 'q"
    and pending :: "'q \<Rightarrow> 'k set" and busy :: "'q \<Rightarrow> 'k set" and closed :: "'q \<Rightarrow> bool" and inv :: "'q \<Rightarrow> bool"
  assumes inv_Add: "inv q \<Longrightarrow> inv (Add k q)"
    and inv_Get: "inv q \<Longrightarrow> Get q = Some (Some k, q') \<Longrightarrow> inv q'"
    and inv_Done: "inv q \<Longrightarrow> k \<in> busy q \<Longrightarrow> inv (Done k q)"
    and pending_Add: "pending (Add k q) = (if closed q then pending q else insert k (pending q))"
    and pending_Get: "Get q = Some (Some k, q') \<Longrightarrow> pending q' = pending q - {k}"
    and pending_Done: "pending (Done k q) = pending q"
    and busy_Add: "busy (Add k q) = busy q"
    and busy_Get: "Get q = Some (Some k, q') \<Longrightarrow> busy q' = insert k (busy q)"
    and busy_Done: "busy (Done k q) = busy q - {k}"
    and closed_ops: "closed (Add k q) = closed q" "closed (Done k q) = closed q"
      "Get q = Some (Some k, q') \<Longrightarrow> closed q' = closed q"
    and Get_fresh: "inv q \<Longrightarrow> Get q = Some (Some k, q') \<Longrightarrow> k \<in> pending q - busy q"
    and Get_None: "inv q \<Longrightarrow> (\<nexists>k q'. Get q = Some (Some k, q')) \<Longrightarrow> pending q \<subseteq> busy q"
begin

lemmas pending_ops = pending_Add pending_Get pending_Done

lemma idle_drained: "inv q \<Longrightarrow> busy q = {} \<Longrightarrow> (\<nexists>k q'. Get q = Some (Some k, q')) \<Longrightarrow> pending q = {}"
  using Get_None by blast

text \<open>No key is handled twice at the same time, and a key added while it is handled is not lost.\<close>

lemma added_while_busy:
  assumes "inv q" "Get q = Some (Some k, q')" "\<not> closed q"
  shows "k \<in> pending (Done k (Add k q')) \<and> k \<notin> busy (Done k (Add k q'))"
  using assms by (simp add: pending_ops busy_Done closed_ops)

end

definition wqInv :: "workqueue \<Rightarrow> bool" where
  "wqInv q \<longleftrightarrow> distinct (queue q) \<and> set (queue q) = dirty q - processing q"

interpretation wq: work_queue wqAdd wqGet wqDone dirty processing shuttingDown wqInv
  by unfold_locales
    (auto simp: wqAdd_def wqGet_def wqDone_def wqInv_def Let_def split: list.splits if_splits)

lemma wqInv_handleErr [simp]: "wqInv (handleErr r k q) = wqInv q"
  by (simp add: wqInv_def)

lemma addReady_fields [simp]:
  "dirty (addReady k q) = (if shuttingDown q then dirty q else insert k (dirty q))"
  "processing (addReady k q) = processing q" "shuttingDown (addReady k q) = shuttingDown q"
  by (simp_all add: addReady_def wq.pending_Add wq.busy_Add wq.closed_ops(1,2))

lemma wqInv_addReady: "wqInv q \<Longrightarrow> wqInv (addReady k q)"
  unfolding addReady_def by (rule wq.inv_Add) (simp add: wqInv_def)

lemma wqShutDown_fields [simp]:
  "dirty (wqShutDown q) = dirty q" "processing (wqShutDown q) = processing q" "shuttingDown (wqShutDown q)"
  "wqInv (wqShutDown q) = wqInv q"
  by (simp_all add: wqShutDown_def wqInv_def)

section \<open>The invariant\<close>

definition onMyNode :: "discController \<Rightarrow> Pod \<Rightarrow> bool" where
  "onMyNode d pod \<longleftrightarrow> myNodeName d = pod_NodeName pod \<and> \<not> pod_HostNetwork pod"

text \<open>What the worker's cache says of a key, once the key has been handled.\<close>

definition current :: "discController \<Rightarrow> obj option \<Rightarrow> string \<Rightarrow> bool" where
  "current d found k =
     (case found of
        None \<Rightarrow> map_of (workerPods d) k = None
      | Some (PodObj pod) \<Rightarrow> onMyNode d pod \<longrightarrow> map_of (workerPods d) k = Some (podInfo pod)
      | Some (OtherObj _) \<Rightarrow> True)"

definition infoKey :: "K8SPodInfo \<Rightarrow> string" where
  "infoKey i = (if 0 < length (Namespace i) then Namespace i @ ''/'' @ Name i else Name i)"

fun workerKeys :: "workerPC \<Rightarrow> string set" where
  "workerKeys WIdle = {}"
| "workerKeys (WGot k) = {k}"
| "workerKeys (WRead k _) = {k}"
| "workerKeys (WHandled k _) = {k}"
| "workerKeys (WFinish k) = {k}"

fun upToDate :: "discovery \<Rightarrow> workerPC \<Rightarrow> string \<Rightarrow> bool" where
  "upToDate s (WGot j) k \<longleftrightarrow> k = j \<or> current (ctl s) (store s k) k"
| "upToDate s (WRead j got) k \<longleftrightarrow> (if k = j then got = Val (store s k) else current (ctl s) (store s k) k)"
| "upToDate s _ k \<longleftrightarrow> current (ctl s) (store s k) k"

definition discInv :: "discovery \<Rightarrow> bool" where
  "discInv s \<longleftrightarrow>
     wqInv (wq s) \<and> processing (wq s) = workerKeys (wrk s) \<and>
     mwf (workerPods (ctl s)) \<and> mwf (cniPods (ctl s)) \<and>
     (\<forall>k ob. store s k = Some ob \<longrightarrow> keyOf ob = k) \<and>
     (\<forall>k i. map_of (workerPods (ctl s)) k = Some i \<longrightarrow> infoKey i = k) \<and>
     (\<forall>k got. wrk s = WRead k got \<longrightarrow> (\<exists>found. got = Val found \<and> (\<forall>ob. found = Some ob \<longrightarrow> keyOf ob = k))) \<and>
     (\<not> shuttingDown (wq s) \<longrightarrow>
       (\<forall>k. k \<notin> dirty (wq s) \<and> informer s \<noteq> InfNotify k \<longrightarrow> upToDate s (wrk s) k))"

lemma discInvD:
  assumes "discInv s"
  shows "wqInv (wq s)" "processing (wq s) = workerKeys (wrk s)" "mwf (workerPods (ctl s))" "mwf (cniPods (ctl s))"
    "store s k = Some ob \<Longrightarrow> keyOf ob = k" "map_of (workerPods (ctl s)) k = Some i \<Longrightarrow> infoKey i = k"
  using assms unfolding discInv_def by blast+

lemma handlePodUpdate_mwf:
  assumes "handlePodUpdate k got d = (err, d')"
  shows "mwf (workerPods d) \<Longrightarrow> mwf (workerPods d')" "mwf (cniPods d) \<Longrightarrow> mwf (cniPods d')"
    "myNodeName d' = myNodeName d" "synced d' = synced d"
  using assms unfolding handlePodUpdate_def
  by (auto simp: bindG_def resG_def modG_def errG_def Let_def split: res.splits option.splits obj.splits if_splits)

lemma handlePodUpdate_current:
  assumes "handlePodUpdate k (Val found) d = (err, d')"
  shows "current d' found k" "j \<noteq> k \<Longrightarrow> current d' fj j = current d fj j"
  using assms unfolding handlePodUpdate_def
  by (auto simp: resG_def bindG_def modG_def errG_def Let_def current_def onMyNode_def gomap_simps
      split: option.splits obj.splits if_splits)

lemma infoKey_podInfo [simp]: "infoKey (podInfo pod) = MetaNamespaceKeyFunc pod"
  by (simp add: infoKey_def podInfo_def MetaNamespaceKeyFunc_def)

lemma handlePodUpdate_infoKey:
  assumes "handlePodUpdate k (Val found) d = (err, d')" "\<forall>ob. found = Some ob \<longrightarrow> keyOf ob = k"
    and "\<forall>k i. map_of (workerPods d) k = Some i \<longrightarrow> infoKey i = k"
  shows "\<forall>k i. map_of (workerPods d') k = Some i \<longrightarrow> infoKey i = k"
  using assms unfolding handlePodUpdate_def
  by (auto simp: resG_def bindG_def modG_def errG_def Let_def gomap_simps split: option.splits obj.splits if_splits)

lemma current_synced [simp]: "current (d\<lparr>synced := b\<rparr>) found k = current d found k"
  by (simp add: current_def onMyNode_def split: option.split obj.split)

lemma discInv_init: "discInv (discInit env)"
  by (simp add: discInv_def discInit_def NewController_def NewRateLimitingQueue_def wqInv_def current_def)

lemma discInv_handle:
  assumes "wrk s = WRead k got" "handlePodUpdate k got (ctl s) = (err, d)" "discInv s"
  shows "discInv (s\<lparr>ctl := d, wrk := WHandled k err\<rparr>)"
proof -
  obtain found where got: "got = Val found" and key: "\<forall>ob. found = Some ob \<longrightarrow> keyOf ob = k"
    using assms by (auto simp: discInv_def)
  note h = assms(2)[unfolded got]
  have I: "wqInv (wq s)" "processing (wq s) = {k}" "mwf (workerPods d)" "mwf (cniPods d)" "\<forall>k ob. store s k = Some ob \<longrightarrow> keyOf ob = k"
    "\<forall>k i. map_of (workerPods d) k = Some i \<longrightarrow> infoKey i = k"
    subgoal using assms by (simp add: discInv_def)
    subgoal using assms by (simp add: discInv_def)
    subgoal using assms handlePodUpdate_mwf(1)[OF h] by (simp add: discInv_def)
    subgoal using assms handlePodUpdate_mwf(2)[OF h] by (simp add: discInv_def)
    subgoal using assms(3) unfolding discInv_def by blast
    subgoal using handlePodUpdate_infoKey[OF h key] assms(3) unfolding discInv_def by blast
    done
  have "current d (store s j) j" if "\<not> shuttingDown (wq s)" "j \<notin> dirty (wq s)" "informer s \<noteq> InfNotify j" for j
  proof -
    have "upToDate s (WRead k got) j" using assms that by (simp add: discInv_def)
    then show ?thesis using handlePodUpdate_current[OF h] by (cases "j = k") (simp_all add: got)
  qed
  with I show ?thesis unfolding discInv_def by simp
qed

lemma discInv_step:
  assumes "discStep s s'" "discInv s"
  shows "discInv s'"
  using assms
proof (induction rule: discStep.induct)
  case (stored s k ob)
  then show ?case by (cases "wrk s") (auto simp: discInv_def split: if_splits)
next
  case (removed s k)
  then show ?case by (cases "wrk s") (auto simp: discInv_def split: if_splits)
next
  case (notify s k)
  then show ?case
    by (cases "wrk s") (auto simp: discInv_def wq.inv_Add wq.busy_Add wq.pending_Add wq.closed_ops(1,2) split: if_splits)
next
  case (sync s)
  then show ?case by (cases "wrk s") (auto simp: discInv_def split: if_splits)
next
  case (get s k q)
  then show ?case
    using wq.inv_Get[of "wq s" k q] wq.pending_Get[of "wq s" k q] wq.busy_Get[of "wq s" k q] wq.closed_ops(3)[of "wq s" k q]
    by (auto simp: discInv_def)
next
  case (read s k)
  then show ?case by (auto simp: discInv_def)
next
  case (handle s k got err d)
  then show ?case by (intro discInv_handle)
next
  case (account s k err)
  then show ?case by (auto simp: discInv_def)
next
  case (finish s k)
  then show ?case
    by (auto simp: discInv_def wq.inv_Done wq.busy_Done wq.pending_Done wq.closed_ops(1,2))
next
  case (ready k s)
  then show ?case by (cases "wrk s") (auto simp: discInv_def wqInv_addReady)
next
  case (shutdown s)
  then show ?case by (cases "wrk s") (auto simp: discInv_def)
qed

lemma discInv_run: "discRun ok s0 s \<Longrightarrow> discInv s0 \<Longrightarrow> discInv s"
  by (induction rule: discRun.induct) (auto intro: discInv_step)


section \<open>The worker drains the queue\<close>

lemma discRun_trans:
  assumes "discRun ok s0 s" "discRun ok s s'"
  shows "discRun ok s0 s'"
  using assms(2,1) by (induction rule: discRun.induct) (auto intro: discRun.step)

text \<open>One call of \<^verbatim>\<open>processNextItem\<close> is five steps of the worker in a row.\<close>

lemma processNextItem_run:
  assumes "processNextItem (\<lambda>k. Val (store s k)) (ctl s, wq s) = Some (True, d, q)"
    and "wrk s = WIdle" "synced (ctl s)" "\<And>ob. ob \<in> ran (store s) \<Longrightarrow> ok ob"
  shows "discRun ok s (s\<lparr>ctl := d, wq := q\<rparr>)"
proof -
  obtain k q1 err where g: "wqGet (wq s) = Some (Some k, q1)"
    and h: "handlePodUpdate k (Val (store s k)) (ctl s) = (err, d)" and q: "q = wqDone k (handleErr err k q1)"
    using assms(1) by (auto simp: processNextItem_def split: option.splits prod.splits)
  let ?s1 = "s\<lparr>wq := q1, wrk := WGot k\<rparr>"
  let ?s2 = "s\<lparr>wq := q1, wrk := WRead k (Val (store s k))\<rparr>"
  let ?s3 = "s\<lparr>ctl := d, wq := q1, wrk := WHandled k err\<rparr>"
  let ?s4 = "s\<lparr>ctl := d, wq := handleErr err k q1, wrk := WFinish k\<rparr>"
  have 1: "discStep s ?s1" using assms g by (intro discStep.get) auto
  have 2: "discStep ?s1 ?s2" using discStep.read[of ?s1 k] by simp
  have 3: "discStep ?s2 ?s3" using discStep.handle[of ?s2 k "Val (store s k)" err d] h by (cases s) simp
  have 4: "discStep ?s3 ?s4" using discStep.account[of ?s3 k err] by (cases s) simp
  have 5: "discStep ?s4 (s\<lparr>ctl := d, wq := q, wrk := WIdle\<rparr>)" using discStep.finish[of ?s4 k] by (cases s) (simp add: q)
  have "s\<lparr>ctl := d, wq := q, wrk := WIdle\<rparr> = s\<lparr>ctl := d, wq := q\<rparr>" using assms(2) by (cases s) simp
  moreover have r1: "discRun ok s ?s1" using discRun.step[OF discRun.start 1] assms(4) by simp
  have r2: "discRun ok s ?s2" using discRun.step[OF r1 2] assms(4) by simp
  have r3: "discRun ok s ?s3" using discRun.step[OF r2 3] assms(4) by simp
  have r4: "discRun ok s ?s4" using discRun.step[OF r3 4] assms(4) by simp
  have "discRun ok s (s\<lparr>ctl := d, wq := q, wrk := WIdle\<rparr>)" using discRun.step[OF r4 5] assms(4) by simp
  ultimately show ?thesis by simp
qed

lemma runWorker_steps:
  "processNextItem g s = None \<Longrightarrow> runWorker g s = s"
  "processNextItem g s = Some (True, s') \<Longrightarrow> runWorker g s = runWorker g s'"
  subgoal by (simp add: runWorker.simps[of g s])
  subgoal by (simp only: runWorker.simps[of g s] option.case prod.case bool.case)
  done

lemma processNextItem_open:
  assumes "processNextItem g (d, q) = Some (b, d', q')" "\<not> shuttingDown q"
  shows "b \<and> \<not> shuttingDown q' \<and> synced d' = synced d"
proof (cases "queue q")
  case (Cons k rest)
  obtain err d1 where h: "handlePodUpdate k (g k) d = (err, d1)" by (cases "handlePodUpdate k (g k) d")
  with assms Cons show ?thesis
    using handlePodUpdate_mwf(4)[OF h] by (auto simp: processNextItem_def wqGet_def wq.closed_ops(1,2))
qed (use assms in \<open>simp add: processNextItem_def wqGet_def\<close>)

lemma processNextItem_blocked: "processNextItem g (d, q) = None \<Longrightarrow> queue q = []"
  by (auto simp: processNextItem_def wqGet_def split: list.splits prod.splits if_splits)

text \<open>The worker's loop ends with an empty queue, and it is a run of the step relation.\<close>

lemma runWorker_run:
  assumes "wrk s = WIdle" "synced (ctl s)" "\<And>ob. ob \<in> ran (store s) \<Longrightarrow> ok ob" "\<not> shuttingDown (wq s)"
    and "runWorker (\<lambda>k. Val (store s k)) (ctl s, wq s) = (d, q)"
  shows "discRun ok s (s\<lparr>ctl := d, wq := q\<rparr>) \<and> queue q = [] \<and> \<not> shuttingDown q \<and> synced d"
  using assms
proof (induction "length (queue (wq s))" arbitrary: s rule: less_induct)
  case less
  let ?g = "\<lambda>k. Val (store s k)"
  show ?case
  proof (cases "processNextItem ?g (ctl s, wq s)")
    case None
    then have "d = ctl s" "q = wq s" using less.prems(5) by (simp_all add: runWorker_steps)
    then show ?thesis using less.prems None by (auto simp: processNextItem_blocked intro: discRun.start)
  next
    case (Some r)
    obtain b d' q' where r: "r = (b, d', q')" by (cases r)
    have b: "b \<and> \<not> shuttingDown q' \<and> synced d'"
      using processNextItem_open[of ?g "ctl s" "wq s" b d' q'] Some less.prems(2,4) r by simp
    let ?s = "s\<lparr>ctl := d', wq := q'\<rparr>"
    have p: "processNextItem ?g (ctl s, wq s) = Some (True, d', q')" using Some b r by simp
    have "runWorker ?g (d', q') = (d, q)" using less.prems(5) by (simp add: runWorker_steps(2)[OF p])
    then have "discRun ok ?s (?s\<lparr>ctl := d, wq := q\<rparr>) \<and> queue q = [] \<and> \<not> shuttingDown q \<and> synced d"
      using less.hyps[of ?s] less.prems(1,3) b processNextItem_shrinks[OF p] by simp
    moreover have "discRun ok s ?s" using processNextItem_run[OF p] less.prems by blast
    ultimately show ?thesis using discRun_trans by fastforce
  qed
qed

text \<open>Nothing is on its way: the worker and the informer are idle and no key is due.\<close>

definition drained :: "discovery \<Rightarrow> bool" where
  "drained s \<longleftrightarrow> wrk s = WIdle \<and> informer s = InfIdle \<and> dirty (wq s) = {} \<and> \<not> shuttingDown (wq s)"

lemma worker_drains:
  assumes "discInv s" "wrk s = WIdle" "informer s = InfIdle" "synced (ctl s)" "\<not> shuttingDown (wq s)"
    and "\<And>ob. ob \<in> ran (store s) \<Longrightarrow> ok ob"
    and "runWorker (\<lambda>k. Val (store s k)) (ctl s, wq s) = (d, q)" and "s' = s\<lparr>ctl := d, wq := q\<rparr>"
  shows "discRun ok s s'" "drained s'" "synced d" "discInv s'"
proof -
  have r: "discRun ok s s' \<and> queue q = [] \<and> \<not> shuttingDown q \<and> synced d"
    using runWorker_run[OF assms(2,4,6,5,7)] assms(8) by simp
  then have i: "discInv s'" using assms(1) discInv_run by blast
  then have "wqInv q" "processing q = {}" using assms by (auto simp: discInv_def)
  then have "dirty q = {}" using r by (simp add: wqInv_def)
  with r i assms show "discRun ok s s'" "drained s'" "synced d" "discInv s'" by (auto simp: drained_def)
qed

lemma drained_current: "discInv s \<Longrightarrow> drained s \<Longrightarrow> current (ctl s) (store s k) k"
  by (simp add: discInv_def drained_def)

lemma myNodeName_step: "discStep s s' \<Longrightarrow> myNodeName (ctl s') = myNodeName (ctl s)"
  by (induction rule: discStep.induct) (auto dest: handlePodUpdate_mwf(3))

lemma myNodeName_run: "discRun ok s s' \<Longrightarrow> myNodeName (ctl s') = myNodeName (ctl s)"
  by (induction rule: discRun.induct) (simp_all add: myNodeName_step)

lemma listed_iff: "synced d \<Longrightarrow> mwf (workerPods d) \<Longrightarrow>
    \<exists>pods. K8SGetLocalPodIPs d = Val pods \<and> (\<forall>i. i \<in> set pods \<longleftrightarrow> (\<exists>k. map_of (workerPods d) k = Some i))"
  by (auto simp: K8SGetLocalPodIPs_def mwf_map_of) force

section \<open>The list of local pods\<close>

text \<open>
  C13: whatever the interleaving so far, once the informer is synced and the informer and the worker are idle,
  the worker's loop ends with nothing left to handle, this is a run of the system, and the list of local
  pods then holds every pod of the informer's store that runs on this node without the host's network, with
  its current data; and each listed pod has an object under its key in the store and agrees with it if that is
  a pod of this node.
\<close>

theorem worker_lists_local_pods:
  assumes "discRun (\<lambda>_. True) (discInit env) s" "wrk s = WIdle" "informer s = InfIdle"
    and "synced (ctl s)" "\<not> shuttingDown (wq s)"
    and "runWorker (\<lambda>k. Val (store s k)) (ctl s, wq s) = (d, q)" "s' = s\<lparr>ctl := d, wq := q\<rparr>"
  shows "discRun (\<lambda>_. True) s s' \<and> drained s' \<and>
    (\<exists>pods. K8SGetLocalPodIPs d = Val pods \<and>
       (\<forall>k pod. store s k = Some (PodObj pod) \<and> pod_NodeName pod = env ''MY_NODE_NAME'' \<and> \<not> pod_HostNetwork pod
          \<longrightarrow> podInfo pod \<in> set pods) \<and>
       (\<forall>i \<in> set pods. \<exists>ob. store s (infoKey i) = Some ob \<and>
          (\<forall>pod. ob = PodObj pod \<and> pod_NodeName pod = env ''MY_NODE_NAME'' \<and> \<not> pod_HostNetwork pod \<longrightarrow> i = podInfo pod)))"
proof -
  have "discInv s" using discInv_run[OF assms(1) discInv_init] .
  note w = worker_drains[OF this assms(2-5) _ assms(6,7), of "\<lambda>_. True", OF TrueI]
  have node: "myNodeName d = env ''MY_NODE_NAME''"
    using myNodeName_run[OF discRun_trans[OF assms(1) w(1)]] assms(7) by (simp add: discInit_def NewController_def)
  have cur: "current d (store s k) k" for k using drained_current[OF w(4,2), of k] assms(7) by simp
  have keys: "map_of (workerPods d) k = Some i \<Longrightarrow> infoKey i = k" for k i
    using discInvD(6)[OF w(4)] assms(7) by simp
  obtain pods where pods: "K8SGetLocalPodIPs d = Val pods" "\<And>i. i \<in> set pods \<longleftrightarrow> (\<exists>k. map_of (workerPods d) k = Some i)"
    using listed_iff[OF w(3)] discInvD(3)[OF w(4)] assms(7) by auto
  have "podInfo pod \<in> set pods"
    if "store s k = Some (PodObj pod)" "pod_NodeName pod = env ''MY_NODE_NAME''" "\<not> pod_HostNetwork pod" for k pod
    using cur[of k] that by (auto simp: current_def onMyNode_def node pods(2))
  moreover have "\<exists>ob. store s (infoKey i) = Some ob \<and>
      (\<forall>pod. ob = PodObj pod \<and> pod_NodeName pod = env ''MY_NODE_NAME'' \<and> \<not> pod_HostNetwork pod \<longrightarrow> i = podInfo pod)"
    if mem: "i \<in> set pods" for i
  proof -
    obtain k where k: "map_of (workerPods d) k = Some i" using pods(2)[of i] mem by auto
    then obtain ob where ob: "store s k = Some ob" using cur[of k] by (cases "store s k") (simp_all add: current_def)
    have "i = podInfo pod" if "ob = PodObj pod" "pod_NodeName pod = env ''MY_NODE_NAME''" "\<not> pod_HostNetwork pod" for pod
      using cur[of k] k that by (simp add: ob current_def onMyNode_def node)
    then show ?thesis unfolding keys[OF k] using ob by blast
  qed
  ultimately show ?thesis using w(1,2) pods(1) by blast
qed

section \<open>Stale entries\<close>

lemma runWorker_one:
  assumes "queue q = [k]" "handlePodUpdate k (g k) d = (Val (), d')"
  shows "fst (runWorker g (d, q)) = d'"
proof -
  obtain q' where p: "processNextItem g (d, q) = Some (True, d', q')"
    using assms by (simp add: processNextItem_def wqGet_def)
  have "queue q' = []" using processNextItem_shrinks[OF p] assms(1) by simp
  then have "runWorker g (d', q') = (d', q')"
    using runWorker.simps[of g "(d', q')"] by (simp add: processNextItem_def wqGet_def)
  then show ?thesis by (simp add: runWorker_steps(2)[OF p])
qed

lemma drained_empty: "discInv s \<Longrightarrow> drained s \<Longrightarrow> queue (wq s) = [] \<and> processing (wq s) = {}"
  by (simp add: discInv_def drained_def wqInv_def)

text \<open>
  A pod whose deletion and re-creation under the same name on another node are both observed before the
  worker comes to its key stays in the list of local pods: from every state in which nothing is on its way,
  a run leads to one in which nothing is on its way, the store holds the new pod and the list the old.
\<close>

theorem recreated_pod_stays_listed:
  assumes "discRun (\<lambda>_. True) (discInit env) s" "drained s" "synced (ctl s)"
    and "store s k = Some (PodObj old)" "pod_NodeName old = env ''MY_NODE_NAME''" "\<not> pod_HostNetwork old"
    and "MetaNamespaceKeyFunc new = k" "pod_NodeName new \<noteq> env ''MY_NODE_NAME''"
  shows "\<exists>s' pods. discRun (\<lambda>_. True) s s' \<and> drained s' \<and> store s' = (store s)(k \<mapsto> PodObj new) \<and>
           K8SGetLocalPodIPs (ctl s') = Val pods \<and> podInfo old \<in> set pods"
proof -
  let ?ok = "\<lambda>_ :: obj. True"
  let ?s1 = "s\<lparr>store := (store s)(k := None), informer := InfNotify k\<rparr>"
  let ?s2 = "?s1\<lparr>wq := wqAdd k (wq s), informer := InfIdle\<rparr>"
  let ?s3 = "?s2\<lparr>store := (store s)(k \<mapsto> PodObj new), informer := InfNotify k\<rparr>"
  let ?s4 = "?s3\<lparr>wq := wqAdd k (wqAdd k (wq s)), informer := InfIdle\<rparr>"
  have inv: "discInv s" using discInv_run[OF assms(1) discInv_init] .
  have d: "wrk s = WIdle" "informer s = InfIdle" "dirty (wq s) = {}" "\<not> shuttingDown (wq s)"
    using assms(2) by (auto simp: drained_def)
  have 1: "discStep s ?s1" using d by (intro discStep.removed) simp
  have 2: "discStep ?s1 ?s2" using discStep.notify[of ?s1 k] by simp
  have 3: "discStep ?s2 ?s3" using discStep.stored[of ?s2 k "PodObj new", OF _ assms(7)[symmetric, folded keyOf.simps]] by simp
  have 4: "discStep ?s3 ?s4" using discStep.notify[of ?s3 k] by simp
  note st = discRun.step[where ok = ?ok, OF _ _ TrueI]
  have run: "discRun ?ok s ?s4" by (rule st[OF st[OF st[OF st[OF discRun.start 1] 2] 3] 4])
  then have inv4: "discInv ?s4" using discInv_run inv by blast
  obtain c q where w: "runWorker (\<lambda>j. Val (store ?s4 j)) (ctl ?s4, wq ?s4) = (c, q)" by fastforce
  have cl: "\<not> shuttingDown (wq ?s4)" using d by (simp add: wq.closed_ops(1,2))
  note wd = worker_drains[OF inv4 _ _ _ cl _ w refl, of ?ok]
  have q4: "queue (wq ?s4) = [k]" using drained_empty[OF inv assms(2)] d by (simp add: wqAdd_def)
  have node: "myNodeName (ctl s) = env ''MY_NODE_NAME''"
    using myNodeName_run[OF assms(1)] by (simp add: discInit_def NewController_def)
  obtain c' where h: "handlePodUpdate k (Val (store ?s4 k)) (ctl ?s4) = (Val (), c')" "workerPods c' = workerPods (ctl s)"
    using assms(8) node by (auto simp: handlePodUpdate_def resG_def modG_def bindG_def Let_def)
  have c: "c = c'" using runWorker_one[where g = "\<lambda>j. Val (store ?s4 j)", OF q4 h(1)] w by simp
  have "map_of (workerPods c) k = Some (podInfo old)"
    using drained_current[OF inv assms(2), of k] assms(4-6) node h(2) by (simp add: c current_def onMyNode_def)
  moreover have "synced c" "mwf (workerPods c)" using wd(3) discInvD(3)[OF wd(4)] d assms(3) by simp_all
  ultimately obtain pods where "K8SGetLocalPodIPs c = Val pods" "podInfo old \<in> set pods"
    using listed_iff[of c] by blast
  moreover have "discRun ?ok s (?s4\<lparr>ctl := c, wq := q\<rparr>)" "drained (?s4\<lparr>ctl := c, wq := q\<rparr>)"
    using discRun_trans[OF run wd(1)] wd(2) d assms(3) by simp_all
  ultimately show ?thesis by (intro exI[of _ "?s4\<lparr>ctl := c, wq := q\<rparr>"] exI[of _ pods]) simp
qed


text \<open>One object is observed, or its removal, and handled.\<close>

lemma observe:
  assumes "discInv s" "drained s" "synced (ctl s)" "\<forall>ob. found = Some ob \<longrightarrow> keyOf ob = k"
    and "\<And>ob. ob \<in> ran ((store s)(k := found)) \<Longrightarrow> ok ob"
    and "handlePodUpdate k (Val found) (ctl s) = (Val (), d)"
  shows "\<exists>s'. discRun ok s s' \<and> discInv s' \<and> drained s' \<and> synced d \<and> ctl s' = d \<and> store s' = (store s)(k := found)"
proof -
  let ?s1 = "s\<lparr>store := (store s)(k := found), informer := InfNotify k\<rparr>"
  let ?s2 = "?s1\<lparr>wq := wqAdd k (wq s), informer := InfIdle\<rparr>"
  have d: "wrk s = WIdle" "informer s = InfIdle" "dirty (wq s) = {}" "\<not> shuttingDown (wq s)"
    using assms(2) by (auto simp: drained_def)
  have 1: "discStep s ?s1"
  proof (cases found)
    case (Some ob)
    then show ?thesis using discStep.stored[OF d(2), of k ob] assms(4) by simp
  qed (use discStep.removed[OF d(2), of k] in simp)
  have 2: "discStep ?s1 ?s2" using discStep.notify[of ?s1 k] by simp
  have run1: "discRun ok s ?s1" by (rule discRun.step[OF discRun.start 1]) (use assms(5) in simp)
  have run: "discRun ok s ?s2" by (rule discRun.step[OF run1 2]) (use assms(5) in simp)
  then have inv: "discInv ?s2" using discInv_run assms(1) by blast
  obtain c q where w: "runWorker (\<lambda>j. Val (store ?s2 j)) (ctl ?s2, wq ?s2) = (c, q)" by fastforce
  have cl: "\<not> shuttingDown (wq ?s2)" using d by (simp add: wq.closed_ops(1,2))
  note wd = worker_drains[OF inv _ _ _ cl _ w refl, of ok]
  have q: "queue (wq ?s2) = [k]" using drained_empty[OF assms(1,2)] d by (simp add: wqAdd_def)
  have "c = d" using runWorker_one[where g = "\<lambda>j. Val (store ?s2 j)", OF q, of "ctl ?s2" d] w assms(6) by simp
  moreover have "discRun ok s (?s2\<lparr>ctl := c, wq := q\<rparr>)" using discRun_trans[OF run wd(1)] d assms(3,5) by simp
  moreover have "discInv (?s2\<lparr>ctl := c, wq := q\<rparr>)" "drained (?s2\<lparr>ctl := c, wq := q\<rparr>)" "synced c"
    using wd d assms(3,5) by simp_all
  ultimately show ?thesis by (intro exI[of _ "?s2\<lparr>ctl := c, wq := q\<rparr>"]) simp
qed

definition named :: "obj \<Rightarrow> bool" where
  "named ob \<longleftrightarrow> (case ob of PodObj pod \<Rightarrow> CHR ''/'' \<notin> set (pod_Name pod) | OtherObj _ \<Rightarrow> True)"

definition cniNamed :: "discovery \<Rightarrow> bool" where
  "cniNamed s \<longleftrightarrow> (\<forall>n \<in> set (GetCNIPods (ctl s)). CHR ''/'' \<notin> set n) \<and>
     (\<forall>k ob. wrk s = WRead k (Val (Some ob)) \<longrightarrow> named ob)"

lemma cni_key_slash: "HasPrefix k (NamespaceSystem @ ''/'' @ cniPodName) \<Longrightarrow> CHR ''/'' \<in> set k"
  by (auto simp: HasPrefix_iff)

lemma handlePodUpdate_cni:
  assumes "handlePodUpdate k got d = (err, d')" "\<forall>n \<in> set (GetCNIPods d). CHR ''/'' \<notin> set n"
    and "\<forall>ob. got = Val (Some ob) \<longrightarrow> named ob"
  shows "set (GetCNIPods d) \<subseteq> set (GetCNIPods d')" "\<forall>n \<in> set (GetCNIPods d'). CHR ''/'' \<notin> set n"
proof -
  have del: "set (mkeys (AList.delete k (cniPods d))) = set (mkeys (cniPods d)) - {k}"
    by (simp add: set_mkeys map_of_delete)
  have upd: "set (mkeys (AList.update n n (cniPods d))) = insert n (set (mkeys (cniPods d)))" for n
    by (simp add: set_mkeys map_of_update)
  have "set (GetCNIPods d) \<subseteq> set (GetCNIPods d') \<and> (\<forall>n \<in> set (GetCNIPods d'). CHR ''/'' \<notin> set n)"
    using assms cni_key_slash[of k] unfolding handlePodUpdate_def
    by (auto simp: bindG_def resG_def modG_def errG_def Let_def GetCNIPods_def del upd named_def
        split: res.splits option.splits obj.splits if_splits)
  then show "set (GetCNIPods d) \<subseteq> set (GetCNIPods d')" "\<forall>n \<in> set (GetCNIPods d'). CHR ''/'' \<notin> set n" by auto
qed

lemma cniNamed_step:
  assumes "discStep s s'" "cniNamed s" "\<And>ob. ob \<in> ran (store s') \<Longrightarrow> named ob"
  shows "cniNamed s' \<and> set (GetCNIPods (ctl s)) \<subseteq> set (GetCNIPods (ctl s'))"
  using assms
proof (induction rule: discStep.induct)
  case (read s k)
  then show ?case by (auto simp: cniNamed_def ranI)
next
  case (handle s k got err d)
  then show ?case using handlePodUpdate_cni[OF handle.hyps(2)] by (simp add: cniNamed_def)
qed (auto simp: cniNamed_def GetCNIPods_def)

lemma cniNamed_run:
  "discRun named s s' \<Longrightarrow> cniNamed s \<Longrightarrow> cniNamed s' \<and> set (GetCNIPods (ctl s)) \<subseteq> set (GetCNIPods (ctl s'))"
proof (induction rule: discRun.induct)
  case (step s1 s2)
  then show ?case using cniNamed_step[of s1 s2] by auto
qed simp

text \<open>
  The list of CNI pods only grows: as long as pod names hold no slash, no step ever takes a name out of it,
  though the code deletes the key of a removed CNI pod (the key is namespace, slash and name, the map's keys
  are bare names).
\<close>

theorem GetCNIPods_never_shrinks:
  assumes "discRun named (discInit env) s" "discRun named s s'"
  shows "set (GetCNIPods (ctl s)) \<subseteq> set (GetCNIPods (ctl s'))"
proof -
  have "cniNamed (discInit env)" by (simp add: cniNamed_def discInit_def NewController_def GetCNIPods_def)
  then have "cniNamed s" using cniNamed_run[OF assms(1)] by blast
  then show ?thesis using cniNamed_run[OF assms(2)] by blast
qed


section \<open>Witnesses\<close>

definition demo_env :: "string \<Rightarrow> string" where "demo_env v = ''node-1''"

definition demo_pod :: "string \<Rightarrow> string \<Rightarrow> string \<Rightarrow> Pod" where
  "demo_pod ns n node = \<lparr>pod_Name = n, pod_Namespace = ns, pod_UID = ''u'' @ node, pod_NodeName = node,
     pod_HostNetwork = False, pod_ContainerIDs = [''c1''], pod_PodIP = ''10.0.0.7''\<rparr>"

lemma demo_synced:
  "\<exists>s. discRun ok (discInit demo_env) s \<and> discInv s \<and> drained s \<and> synced (ctl s) \<and> store s = Map.empty \<and>
     ctl s = (NewController demo_env)\<lparr>synced := True\<rparr>"
  using discRun.step[OF discRun.start discStep.sync, of "discInit demo_env" ok]
    discInv_step[OF discStep.sync discInv_init]
  by (auto simp: discInit_def NewRateLimitingQueue_def drained_def NewController_def)

text \<open>A pod is observed and handled: a pod of this node, or a CNI pod of another one.\<close>

lemma demo_observed:
  assumes "ob = PodObj (demo_pod ''default'' ''web'' ''node-1'') \<or> ob = PodObj (demo_pod ''kube-system'' ''aws-node-x'' ''node-2'')"
    and "\<And>b. b = ob \<Longrightarrow> ok b"
  shows "\<exists>s. discRun ok (discInit demo_env) s \<and> discInv s \<and> drained s \<and> synced (ctl s) \<and> store s = [keyOf ob \<mapsto> ob] \<and>
     (ob = PodObj (demo_pod ''kube-system'' ''aws-node-x'' ''node-2'') \<longrightarrow> GetCNIPods (ctl s) = [''aws-node-x''])"
proof -
  obtain s where s: "discRun ok (discInit demo_env) s" "discInv s" "drained s" "synced (ctl s)" "store s = Map.empty"
    "ctl s = (NewController demo_env)\<lparr>synced := True\<rparr>" using demo_synced by blast
  obtain d where d: "handlePodUpdate (keyOf ob) (Val (Some ob)) (ctl s) = (Val (), d)"
    "ob = PodObj (demo_pod ''kube-system'' ''aws-node-x'' ''node-2'') \<longrightarrow> GetCNIPods d = [''aws-node-x'']"
    using assms(1) by (auto simp: handlePodUpdate_def resG_def modG_def bindG_def s(6) NewController_def demo_pod_def
        demo_env_def HasPrefix_def NamespaceSystem_def cniPodName_def MetaNamespaceKeyFunc_def GetCNIPods_def Let_def)
  obtain s' where "discRun ok s s'" "discInv s'" "drained s'" "synced d" "ctl s' = d" "store s' = [keyOf ob \<mapsto> ob]"
    using observe[OF s(2-4), of "Some ob" "keyOf ob" ok d] d(1) assms(2) by (auto simp: s(5))
  then show ?thesis using discRun_trans[OF s(1)] d(2) by blast
qed

theorem worker_lists_local_pods_witness:
  "\<exists>s d pods. discRun (\<lambda>_. True) (discInit demo_env) s \<and> K8SGetLocalPodIPs d = Val pods \<and>
     store s = [''default/web'' \<mapsto> PodObj (demo_pod ''default'' ''web'' ''node-1'')] \<and>
     podInfo (demo_pod ''default'' ''web'' ''node-1'') \<in> set pods"
proof -
  let ?p = "demo_pod ''default'' ''web'' ''node-1''"
  obtain s where s: "discRun (\<lambda>_. True) (discInit demo_env) s" "drained s" "synced (ctl s)" "store s = [''default/web'' \<mapsto> PodObj ?p]"
    using demo_observed[of "PodObj ?p" "\<lambda>_. True"] by (auto simp: MetaNamespaceKeyFunc_def demo_pod_def)
  obtain d q where w: "runWorker (\<lambda>k. Val (store s k)) (ctl s, wq s) = (d, q)" by fastforce
  have p: "store s ''default/web'' = Some (PodObj ?p) \<and> pod_NodeName ?p = demo_env ''MY_NODE_NAME'' \<and> \<not> pod_HostNetwork ?p"
    by (simp add: s(4) demo_pod_def demo_env_def)
  show ?thesis
    using worker_lists_local_pods[OF s(1) _ _ s(3) _ w refl] s(2) p s(1,4) unfolding drained_def by blast
qed

theorem recreated_pod_stays_listed_witness:
  "\<exists>s pods. discRun (\<lambda>_. True) (discInit demo_env) s \<and> drained s \<and>
     store s = [''default/web'' \<mapsto> PodObj (demo_pod ''default'' ''web'' ''node-2'')] \<and>
     K8SGetLocalPodIPs (ctl s) = Val pods \<and> podInfo (demo_pod ''default'' ''web'' ''node-1'') \<in> set pods"
proof -
  let ?p = "demo_pod ''default'' ''web'' ''node-1''"
  let ?n = "demo_pod ''default'' ''web'' ''node-2''"
  obtain s where s: "discRun (\<lambda>_. True) (discInit demo_env) s" "drained s" "synced (ctl s)" "store s = [''default/web'' \<mapsto> PodObj ?p]"
    using demo_observed[of "PodObj ?p" "\<lambda>_. True"] by (auto simp: MetaNamespaceKeyFunc_def demo_pod_def)
  have p: "store s ''default/web'' = Some (PodObj ?p)" "pod_NodeName ?p = demo_env ''MY_NODE_NAME''" "\<not> pod_HostNetwork ?p"
    "MetaNamespaceKeyFunc ?n = ''default/web''" "pod_NodeName ?n \<noteq> demo_env ''MY_NODE_NAME''"
    by (simp_all add: s(4) demo_pod_def demo_env_def MetaNamespaceKeyFunc_def)
  obtain s' pods where "discRun (\<lambda>_. True) s s'" "drained s'" "store s' = (store s)(''default/web'' \<mapsto> PodObj ?n)"
    "K8SGetLocalPodIPs (ctl s') = Val pods" "podInfo ?p \<in> set pods"
    using recreated_pod_stays_listed[OF s(1-3) p] by blast
  then show ?thesis using discRun_trans[OF s(1)] s(4) by (intro exI[of _ s'] exI[of _ pods]) simp
qed

text \<open>The only CNI pod is gone from the store and handled, and still listed.\<close>

theorem GetCNIPods_never_shrinks_witness:
  "\<exists>s. discRun named (discInit demo_env) s \<and> drained s \<and> store s = Map.empty \<and> ''aws-node-x'' \<in> set (GetCNIPods (ctl s))"
proof -
  let ?p = "demo_pod ''kube-system'' ''aws-node-x'' ''node-2''"
  let ?k = "''kube-system/aws-node-x''"
  obtain s where s: "discRun named (discInit demo_env) s" "discInv s" "drained s" "synced (ctl s)" "store s = [?k \<mapsto> PodObj ?p]"
    "GetCNIPods (ctl s) = [''aws-node-x'']"
    using demo_observed[of "PodObj ?p" named] by (auto simp: MetaNamespaceKeyFunc_def demo_pod_def named_def)
  obtain d where d: "handlePodUpdate ?k (Val None) (ctl s) = (Val (), d)"
    by (simp add: handlePodUpdate_def resG_def modG_def bindG_def)
  obtain s' where s': "discRun named s s'" "drained s'" "store s' = Map.empty"
    using observe[OF s(2-4) _ _ d, of named] by (auto simp: s(5))
  show ?thesis
    using GetCNIPods_never_shrinks[OF s(1) s'(1)] s(6) s' discRun_trans[OF s(1) s'(1)] by (intro exI[of _ s']) auto
qed

end
