(* ===== verification/EniConfig.thy ===== *)
theory EniConfig
  imports Ipamd
begin

text \<open>
  The controller of ENIConfig resources: \<^verbatim>\<open>pkg/eniconfig/eniconfig.go\<close>.  The operator SDK delivers one event
  at a time to \<open>Handle\<close>; the environment variables are a parameter; the lock is the atomicity of each
  operation.  \<open>latestSpec\<close> and \<open>selectedConfig\<close> say what the controller should know after a history of
  events; the theorems show that it does, and what the daemon's new interfaces are then attached with.
\<close>

section \<open>State and operations\<close>

definition defaultEniConfigAnnotationDef :: string where
  "defaultEniConfigAnnotationDef = ''k8s.amazonaws.com/eniConfig''"
definition defaultEniConfigLabelDef :: string where "defaultEniConfigLabelDef = ''k8s.amazonaws.com/eniConfig''"
definition eniConfigDefault :: string where "eniConfigDefault = ''default''"
definition envEniConfigAnnotationDef :: string where "envEniConfigAnnotationDef = ''ENI_CONFIG_ANNOTATION_DEF''"
definition envEniConfigLabelDef :: string where "envEniConfigLabelDef = ''ENI_CONFIG_LABEL_DEF''"

definition ErrNoENIConfig :: goerr where
  "ErrNoENIConfig = Sentinel ''eniconfig: eniconfig is not available''"

record ENIConfigController =
  eni :: "(string, ENIConfigSpec) gomap"
  myENI :: string
  myNodeName :: string
  eniConfigAnnotationDef :: string
  eniConfigLabelDef :: string

record ENIConfigInfo =
  info_ENI :: "(string, ENIConfigSpec) gomap"
  info_MyENI :: string
  info_EniConfigAnnotationDef :: string
  info_EniConfigLabelDef :: string

datatype sdkObject =
    ENIConfigObj string ENIConfigSpec
  | NodeObj string "(string, string) gomap" "(string, string) gomap"   \<comment> \<open>name, annotations, labels\<close>
  | OtherObject

record sdkEvent =
  Object :: sdkObject
  Deleted :: bool

type_synonym osEnv = "string \<Rightarrow> string option"

definition getEniConfigAnnotationDef :: "osEnv \<Rightarrow> string" where
  "getEniConfigAnnotationDef env =
     (case env envEniConfigAnnotationDef of
        None \<Rightarrow> defaultEniConfigAnnotationDef
      | Some inputStr \<Rightarrow> if 0 < length inputStr then inputStr else defaultEniConfigAnnotationDef)"

definition getEniConfigLabelDef :: "osEnv \<Rightarrow> string" where
  "getEniConfigLabelDef env =
     (case env envEniConfigLabelDef of
        None \<Rightarrow> defaultEniConfigLabelDef
      | Some inputStr \<Rightarrow> if 0 < length inputStr then inputStr else defaultEniConfigLabelDef)"

definition NewENIConfigController :: "osEnv \<Rightarrow> ENIConfigController" where
  "NewENIConfigController env =
     \<lparr>eni = [], myENI = eniConfigDefault,
      myNodeName = (case env ''MY_NODE_NAME'' of None \<Rightarrow> '''' | Some v \<Rightarrow> v),
      eniConfigAnnotationDef = getEniConfigAnnotationDef env, eniConfigLabelDef = getEniConfigLabelDef env\<rparr>"

definition Handle :: "sdkEvent \<Rightarrow> ENIConfigController \<Rightarrow> ENIConfigController" where
  "Handle event h =
     (case Object event of
        ENIConfigObj eniConfigName spec \<Rightarrow>
          if Deleted event then h\<lparr>eni := AList.delete eniConfigName (eni h)\<rparr>
          else h\<lparr>eni := AList.update eniConfigName spec (eni h)\<rparr>
      | NodeObj name annotations labels \<Rightarrow>
          if myNodeName h = name then
            let val = (case map_of annotations (eniConfigAnnotationDef h) of
                         Some v \<Rightarrow> v
                       | None \<Rightarrow>
                           (case map_of labels (eniConfigLabelDef h) of Some v \<Rightarrow> v | None \<Rightarrow> eniConfigDefault)) in
            if myENI h \<noteq> val then h\<lparr>myENI := val\<rparr> else h
          else h
      | OtherObject \<Rightarrow> h)"

definition Getter :: "osEnv \<Rightarrow> ENIConfigController \<Rightarrow> ENIConfigInfo" where
  "Getter env eniCfg =
     \<lparr>info_ENI = fold (\<lambda>(name, val). AList.update name val) (eni eniCfg) [], info_MyENI = myENI eniCfg,
      info_EniConfigAnnotationDef = getEniConfigAnnotationDef env, info_EniConfigLabelDef = getEniConfigLabelDef env\<rparr>"

definition MyENIConfig :: "ENIConfigController \<Rightarrow> ENIConfigSpec res" where
  "MyENIConfig eniCfg =
     (case map_of (eni eniCfg) (myENI eniCfg) of
        Some myENIConfig \<Rightarrow> Val \<lparr>SecurityGroups = SecurityGroups myENIConfig, Subnet = Subnet myENIConfig\<rparr>
      | None \<Rightarrow> Err ErrNoENIConfig)"

section \<open>The history of events\<close>

text \<open>What the newest event on a configuration, and on this node, says; newest first.\<close>

fun latestSpec :: "string \<Rightarrow> sdkEvent list \<Rightarrow> ENIConfigSpec option" where
  "latestSpec name [] = None"
| "latestSpec name (ev # older) =
     (case Object ev of
        ENIConfigObj n spec \<Rightarrow>
          if n = name then (if Deleted ev then None else Some spec) else latestSpec name older
      | _ \<Rightarrow> latestSpec name older)"

fun firstSome :: "'a option list \<Rightarrow> 'a \<Rightarrow> 'a" where
  "firstSome [] d = d"
| "firstSome (None # xs) d = firstSome xs d"
| "firstSome (Some x # xs) d = x"

fun selectedConfig :: "osEnv \<Rightarrow> sdkEvent list \<Rightarrow> string" where
  "selectedConfig env [] = ''default''"
| "selectedConfig env (ev # older) =
     (case Object ev of
        NodeObj n annotations labels \<Rightarrow>
          if Some n = env ''MY_NODE_NAME''
          then firstSome [map_of annotations (getEniConfigAnnotationDef env), map_of labels (getEniConfigLabelDef env)] ''default''
          else selectedConfig env older
      | _ \<Rightarrow> selectedConfig env older)"

text \<open>The controller after a history, the newest event first.\<close>

definition controllerAfter :: "osEnv \<Rightarrow> sdkEvent list \<Rightarrow> ENIConfigController" where
  "controllerAfter env evs = foldr Handle evs (NewENIConfigController env)"

lemma controllerAfter_simps [simp]:
  "controllerAfter env [] = NewENIConfigController env"
  "controllerAfter env (ev # evs) = Handle ev (controllerAfter env evs)"
  by (simp_all add: controllerAfter_def)

lemma Handle_fixed [simp]:
  "myNodeName (Handle ev h) = myNodeName h"
  "eniConfigAnnotationDef (Handle ev h) = eniConfigAnnotationDef h"
  "eniConfigLabelDef (Handle ev h) = eniConfigLabelDef h"
  by (simp_all add: Handle_def Let_def split: sdkObject.split)

lemma controllerAfter_fixed:
  "env ''MY_NODE_NAME'' = Some node \<Longrightarrow> myNodeName (controllerAfter env evs) = node"
  "eniConfigAnnotationDef (controllerAfter env evs) = getEniConfigAnnotationDef env"
  "eniConfigLabelDef (controllerAfter env evs) = getEniConfigLabelDef env"
  by (induction evs) (simp_all add: NewENIConfigController_def)

lemma controllerAfter_eni: "map_of (eni (controllerAfter env evs)) name = latestSpec name evs"
  by (induction evs)
    (auto simp: NewENIConfigController_def Handle_def Let_def gomap_simps split: sdkObject.split)

lemma firstSome_two: "firstSome [x, y] d = (case x of Some v \<Rightarrow> v | None \<Rightarrow> (case y of Some v \<Rightarrow> v | None \<Rightarrow> d))"
  by (cases x; cases y) simp_all

lemma controllerAfter_myENI:
  assumes "env ''MY_NODE_NAME'' = Some node"
  shows "myENI (controllerAfter env evs) = selectedConfig env evs"
proof (induction evs)
  case (Cons ev evs)
  then show ?case
    using assms by (auto simp: Handle_def Let_def controllerAfter_fixed firstSome_two eniConfigDefault_def
      split: sdkObject.split option.split)
qed (simp add: NewENIConfigController_def eniConfigDefault_def)

lemma controllerAfter_mwf: "mwf (eni (controllerAfter env evs))"
  by (induction evs) (auto simp: NewENIConfigController_def Handle_def Let_def split: sdkObject.split)

lemma map_of_fold_upd:
  "map_of (fold (\<lambda>(k, v). AList.update k v) m acc) = map_of acc ++ map_of (rev m)"
  by (induction m arbitrary: acc) (auto simp: map_of_update)

lemma map_of_rev: "mwf m \<Longrightarrow> map_of (rev m) = map_of m"
  by (subst map_of_inject_set) (simp_all add: mwf_def mkeys_def rev_map[symmetric])

lemma spec_eta: "\<lparr>SecurityGroups = SecurityGroups s, Subnet = Subnet s\<rparr> = (s :: ENIConfigSpec)"
  by simp

text \<open>
  C26: after any history of events the controller hands out the newest specification of the configuration that
  this node selects (by its annotation, else by its label, else the one named default, as its newest event
  says), and the error if the newest event of that configuration deleted it or there was none; and the introspection
  view shows the newest specification of every configuration.
\<close>

theorem MyENIConfig_latest_selected:
  assumes "env ''MY_NODE_NAME'' = Some node"
  shows "MyENIConfig (controllerAfter env evs) =
           (case latestSpec (selectedConfig env evs) evs of None \<Rightarrow> Err ErrNoENIConfig | Some spec \<Rightarrow> Val spec) \<and>
         map_of (info_ENI (Getter env (controllerAfter env evs))) = (\<lambda>name. latestSpec name evs) \<and>
         info_MyENI (Getter env (controllerAfter env evs)) = selectedConfig env evs"
proof -
  note * = controllerAfter_eni controllerAfter_myENI[of env, OF assms]
  have "map_of (info_ENI (Getter env (controllerAfter env evs))) = (\<lambda>name. latestSpec name evs)"
    using controllerAfter_mwf[of env evs]
    by (simp add: Getter_def map_of_fold_upd map_of_rev fun_eq_iff controllerAfter_eni)
  then show ?thesis
    by (simp add: MyENIConfig_def * spec_eta Getter_def split: option.split)
qed

section \<open>Custom networking\<close>

text \<open>What \<^verbatim>\<open>tryAllocateENI\<close> does with the answer of \<^verbatim>\<open>AllocENI\<close>.\<close>

definition finishENI :: "('e, 'r) IpamAPI \<Rightarrow> goerr + string \<Rightarrow> ('e ipam, unit) go" where
  "finishENI api r =
     (case r of
        Inl _ \<Rightarrow> retG ()
      | Inr newENI \<Rightarrow>
          bindG (getG (\<lambda>c. let (short, _, warmIPTargetDefined) = ipTargetState c in
                          if warmIPTargetDefined then short else maxIPsPerENI c)) (\<lambda>n.
          bindG (ignoreG (envG (a_AllocIPAddresses api newENI n))) (\<lambda>_.
          bindG (tryG (waitENIAttached maxRetryCheckENI api newENI)) (\<lambda>r.
          case r of
            Inl _ \<Rightarrow> retG ()
          | Inr eniMetadata \<Rightarrow> ignoreG (setupENI api newENI eniMetadata)))))"

lemma tryAllocateENI_custom:
  assumes "useCustomNetworking c"
  shows "envG (c_MyENIConfig api) c = (Err err, c) \<Longrightarrow> tryAllocateENI api c = (Val (), c)"
    "envG (c_MyENIConfig api) c = (Val spec, c) \<Longrightarrow>
       tryAllocateENI api c = bindG (tryG (envG (a_AllocENI api True (SecurityGroups spec) (Subnet spec)))) (finishENI api) c"
  unfolding tryAllocateENI_def finishENI_def[abs_def]
  using assms by (simp_all add: bindG_getG_modG bindG_assoc bindG_tryG_run retG_def)

text \<open>Attaching does not depend on how interfaces are requested.\<close>

lemma finishENI_AllocENI: "finishENI (api\<lparr>a_AllocENI := f\<rparr>) = finishENI api"
proof -
  have "waitENIAttached n (api\<lparr>a_AllocENI := f\<rparr>) n_eni = waitENIAttached n api n_eni" for n n_eni
  proof (induction n)
    case 0
    show ?case
      by (simp add: waitENIAttached.simps[of 0 "api\<lparr>a_AllocENI := f\<rparr>"] waitENIAttached.simps[of 0 api] cong: option.case_cong)
  next
    case (Suc n)
    then show ?case
      by (simp add: waitENIAttached.simps[of "Suc n" "api\<lparr>a_AllocENI := f\<rparr>"] waitENIAttached.simps[of "Suc n" api] sleepG_def cong: option.case_cong)
  qed
  moreover have "setupENI (api\<lparr>a_AllocENI := f\<rparr>) n_eni m = setupENI api n_eni m" for n_eni m
    by (simp add: setupENI_def getENIaddresses_def nowG_def cong: if_cong)
  ultimately show ?thesis by (intro ext) (simp add: finishENI_def split: sum.split)
qed

text \<open>
  C27: with custom networking, and the controller as the daemon's source of configurations, a new interface is
  requested with the security groups and the subnet of the newest specification of the configuration this
  node selects, and with nothing else; if there is no such specification no interface is requested and
  nothing changes.
\<close>

theorem custom_eni_uses_selected_config:
  assumes "env ''MY_NODE_NAME'' = Some node" and "useCustomNetworking c"
    and "c_MyENIConfig api = (\<lambda>e. (MyENIConfig (cfgOf e), e))" and "cfgOf (ienv c) = controllerAfter env evs"
    and "only = (\<lambda>spec custom sgs subnet. if custom \<and> sgs = SecurityGroups spec \<and> subnet = Subnet spec
                   then a_AllocENI api custom sgs subnet else panicG ''other request'')"
  shows "(case latestSpec (selectedConfig env evs) evs of
            None \<Rightarrow> tryAllocateENI api c = (Val (), c)
          | Some spec \<Rightarrow> tryAllocateENI api c = tryAllocateENI (api\<lparr>a_AllocENI := only spec\<rparr>) c \<and>
              (\<forall>err e'. a_AllocENI api True (SecurityGroups spec) (Subnet spec) (ienv c) = (Err err, e') \<longrightarrow>
                 tryAllocateENI api c = (Val (), c\<lparr>ienv := e'\<rparr>)))"
proof -
  have cfg: "envG (c_MyENIConfig api) c =
      (case latestSpec (selectedConfig env evs) evs of None \<Rightarrow> (Err ErrNoENIConfig, c) | Some spec \<Rightarrow> (Val spec, c))"
    by (simp add: envG_def zoomG_def assms(3,4) MyENIConfig_def controllerAfter_eni controllerAfter_myENI[of env, OF assms(1)]
        split: option.split)
  show ?thesis
  proof (cases "latestSpec (selectedConfig env evs) evs")
    case None
    then show ?thesis
      using cfg assms(2) by (simp add: tryAllocateENI_def bindG_def getG_def tryG_def retG_def)
  next
    case (Some spec)
    have run: "tryAllocateENI api' c = bindG (tryG (envG (a_AllocENI api' True (SecurityGroups spec) (Subnet spec)))) (finishENI api') c"
      if "c_MyENIConfig api' = c_MyENIConfig api" for api'
      using tryAllocateENI_custom(2)[OF assms(2), of api' spec] cfg that by (simp add: Some)
    have "only spec True (SecurityGroups spec) (Subnet spec) = a_AllocENI api True (SecurityGroups spec) (Subnet spec)"
      by (simp add: assms(5))
    then have "tryAllocateENI api c = tryAllocateENI (api\<lparr>a_AllocENI := only spec\<rparr>) c"
      by (simp add: run finishENI_AllocENI)
    moreover have "tryAllocateENI api c = (Val (), c\<lparr>ienv := e'\<rparr>)"
      if "a_AllocENI api True (SecurityGroups spec) (Subnet spec) (ienv c) = (Err err, e')" for err e'
      using that by (simp add: run bindG_def tryG_def envG_def zoomG_def finishENI_def retG_def)
    ultimately show ?thesis by (simp add: Some)
  qed
qed

section \<open>Witnesses\<close>

text \<open>
  Node n1 is labelled for configuration a, then annotated for b; b is created, changed and a deleted.  The second history
  selects a configuration that was deleted.
\<close>

definition demo_cfg_env :: osEnv where
  "demo_cfg_env = [''MY_NODE_NAME'' \<mapsto> ''n1'', ''ENI_CONFIG_LABEL_DEF'' \<mapsto> ''zone'']"

definition demo_spec :: "string \<Rightarrow> ENIConfigSpec" where
  "demo_spec sn = \<lparr>SecurityGroups = [''sg-1''], Subnet = sn\<rparr>"

definition demo_history :: "sdkEvent list" where
  "demo_history =
     [\<lparr>Object = ENIConfigObj ''b'' (demo_spec ''subnet-3''), Deleted = False\<rparr>,
      \<lparr>Object = ENIConfigObj ''a'' (demo_spec ''subnet-1''), Deleted = True\<rparr>,
      \<lparr>Object = NodeObj ''n1'' [(''k8s.amazonaws.com/eniConfig'', ''b'')] [(''zone'', ''a'')], Deleted = False\<rparr>,
      \<lparr>Object = ENIConfigObj ''b'' (demo_spec ''subnet-2''), Deleted = False\<rparr>,
      \<lparr>Object = NodeObj ''n1'' [] [(''zone'', ''a'')], Deleted = False\<rparr>,
      \<lparr>Object = ENIConfigObj ''a'' (demo_spec ''subnet-1''), Deleted = False\<rparr>]"

lemmas demo_cfg_defs = demo_cfg_env_def demo_spec_def demo_history_def getEniConfigAnnotationDef_def getEniConfigLabelDef_def
  envEniConfigAnnotationDef_def envEniConfigLabelDef_def defaultEniConfigAnnotationDef_def defaultEniConfigLabelDef_def

theorem MyENIConfig_latest_selected_witness:
  "MyENIConfig (controllerAfter demo_cfg_env demo_history) = Val (demo_spec ''subnet-3'') \<and>
   MyENIConfig (controllerAfter demo_cfg_env (tl demo_history)) = Val (demo_spec ''subnet-2'') \<and>
   MyENIConfig (controllerAfter demo_cfg_env []) = Err ErrNoENIConfig"
  using MyENIConfig_latest_selected[of demo_cfg_env "''n1''" demo_history]
    MyENIConfig_latest_selected[of demo_cfg_env "''n1''" "tl demo_history"]
    MyENIConfig_latest_selected[of demo_cfg_env "''n1''" "[]"]
  by (simp add: demo_cfg_defs)

text \<open>An environment that holds the controller and records the requested subnets; EC2 refuses them.\<close>

type_synonym demoCfgEnv = "ENIConfigController \<times> string list"

definition demo_cfg_api :: "(demoCfgEnv, unit) IpamAPI" where
  "demo_cfg_api = \<lparr>a_New = retG (), a_AllocENI = (\<lambda>_ _ sn (c, l). (Err (NewErr ''limit''), (c, l @ [sn]))), a_FreeENI = (\<lambda>_. retG ()),
     a_GetAttachedENIs = retG [], a_DescribeENI = (\<lambda>e. retG ([], None)),
     a_AllocIPAddresses = (\<lambda>_ _. retG ()), a_DeallocIPAddresses = (\<lambda>_ _. retG ()),
     a_GetVPCIPv4CIDR = (\<lambda>_. ''10.0.0.0/16''), a_GetVPCIPv4CIDRs = (\<lambda>_. [''10.0.0.0/16'']),
     a_GetLocalIPv4 = (\<lambda>_. ''10.0.0.1''), a_GetPrimaryENI = (\<lambda>_. ''eni-1''),
     a_GetENIipLimit = (\<lambda>_. Val 2), a_GetENILimit = (\<lambda>_. Val 3), a_GetPrimaryENImac = (\<lambda>_. ''0a''),
     k_K8SGetLocalPodIPs = retG [], c_MyENIConfig = (\<lambda>e. (MyENIConfig (fst e), e)),
     n_SetupHostNetwork = (\<lambda>_ _ _ _. retG ()), n_SetupENINetwork = (\<lambda>_ _ _ _. retG ()),
     n_UseExternalSNAT = (\<lambda>_. False), n_GetExcludeSNATCIDRs = (\<lambda>_. []), n_GetRuleList = retG [],
     n_UpdateRuleListBySrc = (\<lambda>_ _ _ _. retG ()), t_Now = (\<lambda>_. 0), t_Sleep = (\<lambda>_ e. e), LookupEnv = (\<lambda>_ _. None)\<rparr>"

definition demo_cfg_ipam :: "sdkEvent list \<Rightarrow> demoCfgEnv ipam" where
  "demo_cfg_ipam evs = \<lparr>dataStore = NewDataStore, useCustomNetworking = True, maxIPsPerENI = 5, maxENI = 3, warmENITarget = 1,
     warmIPTarget = 0, primaryIP = [], lastNodeIPPoolAction = 0, lastDecreaseIPPool = 0, reconcileCooldownCache = [],
     ienv = (controllerAfter demo_cfg_env evs, [])\<rparr>"

theorem custom_eni_uses_selected_config_witness:
  "snd (ienv (snd (tryAllocateENI demo_cfg_api (demo_cfg_ipam demo_history)))) = [''subnet-3''] \<and>
   snd (ienv (snd (tryAllocateENI demo_cfg_api (demo_cfg_ipam [])))) = []"
proof -
  have h: "demo_cfg_env ''MY_NODE_NAME'' = Some ''n1''" "useCustomNetworking (demo_cfg_ipam evs)"
    "c_MyENIConfig demo_cfg_api = (\<lambda>e. (MyENIConfig (fst e), e))"
    "fst (ienv (demo_cfg_ipam evs)) = controllerAfter demo_cfg_env evs" for evs
    by (simp_all add: demo_cfg_env_def demo_cfg_ipam_def demo_cfg_api_def)
  note t = custom_eni_uses_selected_config[where cfgOf = fst, OF h refl]
  have s: "latestSpec (selectedConfig demo_cfg_env demo_history) demo_history = Some (demo_spec ''subnet-3'')"
    by (simp add: demo_cfg_defs)
  have "a_AllocENI demo_cfg_api True (SecurityGroups (demo_spec ''subnet-3'')) (Subnet (demo_spec ''subnet-3''))
      (ienv (demo_cfg_ipam demo_history)) = (Err (NewErr ''limit''), (controllerAfter demo_cfg_env demo_history, [''subnet-3'']))"
    by (simp add: demo_cfg_api_def demo_cfg_ipam_def demo_spec_def)
  then have "tryAllocateENI demo_cfg_api (demo_cfg_ipam demo_history) =
      (Val (), (demo_cfg_ipam demo_history)\<lparr>ienv := (controllerAfter demo_cfg_env demo_history, [''subnet-3''])\<rparr>)"
    using t[of demo_history] unfolding s option.case by blast
  then show ?thesis using t[of "[]"] by (simp add: demo_cfg_ipam_def)
qed

end
