(* ===== verification/Utils.thy ===== *)
theory Utils
  imports GoStrings "HOL-Library.Multiset"
begin

text \<open>
  The helpers of \<^verbatim>\<open>pkg/utils\<close>: comparing slices, retrying with a pause, errors that know whether to
  retry, and lists of errors.  \<^verbatim>\<open>reflect.DeepEqual\<close> on elements is equality;
  \<^verbatim>\<open>backoff.go\<close> is in the theory \<^verbatim>\<open>Backoff\<close>, the test for zero values and the random name in \<^verbatim>\<open>UtilsMisc\<close>.
\<close>

section \<open>Strings and slices\<close>

definition DefaultIfBlank :: "string \<Rightarrow> string \<Rightarrow> string" where
  "DefaultIfBlank str defaultValue = (if length str = 0 then defaultValue else str)"

definition utilsParseBool :: "string \<Rightarrow> bool \<Rightarrow> bool" where
  "utilsParseBool str dflt = (case ParseBool (TrimSpace str) of Val b \<Rightarrow> b | _ \<Rightarrow> dflt)"

definition Uint16SliceToStringSlice :: "nat list \<Rightarrow> string list" where
  "Uint16SliceToStringSlice slice = map (\<lambda>el. Itoa (int el)) slice"

fun strSliceEqual_loop :: "string list \<Rightarrow> string list \<Rightarrow> bool" where
  "strSliceEqual_loop (a # s1) (b # s2) = (if a \<noteq> b then False else strSliceEqual_loop s1 s2)"
| "strSliceEqual_loop _ _ = True"

definition StrSliceEqual :: "string list \<Rightarrow> string list \<Rightarrow> bool" where
  "StrSliceEqual s1 s2 = (if length s1 \<noteq> length s2 then False else strSliceEqual_loop s1 s2)"

text \<open>
  The inner loop: the first element of the second slice that is not counted yet and equals the
  given one is counted.
\<close>

fun countElement :: "'a \<Rightarrow> 'a list \<Rightarrow> bool list \<Rightarrow> bool list option" where
  "countElement x (y # ys) (f # found) =
     (if f then map_option ((#) True) (countElement x ys found)
      else if x = y then Some (True # found)
      else map_option ((#) False) (countElement x ys found))"
| "countElement x _ _ = None"

fun slicesEqual_loop :: "'a list \<Rightarrow> 'a list \<Rightarrow> bool list \<Rightarrow> bool" where
  "slicesEqual_loop [] s2 s2found = True"
| "slicesEqual_loop (x # s1) s2 s2found =
     (case countElement x s2 s2found of None \<Rightarrow> False | Some found \<Rightarrow> slicesEqual_loop s1 s2 found)"

definition SlicesDeepEqual :: "'a list \<Rightarrow> 'a list \<Rightarrow> bool" where
  "SlicesDeepEqual slice1 slice2 =
     (if length slice1 \<noteq> length slice2 then False
      else if length slice1 = 0 then True
      else slicesEqual_loop slice1 slice2 (replicate (length slice2) False))"

section \<open>Errors\<close>

text \<open>An error with its answer to \<^verbatim>\<open>Retry()\<close>, if it has one.\<close>

datatype retErr = PlainErr goerr | RetriableErr bool goerr

definition NewRetriableError :: "bool \<Rightarrow> goerr \<Rightarrow> retErr" where
  "NewRetriableError retry err = RetriableErr retry err"

definition NewMultiError :: "goerr option list \<Rightarrow> goerr list" where
  "NewMultiError errs = List.map_filter (\<lambda>e. e) errs"

definition MultiErr_Error :: "goerr list \<Rightarrow> string" where
  "MultiErr_Error errors =
     Join (''Multiple error:'' # map (\<lambda>(ndx, err). [CHR 0x09] @ natToStr ndx @ '': '' @ Error err)
                                   (enumerate 0 errors)) [CHR 0x0A]"

section \<open>Retrying\<close>

record 'w Retrier =
  ctxDone :: "'w \<Rightarrow> bool"
  Duration :: "'w \<Rightarrow> duration \<times> 'w"
  tSleep :: "duration \<Rightarrow> 'w \<Rightarrow> 'w"

definition mayRetry :: "retErr option \<Rightarrow> bool" where
  "mayRetry err = (case err of None \<Rightarrow> False | Some (PlainErr _) \<Rightarrow> True | Some (RetriableErr b _) \<Rightarrow> b)"

text \<open>The loop has no bound of its own: not returning is \<open>None\<close>.\<close>

partial_function (option) RetryWithBackoffCtx ::
  "'w Retrier \<Rightarrow> ('w \<Rightarrow> retErr option \<times> 'w) \<Rightarrow> 'w \<Rightarrow> (retErr option \<times> 'w) option" where
  "RetryWithBackoffCtx r fn w =
     (if ctxDone r w then Some (None, w)
      else case fn w of (err, w1) \<Rightarrow>
        if \<not> mayRetry err then Some (err, w1)
        else case Duration r w1 of (d, w2) \<Rightarrow> RetryWithBackoffCtx r fn (tSleep r d w2))"

declare RetryWithBackoffCtx.simps [code]

definition RetryWithBackoff ::
  "'w Retrier \<Rightarrow> ('w \<Rightarrow> retErr option \<times> 'w) \<Rightarrow> 'w \<Rightarrow> (retErr option \<times> 'w) option" where
  "RetryWithBackoff r fn w = RetryWithBackoffCtx (r\<lparr>ctxDone := (\<lambda>_. False)\<rparr>) fn w"

text \<open>
  The closure of \<^verbatim>\<open>RetryNWithBackoffCtx\<close> keeps the last error and the number of tries left, an
  \<^verbatim>\<open>int\<close>, beside the world.
\<close>

type_synonym 'w counted = "(retErr option \<times> int) \<times> 'w"

definition countedFn :: "('w \<Rightarrow> retErr option \<times> 'w) \<Rightarrow> 'w counted \<Rightarrow> retErr option \<times> 'w counted" where
  "countedFn fn = (\<lambda>((_, n), w).
     case fn w of (err, w1) \<Rightarrow>
       let n' = wrap64 (n - 1) in
       if n' = 0 then (None, ((err, n'), w1)) else (err, ((err, n'), w1)))"

definition countedRetrier :: "'w Retrier \<Rightarrow> 'w counted Retrier" where
  "countedRetrier r = \<lparr>ctxDone = (\<lambda>(_, w). ctxDone r w),
     Duration = (\<lambda>(s, w). case Duration r w of (d, w1) \<Rightarrow> (d, (s, w1))),
     tSleep = (\<lambda>d (s, w). (s, tSleep r d w))\<rparr>"

definition RetryNWithBackoffCtx ::
  "'w Retrier \<Rightarrow> int \<Rightarrow> ('w \<Rightarrow> retErr option \<times> 'w) \<Rightarrow> 'w \<Rightarrow> (retErr option \<times> 'w) option" where
  "RetryNWithBackoffCtx r n fn w =
     map_option (\<lambda>(_, ((err, _), w')). (err, w'))
       (RetryWithBackoffCtx (countedRetrier r) (countedFn fn) ((None, n), w))"

definition RetryNWithBackoff ::
  "'w Retrier \<Rightarrow> int \<Rightarrow> ('w \<Rightarrow> retErr option \<times> 'w) \<Rightarrow> 'w \<Rightarrow> (retErr option \<times> 'w) option" where
  "RetryNWithBackoff r n fn w = RetryNWithBackoffCtx (r\<lparr>ctxDone := (\<lambda>_. False)\<rparr>) n fn w"

section \<open>Comparing slices\<close>

text \<open>The elements of the second slice that are not counted yet.\<close>

definition uncounted :: "'a list \<Rightarrow> bool list \<Rightarrow> 'a multiset" where
  "uncounted ys found = mset (map fst (filter (\<lambda>(y, f). \<not> f) (zip ys found)))"

lemma uncounted_simps [simp]:
  "uncounted [] found = {#}"
  "uncounted (y # ys) (f # found) = (if f then uncounted ys found else add_mset y (uncounted ys found))"
  by (simp_all add: uncounted_def)

lemma countElement_mset:
  assumes "length ys = length found"
  shows "case countElement x ys found of
           None \<Rightarrow> x \<notin># uncounted ys found
         | Some found' \<Rightarrow> length found' = length found \<and> uncounted ys found = add_mset x (uncounted ys found')"
  using assms
proof (induction ys arbitrary: found)
  case (Cons y ys)
  then obtain f found' where f: "found = f # found'" "length ys = length found'" by (cases found) auto
  show ?case using Cons.IH[OF f(2)] by (cases f) (auto simp: f(1) split: option.splits)
qed simp

lemma slicesEqual_loop_mset:
  assumes "length ys = length found"
  shows "slicesEqual_loop xs ys found \<longleftrightarrow> mset xs \<subseteq># uncounted ys found"
  using assms
proof (induction xs ys found rule: slicesEqual_loop.induct)
  case (2 x s1 s2 found)
  note c = countElement_mset[OF 2(2), of x]
  show ?case
  proof (cases "countElement x s2 found")
    case None
    with c show ?thesis by (auto dest: mset_subset_eqD)
  next
    case (Some found')
    with c have "length s2 = length found'" "uncounted s2 found = add_mset x (uncounted s2 found')"
      using 2(2) by simp_all
    with 2(1)[OF Some] Some show ?thesis by simp
  qed
qed simp

text \<open>
  C35: \<^verbatim>\<open>SlicesDeepEqual\<close>, with its quadratic search and its array of counted positions, decides
  equality of the slices as multisets: order does not matter, repetitions do.
\<close>

theorem SlicesDeepEqual_iff_mset: "SlicesDeepEqual xs ys \<longleftrightarrow> mset xs = mset ys"
proof (cases "length xs = length ys")
  case True
  have "uncounted ys (replicate (length ys) False) = mset ys" by (induction ys) simp_all
  then have "slicesEqual_loop xs ys (replicate (length ys) False) \<longleftrightarrow> mset xs \<subseteq># mset ys"
    by (simp add: slicesEqual_loop_mset)
  also have "\<dots> \<longleftrightarrow> mset xs = mset ys"
    using True by (metis mset_subset_size size_mset subset_mset.le_neq_trans subset_mset.order_refl nat_less_le)
  finally show ?thesis using True by (auto simp: SlicesDeepEqual_def)
next
  case False
  then show ?thesis by (metis SlicesDeepEqual_def size_mset)
qed

lemma StrSliceEqual_iff: "StrSliceEqual s1 s2 \<longleftrightarrow> s1 = s2"
proof -
  have "length s1 = length s2 \<Longrightarrow> strSliceEqual_loop s1 s2 \<longleftrightarrow> s1 = s2"
    by (induction s1 s2 rule: strSliceEqual_loop.induct) auto
  then show ?thesis by (auto simp: StrSliceEqual_def)
qed

section \<open>Retries end\<close>

text \<open>The world after one failed try and the pause.\<close>

definition retryRound :: "'w Retrier \<Rightarrow> ('w \<Rightarrow> retErr option \<times> 'w) \<Rightarrow> 'w \<Rightarrow> 'w" where
  "retryRound r fn w = (case Duration r (snd (fn w)) of (d, w') \<Rightarrow> tSleep r d w')"

lemma retryN_loop:
  assumes "\<And>w. \<not> ctxDone r w" "int n < 2 ^ 63"
  shows "\<exists>k \<le> n. (\<forall>j < k. mayRetry (fst (fn ((retryRound r fn ^^ j) w)))) \<and>
           (k = n \<or> \<not> mayRetry (fst (fn ((retryRound r fn ^^ k) w)))) \<and>
           map_option (\<lambda>(_, ((err, _), w')). (err, w'))
             (RetryWithBackoffCtx (countedRetrier r) (countedFn fn) ((e, int (Suc n)), w)) =
             Some (fn ((retryRound r fn ^^ k) w))"
  using assms(2)
proof (induction n arbitrary: e w)
  case 0
  have "wrap64 0 = 0" by (simp add: wrap64_def)
  then show ?case
    by (subst RetryWithBackoffCtx.simps)
       (simp add: countedRetrier_def countedFn_def assms(1) mayRetry_def split: prod.split)
next
  case (Suc n)
  have "wrap64 (int (Suc n)) = int (Suc n)" using Suc.prems by (intro wrap64_nonneg) simp_all
  then have w64: "wrap64 (int (Suc (Suc n)) - 1) = int (Suc n)" "int (Suc n) \<noteq> 0" by simp_all
  obtain err w1 where fw: "fn w = (err, w1)" by fastforce
  obtain d w2 where du: "Duration r w1 = (d, w2)" by fastforce
  have round: "retryRound r fn w = tSleep r d w2" by (simp add: retryRound_def fw du)
  let ?C = "RetryWithBackoffCtx (countedRetrier r) (countedFn fn)"
  have step: "?C ((e, int (Suc (Suc n))), w) =
      (if mayRetry err then ?C ((err, int (Suc n)), retryRound r fn w)
       else Some (err, ((err, int (Suc n)), w1)))"
    by (subst RetryWithBackoffCtx.simps)
       (simp add: countedRetrier_def countedFn_def assms(1) fw du round Let_def w64 del: of_nat_Suc)
  show ?case
  proof (cases "mayRetry err")
    case False
    then show ?thesis unfolding step by (intro exI[of _ 0]) (simp add: fw)
  next
    case True
    have "int n < 2 ^ 63" using Suc.prems by simp
    from Suc.IH[OF this, of "retryRound r fn w" err] obtain k where k: "k \<le> n"
      "\<forall>j < k. mayRetry (fst (fn ((retryRound r fn ^^ j) (retryRound r fn w))))"
      "k = n \<or> \<not> mayRetry (fst (fn ((retryRound r fn ^^ k) (retryRound r fn w))))"
      "map_option (\<lambda>(_, ((err, _), w')). (err, w')) (?C ((err, int (Suc n)), retryRound r fn w)) =
         Some (fn ((retryRound r fn ^^ k) (retryRound r fn w)))" by blast
    have "\<forall>j < Suc k. mayRetry (fst (fn ((retryRound r fn ^^ j) w)))"
      using k(2) True fw by (auto simp: less_Suc_eq_0_disj funpow_swap1)
    with k show ?thesis
      unfolding step by (intro exI[of _ "Suc k"]) (simp add: True funpow_swap1 del: of_nat_Suc)
  qed
qed

text \<open>
  C33: retrying at most \<open>n\<close> times returns.  For every \<open>n\<close> from 1 on, \<^verbatim>\<open>RetryNWithBackoff\<close>
  returns after at most \<open>n\<close> calls: the result is that of the first call that succeeds or says not to
  retry, and of the \<open>n\<close>-th call if there is none; all calls before it failed and may be retried,
  with one pause after each.
\<close>

theorem RetryNWithBackoff_returns:
  assumes "1 \<le> n" "n < 2 ^ 63"
  shows "\<exists>k. int k < n \<and> (\<forall>j < k. mayRetry (fst (fn ((retryRound r fn ^^ j) w)))) \<and>
           (int k = n - 1 \<or> \<not> mayRetry (fst (fn ((retryRound r fn ^^ k) w)))) \<and>
           RetryNWithBackoff r n fn w = Some (fn ((retryRound r fn ^^ k) w))"
proof -
  let ?r = "r\<lparr>ctxDone := (\<lambda>_. False)\<rparr>"
  have round: "retryRound ?r fn = retryRound r fn" by (simp add: retryRound_def fun_eq_iff)
  have n: "int (Suc (nat (n - 1))) = n" using assms(1) by simp
  have run: "RetryNWithBackoff r n fn w = map_option (\<lambda>(_, ((err, _), w')). (err, w'))
      (RetryWithBackoffCtx (countedRetrier ?r) (countedFn fn) ((None, n), w))"
    by (simp add: RetryNWithBackoff_def RetryNWithBackoffCtx_def)
  have "\<not> ctxDone ?r w" "int (nat (n - 1)) < 2 ^ 63" for w using assms by simp_all
  from retryN_loop[OF this, of fn w None, unfolded round n, folded run]
  obtain k where "k \<le> nat (n - 1)" "\<forall>j < k. mayRetry (fst (fn ((retryRound r fn ^^ j) w)))"
    "k = nat (n - 1) \<or> \<not> mayRetry (fst (fn ((retryRound r fn ^^ k) w)))"
    "RetryNWithBackoff r n fn w = Some (fn ((retryRound r fn ^^ k) w))" by blast
  then show ?thesis using assms(1) by (intro exI[of _ k]) auto
qed

text \<open>A call that fails twice; a pause is one second.\<close>

definition flaky :: "nat \<times> duration \<Rightarrow> retErr option \<times> (nat \<times> duration)" where
  "flaky = (\<lambda>(calls, slept). (if calls < 2 then Some (PlainErr (NewErr ''busy'')) else None, (calls + 1, slept)))"

definition secondBackoff :: "(nat \<times> duration) Retrier" where
  "secondBackoff = \<lparr>ctxDone = (\<lambda>_. False), Duration = (\<lambda>w. (second, w)), tSleep = (\<lambda>d (c, s). (c, s + d))\<rparr>"

theorem RetryNWithBackoff_returns_witness:
  "RetryNWithBackoff secondBackoff 5 flaky (0, 0) = Some (None, (3, 2 * second)) \<and>
   RetryNWithBackoff secondBackoff 2 flaky (0, 0) = Some (Some (PlainErr (NewErr ''busy'')), (2, second))"
proof -
  let ?s = "\<lambda>k. (retryRound secondBackoff flaky ^^ k) (0, 0)"
  have s: "?s k = (k, int k * second)" for k
    by (induction k) (simp_all add: retryRound_def secondBackoff_def flaky_def algebra_simps)
  have may: "mayRetry (fst (flaky (?s k))) \<longleftrightarrow> k < 2" for k unfolding s by (simp add: flaky_def mayRetry_def)
  from RetryNWithBackoff_returns[of 5 flaky secondBackoff "(0, 0)"] obtain k where
    k: "int k < 5" "\<forall>j < k. j < 2" "int k = 4 \<or> \<not> k < 2"
    "RetryNWithBackoff secondBackoff 5 flaky (0, 0) = Some (flaky (?s k))" unfolding may by auto
  have "\<not> 2 < k" using k(2) by auto
  with k(3) have "k = 2" by auto
  with k(4) have "RetryNWithBackoff secondBackoff 5 flaky (0, 0) = Some (None, (3, 2 * second))"
    unfolding s by (simp add: flaky_def)
  moreover from RetryNWithBackoff_returns[of 2 flaky secondBackoff "(0, 0)"] obtain k where
    "int k < 2" "int k = 1 \<or> \<not> k < 2" "RetryNWithBackoff secondBackoff 2 flaky (0, 0) = Some (flaky (?s k))"
    unfolding may by auto
  moreover from this have "k = 1" by auto
  ultimately show ?thesis unfolding s by (simp add: flaky_def)
qed

end
