(* ===== verification/GoJson.thy ===== *)
theory GoJson
  imports GoNet "HOL-Library.List_Lexorder"
begin

text \<open>
  What the sources use of Go's packages \<^verbatim>\<open>encoding/json\<close> and \<^verbatim>\<open>time\<close>: \<^verbatim>\<open>json.Marshal\<close> on ASCII strings, integers,
  booleans, slices, structs and maps with string keys, and the text of a \<^verbatim>\<open>time.Time\<close>.  A reference parser reads back
  every value that is printed.
\<close>

section \<open>Values\<close>

datatype json = JNull | JBool bool | JNum int | JStr string | JArr "json list" | JObj "(string \<times> json) list"

text \<open>\<^verbatim>\<open>(*encodeState).string\<close>: quotation marks, backslashes, control characters and the three HTML characters are escaped.\<close>

definition htmlSafe :: "char \<Rightarrow> bool" where
  "htmlSafe c \<longleftrightarrow> (32 :: nat) \<le> of_char c \<and> c \<notin> {CHR 0x22, CHR 0x5C, CHR ''<'', CHR ''>'', CHR ''&''}"

definition quoteChar :: "char \<Rightarrow> string" where
  "quoteChar c =
     (if htmlSafe c then [c]
      else if c = CHR 0x5C \<or> c = CHR 0x22 then [CHR 0x5C, c]
      else if c = CHR 0x0A then [CHR 0x5C, CHR ''n'']
      else if c = CHR 0x0D then [CHR 0x5C, CHR ''r'']
      else if c = CHR 0x09 then [CHR 0x5C, CHR ''t'']
      else [CHR 0x5C, CHR ''u'', CHR ''0'', CHR ''0'', hexChar (of_char c div 16), hexChar (of_char c mod 16)])"

definition quote :: "string \<Rightarrow> string" where
  "quote s = [CHR 0x22] @ concat (map quoteChar s) @ [CHR 0x22]"

fun commas :: "string list \<Rightarrow> string" where
  "commas [] = []"
| "commas [x] = x"
| "commas (x # y # zs) = x @ [CHR '',''] @ commas (y # zs)"

primrec encode :: "json \<Rightarrow> string" where
  "encode JNull = ''null''"
| "encode (JBool b) = (if b then ''true'' else ''false'')"
| "encode (JNum i) = Itoa i"
| "encode (JStr s) = quote s"
| "encode (JArr js) = [CHR ''[''] @ commas (map encode js) @ [CHR '']'']"
| "encode (JObj kvs) = [CHR ''{''] @ commas (map (\<lambda>(k, e). quote k @ [CHR '':''] @ e) (map (map_prod id encode) kvs)) @ [CHR ''}'']"

text \<open>A slice of strings: nil becomes \<^verbatim>\<open>null\<close>.  A map: its keys are sorted.\<close>

definition jsonStrings :: "string list \<Rightarrow> json" where
  "jsonStrings xs = JArr (map JStr xs)"

definition jsonMap :: "('v \<Rightarrow> json) \<Rightarrow> (string, 'v) gomap \<Rightarrow> json" where
  "jsonMap f m = JObj (map (\<lambda>(k, v). (k, f v)) (sort_key fst m))"

section \<open>Times\<close>

text \<open>
  \<^verbatim>\<open>time.Time.date\<close>: the year, the month and the day of the days since January 1, year 1; and the text of
  \<^verbatim>\<open>RFC3339Nano\<close>, where \<open>off\<close> is the offset of the time's zone in seconds.
\<close>

definition isLeap :: "int \<Rightarrow> bool" where
  "isLeap y \<longleftrightarrow> y mod 4 = 0 \<and> (y mod 100 \<noteq> 0 \<or> y mod 400 = 0)"

definition daysBefore :: "int list" where
  "daysBefore = [0, 31, 59, 90, 120, 151, 181, 212, 243, 273, 304, 334, 365]"

definition yearOf :: "int \<Rightarrow> int \<times> int" where
  "yearOf d =
     (let n400 = d div 146097; d = d mod 146097;
          n100 = d div 36524; n100 = n100 - n100 div 4; d = d - 36524 * n100;
          n4 = d div 1461; d = d - 1461 * n4;
          n = d div 365; n = n - n div 4; d = d - 365 * n
      in (400 * n400 + 100 * n100 + 4 * n4 + n + 1, d))"

definition dateOf :: "int \<Rightarrow> int \<times> int \<times> int" where
  "dateOf d =
     (let (year, yday) = yearOf d in
      if isLeap year \<and> yday = 59 then (year, 2, 29)
      else
        let day = (if isLeap year \<and> yday > 59 then yday - 1 else yday);
            month = day div 31;
            month = (if day \<ge> daysBefore ! nat (month + 1) then month + 1 else month)
        in (year, month + 1, day - daysBefore ! nat month + 1))"

definition zeroPad :: "nat \<Rightarrow> int \<Rightarrow> string" where
  "zeroPad w i = (let s = Itoa i in replicate (w - length s) (CHR ''0'') @ s)"

definition formatZone :: "int \<Rightarrow> string" where
  "formatZone off =
     (if off = 0 then ''Z''
      else
        let zone = (if off < 0 then - (- off div 60) else off div 60); a = \<bar>zone\<bar>
        in [if zone < 0 then CHR ''-'' else CHR ''+''] @ zeroPad 2 (a div 60) @ '':'' @ zeroPad 2 (a mod 60))"

definition formatNanos :: "int \<Rightarrow> string" where
  "formatNanos ns =
     (let digits = rev (dropWhile (\<lambda>c. c = CHR ''0'') (rev (zeroPad 9 ns)))
      in if digits = [] then [] else CHR ''.'' # digits)"

definition formatTime :: "int \<Rightarrow> time \<Rightarrow> string" where
  "formatTime off t =
     (let local = t + off * second;
          (year, month, day) = dateOf (local div (86400 * second));
          sec = local mod (86400 * second) div second
      in zeroPad 4 year @ ''-'' @ zeroPad 2 month @ ''-'' @ zeroPad 2 day @ ''T'' @
         zeroPad 2 (sec div 3600) @ '':'' @ zeroPad 2 (sec div 60 mod 60) @ '':'' @ zeroPad 2 (sec mod 60) @
         formatNanos (local mod second) @ formatZone off)"

text \<open>\<^verbatim>\<open>time.Time.MarshalJSON\<close>: a year beyond 9999 is an error.  The zero time is in UTC.\<close>

definition timeJson :: "(time \<Rightarrow> int) \<Rightarrow> time \<Rightarrow> json res" where
  "timeJson zone t =
     (let off = (if t = 0 then 0 else zone t);
          year = fst (dateOf ((t + off * second) div (86400 * second)))
      in if year < 0 \<or> year \<ge> 10000 then Err (NewErr ''Time.MarshalJSON: year outside of range [0,9999]'')
         else Val (JStr (formatTime off t)))"

section \<open>A reference parser\<close>

definition hexVal :: "char \<Rightarrow> int" where
  "hexVal c = (let n = of_char c in if n < 58 then n - 48 else n - 87)"

text \<open>The rest of a string literal after its opening quotation mark: its value and what follows it.\<close>

fun unquote :: "string \<Rightarrow> (string \<times> string) option" where
  "unquote [] = None"
| "unquote (c # s) =
     (if c = CHR 0x22 then Some ([], s)
      else if c = CHR 0x5C then
        (case s of
           [] \<Rightarrow> None
         | e # s1 \<Rightarrow>
             if e = CHR ''u'' then
               (case s1 of
                  a # b # h # l # s2 \<Rightarrow> map_option (apfst (Cons (char_of (16 * hexVal h + hexVal l)))) (unquote s2)
                | _ \<Rightarrow> None)
             else map_option (apfst (Cons (if e = CHR ''n'' then CHR 0x0A else if e = CHR ''r'' then CHR 0x0D
                                           else if e = CHR ''t'' then CHR 0x09 else e))) (unquote s1))
      else map_option (apfst (Cons c)) (unquote s))"

definition isDigit :: "char \<Rightarrow> bool" where
  "isDigit c \<longleftrightarrow> (48 :: nat) \<le> of_char c \<and> (of_char c :: nat) \<le> 57"

definition digitsVal :: "string \<Rightarrow> nat" where
  "digitsVal ds = foldl (\<lambda>n c. 10 * n + (of_char c - 48)) 0 ds"

definition pNum :: "string \<Rightarrow> (json \<times> string) option" where
  "pNum s =
     (let neg = (s \<noteq> [] \<and> hd s = CHR ''-''); t = (if neg then tl s else s);
          ds = takeWhile isDigit t; n = int (digitsVal ds)
      in if ds = [] then None else Some (JNum (if neg then - n else n), dropWhile isDigit t))"

definition pWord :: "string \<Rightarrow> json \<Rightarrow> string \<Rightarrow> (json \<times> string) option" where
  "pWord w j s = (if HasPrefix s w then Some (j, drop (length w) s) else None)"

text \<open>The first argument bounds the depth; the length of the text is enough.\<close>

fun pVal :: "nat \<Rightarrow> string \<Rightarrow> (json \<times> string) option"
  and pElems :: "nat \<Rightarrow> string \<Rightarrow> (json list \<times> string) option"
  and pMembers :: "nat \<Rightarrow> string \<Rightarrow> ((string \<times> json) list \<times> string) option" where
  "pVal 0 s = None"
| "pVal (Suc n) s =
     (case s of
        [] \<Rightarrow> None
      | c # r \<Rightarrow>
          if c = CHR 0x22 then map_option (apfst JStr) (unquote r)
          else if c = CHR ''['' then
            (if r \<noteq> [] \<and> hd r = CHR '']'' then Some (JArr [], tl r) else map_option (apfst JArr) (pElems n r))
          else if c = CHR ''{'' then
            (if r \<noteq> [] \<and> hd r = CHR ''}'' then Some (JObj [], tl r) else map_option (apfst JObj) (pMembers n r))
          else if c = CHR ''n'' then pWord ''null'' JNull s
          else if c = CHR ''t'' then pWord ''true'' (JBool True) s
          else if c = CHR ''f'' then pWord ''false'' (JBool False) s
          else pNum s)"
| "pElems 0 s = None"
| "pElems (Suc n) s =
     (case pVal n s of
        Some (j, c # r) \<Rightarrow>
          if c = CHR '']'' then Some ([j], r)
          else if c = CHR '','' then map_option (apfst (Cons j)) (pElems n r)
          else None
      | _ \<Rightarrow> None)"
| "pMembers 0 s = None"
| "pMembers (Suc n) s =
     (case s of
        [] \<Rightarrow> None
      | q # t \<Rightarrow>
          if q \<noteq> CHR 0x22 then None
          else
            (case unquote t of
               Some (k, d # v) \<Rightarrow>
                 if d \<noteq> CHR '':'' then None
                 else
                   (case pVal n v of
                      Some (j, c # r) \<Rightarrow>
                        if c = CHR ''}'' then Some ([(k, j)], r)
                        else if c = CHR '','' then map_option (apfst (Cons (k, j))) (pMembers n r)
                        else None
                    | _ \<Rightarrow> None)
             | _ \<Rightarrow> None))"

definition parseJson :: "string \<Rightarrow> json option" where
  "parseJson s = (case pVal (length s + 1) s of Some (j, []) \<Rightarrow> Some j | _ \<Rightarrow> None)"

section \<open>Printing and parsing are inverse\<close>

lemma hexVal_hexChar: "0 \<le> d \<Longrightarrow> d < 16 \<Longrightarrow> hexVal (hexChar d) = d"
proof -
  assume "0 \<le> d" "d < 16"
  then show ?thesis by (auto simp: hexVal_def hexChar_def Let_def)
qed

lemma unquote_quoteChar: "unquote (quoteChar c @ s) = map_option (apfst (Cons c)) (unquote s)"
proof (cases "htmlSafe c \<or> c \<in> {CHR 0x5C, CHR 0x22, CHR 0x0A, CHR 0x0D, CHR 0x09}")
  case True
  then show ?thesis by (auto simp: quoteChar_def htmlSafe_def)
next
  case False
  have "(0::int) \<le> of_char c mod 256" "(of_char c mod 256 :: int) < 256" by (rule pos_mod_sign, simp) (rule pos_mod_bound, simp)
  then have "char_of (16 * hexVal (hexChar (of_char c div 16)) + hexVal (hexChar (of_char c mod 16))) = c"
    by (simp add: hexVal_hexChar)
  with False show ?thesis by (simp add: quoteChar_def)
qed

lemma unquote_quote: "unquote (concat (map quoteChar s) @ CHR 0x22 # rest) = Some (s, rest)"
  by (induction s) (simp_all add: unquote_quoteChar)

definition stops :: "string \<Rightarrow> bool" where
  "stops rest \<longleftrightarrow> rest = [] \<or> \<not> isDigit (hd rest)"

lemma digitChar_facts:
  assumes "d < 10"
  shows "isDigit (digitChar d)" "(of_char (digitChar d) :: nat) = d + 48"
  using assms by (auto simp: isDigit_def digitChar_def)

lemma natToStr_digits: "\<forall>c \<in> set (natToStr n). isDigit c"
  by (induction n rule: natToStr.induct) (subst natToStr.simps; auto simp: digitChar_facts)

lemma digitsVal_natToStr: "digitsVal (natToStr n) = n"
proof (induction n rule: natToStr.induct)
  case (1 n)
  then show ?case
    by (subst natToStr.simps) (auto simp: digitsVal_def digitChar_facts)
qed

lemma natToStr_nonempty: "natToStr n \<noteq> []"
  by (subst natToStr.simps) simp

lemma takeWhile_digits:
  assumes "\<forall>c \<in> set ds. isDigit c" "stops rest"
  shows "takeWhile isDigit (ds @ rest) = ds" "dropWhile isDigit (ds @ rest) = rest"
  using assms by (induction ds) (cases rest; auto simp: stops_def)+

lemma pNum_Itoa: "stops rest \<Longrightarrow> pNum (Itoa i @ rest) = Some (JNum i, rest)"
proof -
  assume st: "stops rest"
  have hd: "hd (natToStr n @ rest) \<noteq> CHR ''-''" for n
    using natToStr_digits[of n] natToStr_nonempty[of n] by (cases "natToStr n") (auto simp: isDigit_def)
  show ?thesis
    using takeWhile_digits[OF natToStr_digits st] hd
    by (auto simp: pNum_def Itoa_def Let_def natToStr_nonempty digitsVal_natToStr)
qed

lemma encode_head:
  "encode j \<noteq> []" "hd (encode j @ r) \<notin> {CHR '']'', CHR '',''}"
proof -
  have d: "hd (natToStr n @ r) \<notin> {CHR '']'', CHR '',''}" for n
    using natToStr_digits[of n] natToStr_nonempty[of n] by (cases "natToStr n") (auto simp: isDigit_def)
  show "encode j \<noteq> []" by (cases j) (simp_all add: quote_def Itoa_def natToStr_nonempty)
  show "hd (encode j @ r) \<notin> {CHR '']'', CHR '',''}" using d by (cases j) (simp_all add: quote_def Itoa_def)
qed

lemma stops_punct [simp]: "c \<in> {CHR '']'', CHR '','', CHR ''}''} \<Longrightarrow> stops (c # r)"
  by (auto simp: stops_def isDigit_def)

definition member :: "string \<times> json \<Rightarrow> string" where
  "member kv = quote (fst kv) @ [CHR '':''] @ encode (snd kv)"

lemma encode_obj: "encode (JObj kvs) = [CHR ''{''] @ commas (map member kvs) @ [CHR ''}'']"
proof -
  have "(\<lambda>(k, e). quote k @ [CHR '':''] @ e) \<circ> map_prod id encode = member" by (auto simp: member_def)
  then show ?thesis by simp
qed

lemma pElems_run:
  assumes "\<And>j n rest. j \<in> set js \<Longrightarrow> length (encode j) < n \<Longrightarrow> stops rest \<Longrightarrow> pVal n (encode j @ rest) = Some (j, rest)"
    and "js \<noteq> []" "length (commas (map encode js)) + 1 < n"
  shows "pElems n (commas (map encode js) @ CHR '']'' # rest) = Some (js, rest)"
  using assms
proof (induction js arbitrary: n)
  case (Cons j js)
  obtain m where n: "n = Suc m" using Cons.prems(3) by (cases n) auto
  show ?case
  proof (cases js)
    case Nil
    then show ?thesis using Cons.prems(3) by (simp add: n Cons.prems(1))
  next
    case (Cons j' js')
    have "pElems m (commas (map encode js) @ CHR '']'' # rest) = Some (js, rest)"
      using Cons Cons.prems encode_head(1)[of j] by (intro Cons.IH) (auto simp: n)
    then show ?thesis using Cons Cons.prems by (simp add: n)
  qed
qed simp

lemma pMembers_step:
  assumes "\<And>n rest. length (encode j) < n \<Longrightarrow> stops rest \<Longrightarrow> pVal n (encode j @ rest) = Some (j, rest)" "length (encode j) < n"
  shows "pMembers (Suc n) (member (k, j) @ CHR ''}'' # rest) = Some ([(k, j)], rest)"
    and "pMembers (Suc n) (member (k, j) @ CHR '','' # rest) = map_option (apfst (Cons (k, j))) (pMembers n rest)"
  using assms by (simp_all add: member_def quote_def unquote_quote)

lemma pMembers_run:
  assumes "\<And>kv n rest. kv \<in> set kvs \<Longrightarrow> length (encode (snd kv)) < n \<Longrightarrow> stops rest \<Longrightarrow>
      pVal n (encode (snd kv) @ rest) = Some (snd kv, rest)"
    and "kvs \<noteq> []" "length (commas (map member kvs)) + 1 < n"
  shows "pMembers n (commas (map member kvs) @ CHR ''}'' # rest) = Some (kvs, rest)"
  using assms
proof (induction kvs arbitrary: n)
  case (Cons kv kvs)
  obtain k j where kv: "kv = (k, j)" by (cases kv)
  obtain m where n: "n = Suc m" using Cons.prems(3) by (cases n) auto
  have len: "length (encode j) < length (member (k, j))" by (simp add: member_def quote_def)
  note st = pMembers_step[of j m k, OF Cons.prems(1)[of kv, unfolded kv snd_conv]]
  show ?case
  proof (cases kvs)
    case Nil
    then show ?thesis using Cons.prems(3) st(1) len by (simp add: n kv)
  next
    case (Cons kv' kvs')
    have "pMembers m (commas (map member kvs) @ CHR ''}'' # rest) = Some (kvs, rest)"
      using Cons Cons.prems len by (intro Cons.IH) (auto simp: n kv)
    then show ?thesis using Cons Cons.prems(3) st(2) len by (simp add: n kv)
  qed
qed simp

lemma pVal_encode: "length (encode j) < n \<Longrightarrow> stops rest \<Longrightarrow> pVal n (encode j @ rest) = Some (j, rest)"
proof (induction j arbitrary: n rest)
  case (JNum i)
  then obtain m where n: "n = Suc m" by (cases n) auto
  have "\<exists>c s. Itoa i @ rest = c # s \<and> (c = CHR ''-'' \<or> isDigit c)"
    using natToStr_digits natToStr_nonempty by (auto simp: Itoa_def neq_Nil_conv) (metis append_Cons list.set_intros(1) neq_Nil_conv)
  then obtain c s where c: "Itoa i @ rest = c # s" "c = CHR ''-'' \<or> isDigit c" by blast
  then have "c \<notin> {CHR 0x22, CHR ''['', CHR ''{'', CHR ''n'', CHR ''t'', CHR ''f''}" by (auto simp: isDigit_def)
  then have "pVal n (c # s) = pNum (c # s)" by (simp add: n)
  with pNum_Itoa[OF JNum(2), of i] c(1) show ?case by simp
next
  case (JArr js)
  then obtain m where n: "n = Suc m" by (cases n) auto
  show ?case
  proof (cases js)
    case (Cons j js')
    have "hd (commas (map encode js) @ CHR '']'' # rest) \<noteq> CHR '']''"
      using Cons encode_head(2)[of j] encode_head(1)[of j] by (cases js') auto
    moreover have "pElems m (commas (map encode js) @ CHR '']'' # rest) = Some (js, rest)"
      using JArr Cons by (intro pElems_run) (auto simp: n)
    ultimately show ?thesis by (simp add: n)
  qed (simp add: n)
next
  case (JObj kvs)
  then obtain m where n: "n = Suc m" by (cases n) auto
  show ?case
  proof (cases kvs)
    case (Cons kv kvs')
    have "hd (commas (map member kvs) @ CHR ''}'' # rest) \<noteq> CHR ''}''"
      using Cons by (cases kvs') (auto simp: member_def quote_def)
    moreover have "pMembers m (commas (map member kvs) @ CHR ''}'' # rest) = Some (kvs, rest)"
    proof (rule pMembers_run)
      show "length (commas (map member kvs)) + 1 < m" using JObj.prems(1) unfolding encode_obj by (simp add: n)
    qed (use Cons JObj.IH in \<open>auto simp: snds.simps\<close>)
    ultimately show ?thesis unfolding encode_obj by (simp add: n)
  qed (simp add: n)
qed (auto simp: gr0_conv_Suc less_Suc_eq_0_disj quote_def unquote_quote pWord_def HasPrefix_iff split: nat.splits
  intro: ccontr elim!: less_natE)

text \<open>What \<^verbatim>\<open>json.Marshal\<close> prints is read back.\<close>

lemma parseJson_encode: "parseJson (encode j) = Some j"
  using pVal_encode[of j "length (encode j) + 1" "[]"] by (simp add: parseJson_def stops_def)

section \<open>Maps\<close>

lemma map_of_sort_key: "mwf m \<Longrightarrow> map_of (sort_key fst m) = map_of m"
  using map_of_inject_set[of "sort_key fst m" m] by (simp add: mwf_def mkeys_def distinct_map)

text \<open>Sorting makes the text independent of the order of a \<^verbatim>\<open>range\<close> loop.\<close>

lemma sort_key_unique:
  assumes "mwf m" "mwf m'" "map_of m = map_of m'"
  shows "sort_key fst m = sort_key fst m'"
proof (rule map_sorted_distinct_set_unique[where f = fst])
  have "set m = set m'" using assms map_of_inject_set[of m m'] by (simp add: mwf_def mkeys_def)
  then show "set (sort_key fst m) = set (sort_key fst m')" by simp
  then show "inj_on fst (set (sort_key fst m) \<union> set (sort_key fst m'))"
    using assms(1) \<open>set m = set m'\<close> by (simp add: mwf_def mkeys_def distinct_map)
qed (use assms in \<open>simp_all add: mwf_def mkeys_def distinct_map\<close>)

text \<open>The value at a path of keys.\<close>

fun at :: "string list \<Rightarrow> json \<Rightarrow> json option" where
  "at [] j = Some j"
| "at (k # ks) (JObj kvs) = (case map_of kvs k of None \<Rightarrow> None | Some j \<Rightarrow> at ks j)"
| "at (k # ks) j = None"

end
