(* ===== verification/UtilsMisc.thy ===== *)
theory UtilsMisc
  imports Utils PluginProps GoJson
begin

unbundle bit_operations_syntax

text \<open>
  The rest of \<^verbatim>\<open>pkg/utils/utils.go\<close> and of \<^verbatim>\<open>errors.go\<close>: the test for a zero value, by reflection on Go's types, and the
  random name.  The values are those of Go's types but the floating-point ones; an address stands for what a pointer, a channel or a function refers to.
\<close>

section \<open>Zero values\<close>

datatype goType =
    TBool | TInt | TString | TPtr | TChan | TFunc | TInterface
  | TSlice goType | TMap goType goType | TArray nat goType | TStruct "goType list"

datatype goValue =
    BoolV bool | IntV int | StringV string | PtrV "nat option" | ChanV "nat option" | FuncV "nat option"
  | InterfaceV "goValue option"
  | SliceV goType "goValue list option"
  | MapV goType goType "(goValue \<times> goValue) list option"
  | ArrayV goType "goValue list"
  | StructV "goValue list"

fun TypeOf :: "goValue \<Rightarrow> goType" where
  "TypeOf (BoolV _) = TBool"
| "TypeOf (IntV _) = TInt"
| "TypeOf (StringV _) = TString"
| "TypeOf (PtrV _) = TPtr"
| "TypeOf (ChanV _) = TChan"
| "TypeOf (FuncV _) = TFunc"
| "TypeOf (InterfaceV _) = TInterface"
| "TypeOf (SliceV t _) = TSlice t"
| "TypeOf (MapV k t _) = TMap k t"
| "TypeOf (ArrayV t vs) = TArray (length vs) t"
| "TypeOf (StructV vs) = TStruct (map TypeOf vs)"

fun Zero :: "goType \<Rightarrow> goValue" where
  "Zero TBool = BoolV False"
| "Zero TInt = IntV 0"
| "Zero TString = StringV ''''"
| "Zero TPtr = PtrV None"
| "Zero TChan = ChanV None"
| "Zero TFunc = FuncV None"
| "Zero TInterface = InterfaceV None"
| "Zero (TSlice t) = SliceV t None"
| "Zero (TMap k t) = MapV k t None"
| "Zero (TArray n t) = ArrayV t (replicate n (Zero t))"
| "Zero (TStruct ts) = StructV (map Zero ts)"

fun Comparable :: "goType \<Rightarrow> bool" where
  "Comparable TFunc = False"
| "Comparable (TSlice _) = False"
| "Comparable (TMap _ _) = False"
| "Comparable (TArray _ t) = Comparable t"
| "Comparable (TStruct ts) = list_all Comparable ts"
| "Comparable _ = True"

text \<open>The length of a nil slice or map is 0.  \<open>None\<close> is the untyped nil.\<close>

definition ZeroOrNil :: "goValue option \<Rightarrow> bool" where
  "ZeroOrNil obj =
     (case obj of
        None \<Rightarrow> True
      | Some (SliceV _ xs) \<Rightarrow> length (case xs of None \<Rightarrow> [] | Some ys \<Rightarrow> ys) = 0
      | Some (ArrayV _ xs) \<Rightarrow> length xs = 0
      | Some (MapV _ _ m) \<Rightarrow> length (case m of None \<Rightarrow> [] | Some kvs \<Rightarrow> kvs) = 0
      | Some v \<Rightarrow> if \<not> Comparable (TypeOf v) then False else v = Zero (TypeOf v))"

lemma TypeOf_Zero [simp]: "TypeOf (Zero t) = t"
  by (induction t) (auto simp: map_idI)

text \<open>
  Which zero values are recognised: all but functions, structs that cannot be compared, and arrays that have elements.
  Conversely a value that is taken for zero is the zero value of its type or an empty slice or map.
\<close>

theorem ZeroOrNil_zero_values:
  "ZeroOrNil (Some (Zero t)) \<longleftrightarrow>
     (case t of TFunc \<Rightarrow> False | TArray n _ \<Rightarrow> n = 0 | TStruct ts \<Rightarrow> list_all Comparable ts | _ \<Rightarrow> True)"
  by (cases t) (auto simp: ZeroOrNil_def comp_def map_idI)

theorem ZeroOrNil_sound:
  assumes "ZeroOrNil (Some v)"
  shows "v = Zero (TypeOf v) \<or> (\<exists>t. v = SliceV t (Some [])) \<or> (\<exists>k t. v = MapV k t (Some []))"
  using assms by (cases v) (auto simp: ZeroOrNil_def split: if_splits option.splits)

lemma ZeroOrNil_examples:
  "ZeroOrNil None" "ZeroOrNil (Some (IntV 0))" "ZeroOrNil (Some (StringV ''''))"
  "ZeroOrNil (Some (StructV [IntV 0, StringV '''']))" "\<not> ZeroOrNil (Some (StructV [IntV 0, StringV ''asdf'']))"
  "\<not> ZeroOrNil (Some (IntV 1))" "\<not> ZeroOrNil (Some (SliceV TInt (Some [IntV 1, IntV 2, IntV 3])))"
  "ZeroOrNil (Some (SliceV TInt (Some [])))" "\<not> ZeroOrNil (Some (StructV [SliceV TInt None]))"
  "ZeroOrNil (Some (MapV TString TString None))" "ZeroOrNil (Some (MapV TString TString (Some [])))"
  "\<not> ZeroOrNil (Some (MapV TString TString (Some [(StringV ''foo'', StringV ''bar'')])))"
  by (simp_all add: ZeroOrNil_def)

section \<open>The random name\<close>

text \<open>\<^verbatim>\<open>binary.PutUvarint\<close>: seven bits in a byte, the eighth says that more follow; an index past the buffer panics.\<close>

fun PutUvarint :: "int list \<Rightarrow> 64 word \<Rightarrow> int list res" where
  "PutUvarint [] x = Panic ''index out of range''"
| "PutUvarint (b # buf) x =
     (if x \<ge> 0x80 then
        (case PutUvarint buf (drop_bit 7 x) of Val r \<Rightarrow> Val (uint (ucast x OR 0x80 :: 8 word) # r) | p \<Rightarrow> p)
      else Val (uint (ucast x :: 8 word) # buf))"

definition PutVarint :: "int list \<Rightarrow> int \<Rightarrow> int list res" where
  "PutVarint buf x = (let ux = push_bit 1 (word_of_int x) in PutUvarint buf (if x < 0 then NOT ux else ux))"

text \<open>\<open>randInt\<close> is \<^verbatim>\<open>rand.Int\<close>, whose error is dropped: the number is then nil.\<close>

definition RandHex :: "('w, int) go \<Rightarrow> ('w, string) go" where
  "RandHex randInt =
     bindG (tryG randInt) (\<lambda>r.
     case r of
       Inl _ \<Rightarrow> panicG ''nil pointer dereference''
     | Inr x \<Rightarrow> (case PutVarint (replicate 10 0) x of
                   Val out \<Rightarrow> retG (hexEncode out) | Err err \<Rightarrow> errG err | Panic p \<Rightarrow> panicG p))"

section \<open>Pointers and errors\<close>

text \<open>A \<^verbatim>\<open>*string\<close> is an optional string.\<close>

definition Strptr :: "string \<Rightarrow> string option" where
  "Strptr s = Some s"

definition NewAttributeError :: "string \<Rightarrow> goerr" where
  "NewAttributeError err = NewErr err"

section \<open>Reading a random name back\<close>

fun uvarint :: "int list \<Rightarrow> int" where
  "uvarint [] = 0"
| "uvarint (b # bs) = (if b < 128 then b else b - 128 + 128 * uvarint bs)"

fun hexDecode :: "string \<Rightarrow> int list" where
  "hexDecode (a # b # s) = (16 * hexVal a + hexVal b) # hexDecode s"
| "hexDecode _ = []"

lemma hexDecode_hexEncode: "\<forall>b \<in> set bs. 0 \<le> b \<and> b < 256 \<Longrightarrow> hexDecode (hexEncode bs) = bs"
  by (induction bs) (auto simp: hexEncode_def hexVal_hexChar)

lemma high_bit: "take_bit 8 y OR 128 = y mod 128 + (128 :: int)"
proof -
  have b: "bit (128 :: int) n \<longleftrightarrow> n = 7" for n
  proof -
    have "(128 :: int) = 2 ^ 7" by simp
    then show ?thesis by (metis bit_exp_iff possible_bit_int)
  qed
  have "y mod 128 + 128 = take_bit 7 y + 128" by (simp add: take_bit_eq_mod)
  also have "\<dots> = take_bit 7 y OR 128" by (rule disjunctive_add) (simp add: b bit_take_bit_iff)
  also have "\<dots> = take_bit 8 y OR 128"
    by (rule bit_eqI) (auto simp: b bit_or_iff bit_take_bit_iff)
  finally show ?thesis by simp
qed

lemma low_bits:
  fixes x :: "64 word"
  shows "uint (ucast x OR 0x80 :: 8 word) = uint x mod 128 + 128" "x < 0x80 \<Longrightarrow> uint (ucast x :: 8 word) = uint x"
proof -
  show "uint (ucast x OR 0x80 :: 8 word) = uint x mod 128 + 128"
    using high_bit[of "uint x"] by (simp add: unsigned_or_eq unsigned_ucast_eq)
  show "uint (ucast x :: 8 word) = uint x" if "x < 0x80"
    using that by (simp add: unsigned_ucast_eq take_bit_eq_mod word_less_def)
qed

lemma PutUvarint_reads:
  assumes "uint x < 128 ^ length buf" "buf \<noteq> []" "\<forall>b \<in> set buf. 0 \<le> b \<and> b < 256"
  shows "\<exists>r. PutUvarint buf x = Val r \<and> length r = length buf \<and> uvarint r = uint x \<and> (\<forall>b \<in> set r. 0 \<le> b \<and> b < 256)"
  using assms
proof (induction buf arbitrary: x)
  case (Cons b buf)
  show ?case
  proof (cases "x \<ge> 0x80")
    case True
    then have ge: "uint x \<ge> 128" by (simp add: word_le_def)
    have shift: "uint (drop_bit 7 x) = uint x div 128" by (simp add: drop_bit_eq_div uint_div_distrib)
    have "uint x div 128 < 128 ^ length buf" using Cons.prems(1) by (simp add: div_less_iff_less_mult mult.commute)
    moreover from this have "buf \<noteq> []" using ge by (cases buf) auto
    ultimately obtain r where r: "PutUvarint buf (drop_bit 7 x) = Val r" "length r = length buf"
      "uvarint r = uint x div 128" "\<forall>b \<in> set r. 0 \<le> b \<and> b < 256"
      using Cons.IH[of "drop_bit 7 x"] Cons.prems(3) shift by auto
    have m: "uint x mod 128 + 128 < 256" "0 \<le> uint x mod 128" by (simp_all add: pos_mod_bound)
    then have "uvarint (uint (ucast x OR 0x80 :: 8 word) # r) = uint x" using r(3) by (simp add: low_bits(1) not_less[symmetric])
    with m show ?thesis using True r by (auto simp: low_bits(1))
  next
    case False
    then have "uint x < 128" by (simp add: word_le_def)
    then show ?thesis using False Cons.prems(3) by (auto simp: low_bits(2))
  qed
qed simp

text \<open>
  A random name is twenty hexadecimal digits, from which the number that was drawn can be read: different numbers give different names.  The
  buffer of ten bytes is never too short.
\<close>

theorem RandHex_roundtrip:
  assumes "randInt w = (Val x, w')" "0 \<le> x" "x < 2 ^ 63 - 1"
  shows "\<exists>s. RandHex randInt w = (Val s, w') \<and> length s = 20 \<and> set s \<subseteq> set ''0123456789abcdef'' \<and>
    uvarint (hexDecode s) div 2 = x"
proof -
  let ?ux = "push_bit 1 (word_of_int x) :: 64 word"
  have ux: "uint ?ux = 2 * x" using assms(2,3) by (simp add: push_bit_eq_mult uint_word_ariths uint_word_of_int)
  have "uint ?ux < 128 ^ length (replicate 10 (0 :: int))" unfolding ux using assms(3) by simp
  from PutUvarint_reads[OF this] ux obtain r where r: "PutUvarint (replicate 10 0) ?ux = Val r" "length r = 10"
    "uvarint r = 2 * x" "\<forall>b \<in> set r. 0 \<le> b \<and> b < 256" by auto
  then have "RandHex randInt w = (Val (hexEncode r), w')"
    using assms by (simp add: RandHex_def bindG_tryG_run PutVarint_def retG_def)
  then show ?thesis using r hexEncode_digits[OF r(4)] by (simp add: length_hexEncode hexDecode_hexEncode)
qed

end
