(* ===== verification/GoFloat.thy ===== *)
theory GoFloat
  imports Complex_Main
begin

text \<open>
  Go's \<^verbatim>\<open>float64\<close>: IEEE 754 binary64 with rounding to nearest, ties to even.  A finite value is the rational number
  it stands for; the two zeros are one value, which no comparison and no operation used here tells apart.
  The conversion of integers up to \<open>2 ^ 53\<close>, and their sums and differences within that range, are exact.
\<close>

datatype float64 = Fin rat | Inf bool | NaN   \<comment> \<open>\<open>Inf True\<close> is the negative infinity\<close>

section \<open>Rounding\<close>

function bitlen :: "int \<Rightarrow> nat" where
  "bitlen n = (if n \<le> 0 then 0 else Suc (bitlen (n div 2)))"
  by auto
termination by (relation "measure nat") auto

declare bitlen.simps [simp del]

definition pow2 :: "int \<Rightarrow> rat" where
  "pow2 e = (if 0 \<le> e then 2 ^ nat e else 1 / 2 ^ nat (- e))"

text \<open>The exponent of a positive number: the largest \<open>e\<close> with \<open>2 ^ e \<le> x\<close>.\<close>

definition exponentOf :: "rat \<Rightarrow> int" where
  "exponentOf x =
     (let (p, q) = quotient_of x; e = int (bitlen p) - int (bitlen q) in if x < pow2 e then e - 1 else e)"

definition roundHalfEven :: "rat \<Rightarrow> int" where
  "roundHalfEven r =
     (let f = \<lfloor>r\<rfloor>; d = r - of_int f in
      if d < 1 / 2 then f else if d > 1 / 2 then f + 1 else if even f then f else f + 1)"

definition f64_round :: "rat \<Rightarrow> float64" where
  "f64_round x =
     (if x = 0 then Fin 0
      else
        (let u = max (exponentOf \<bar>x\<bar> - 52) (- 1074);
             y = of_int (roundHalfEven (x / pow2 u)) * pow2 u in
         if 2 ^ 1024 \<le> \<bar>y\<bar> then Inf (x < 0) else Fin y))"

definition f64_of_int :: "int \<Rightarrow> float64" where
  "f64_of_int n = f64_round (of_int n)"

section \<open>Arithmetic and comparison\<close>

fun f64_add :: "float64 \<Rightarrow> float64 \<Rightarrow> float64" where
  "f64_add (Fin a) (Fin b) = f64_round (a + b)"
| "f64_add NaN _ = NaN"
| "f64_add _ NaN = NaN"
| "f64_add (Inf s) (Inf t) = (if s = t then Inf s else NaN)"
| "f64_add (Inf s) (Fin _) = Inf s"
| "f64_add (Fin _) (Inf t) = Inf t"

fun f64_neg :: "float64 \<Rightarrow> float64" where
  "f64_neg (Fin a) = Fin (- a)"
| "f64_neg (Inf s) = Inf (\<not> s)"
| "f64_neg NaN = NaN"

definition f64_sub :: "float64 \<Rightarrow> float64 \<Rightarrow> float64" where
  "f64_sub x y = f64_add x (f64_neg y)"

fun f64_mul :: "float64 \<Rightarrow> float64 \<Rightarrow> float64" where
  "f64_mul (Fin a) (Fin b) = f64_round (a * b)"
| "f64_mul NaN _ = NaN"
| "f64_mul _ NaN = NaN"
| "f64_mul (Inf s) (Inf t) = Inf (s \<noteq> t)"
| "f64_mul (Inf s) (Fin b) = (if b = 0 then NaN else Inf (s \<noteq> (b < 0)))"
| "f64_mul (Fin a) (Inf t) = (if a = 0 then NaN else Inf ((a < 0) \<noteq> t))"

text \<open>\<^verbatim>\<open>x / 2\<close>\<close>

fun f64_half :: "float64 \<Rightarrow> float64" where
  "f64_half (Fin a) = f64_round (a / 2)"
| "f64_half (Inf s) = Inf s"
| "f64_half NaN = NaN"

fun f64_less :: "float64 \<Rightarrow> float64 \<Rightarrow> bool" where
  "f64_less (Fin a) (Fin b) \<longleftrightarrow> a < b"
| "f64_less NaN _ \<longleftrightarrow> False"
| "f64_less _ NaN \<longleftrightarrow> False"
| "f64_less (Inf s) (Inf t) \<longleftrightarrow> s \<and> \<not> t"
| "f64_less (Inf s) (Fin _) \<longleftrightarrow> s"
| "f64_less (Fin _) (Inf t) \<longleftrightarrow> \<not> t"

text \<open>\<^verbatim>\<open>x == y\<close>\<close>

definition f64_eq :: "float64 \<Rightarrow> float64 \<Rightarrow> bool" where
  "f64_eq x y \<longleftrightarrow> x \<noteq> NaN \<and> x = y"

definition f64_ge :: "float64 \<Rightarrow> float64 \<Rightarrow> bool" where
  "f64_ge x y \<longleftrightarrow> f64_less y x \<or> f64_eq x y"

section \<open>Exact integers\<close>

lemma bitlen_lower: "0 < n \<Longrightarrow> 2 ^ (bitlen n - 1) \<le> n \<and> 0 < bitlen n"
proof (induction n rule: bitlen.induct)
  case (1 n)
  have b: "bitlen n = Suc (bitlen (n div 2))" using 1 by (subst bitlen.simps) simp
  show ?case
  proof (cases "n div 2 \<le> 0")
    case False
    with 1 have "2 ^ (bitlen (n div 2) - 1) \<le> n div 2" "0 < bitlen (n div 2)" by auto
    then have "2 ^ bitlen (n div 2) \<le> 2 * (n div 2)" by (cases "bitlen (n div 2)") auto
    then show ?thesis by (simp add: b)
  qed (use 1 in \<open>simp add: b bitlen.simps[of "n div 2"] bitlen.simps[of 0]\<close>)
qed

lemma bitlen_1: "bitlen 1 = 1"
  by (simp add: bitlen.simps[of 1] bitlen.simps[of 0])

lemma exponentOf_int:
  assumes "0 < n"
  shows "\<exists>e. exponentOf (of_int n) = int e \<and> 2 ^ e \<le> n"
proof -
  let ?e = "bitlen n - 1"
  have n: "2 ^ ?e \<le> n" and b: "0 < bitlen n" using bitlen_lower[OF assms] by auto
  have "(2 :: rat) ^ ?e \<le> of_int n" using n by (metis of_int_le_iff of_int_numeral of_int_power)
  then have "exponentOf (of_int n) = int ?e"
    using b assms by (simp add: exponentOf_def quotient_of_int bitlen_1 pow2_def Let_def of_nat_diff nat_diff_distrib)
  with n show ?thesis by blast
qed

lemma roundHalfEven_int [simp]: "roundHalfEven (of_int n) = n"
  by (simp add: roundHalfEven_def)

lemma f64_of_int_exact:
  assumes "\<bar>n\<bar> \<le> 2 ^ 53"
  shows "f64_of_int n = Fin (of_int n)"
proof (cases "n = 0")
  case False
  then obtain e where e: "exponentOf (of_int \<bar>n\<bar>) = int e" "2 ^ e \<le> \<bar>n\<bar>" using exponentOf_int[of "\<bar>n\<bar>"] by auto
  define u where "u = max (int e - 52) (- 1074)"
  have "\<exists>m. of_int n / pow2 u = (of_int m :: rat)"
  proof (cases "e \<le> 52")
    case True
    then have "u \<le> 0" by (simp add: u_def)
    then have "of_int n / pow2 u = (of_int (n * 2 ^ nat (- u)) :: rat)" by (auto simp: pow2_def)
    then show ?thesis by blast
  next
    case False
    then have "(2 :: int) ^ 53 \<le> 2 ^ e" by (intro power_increasing) auto
    then have n: "\<bar>n\<bar> = 2 ^ 53" "(2 :: int) ^ e = 2 ^ 53" using e(2) assms by auto
    then have "e = 53" using power_inject_exp[of "2 :: int" e 53] by simp
    then have "pow2 u = 2" by (simp add: u_def pow2_def)
    moreover have "n = 2 * (n div 2)" using n(1) by (simp add: abs_if split: if_splits; presburger)
    ultimately have "of_int n / pow2 u = (of_int (n div 2) :: rat)"
      by (metis nonzero_mult_div_cancel_left of_int_mult of_int_numeral zero_neq_numeral)
    then show ?thesis by blast
  qed
  then obtain m where m: "of_int n / pow2 u = (of_int m :: rat)" by blast
  have "pow2 u \<noteq> 0" by (simp add: pow2_def)
  then have y: "of_int m * pow2 u = (of_int n :: rat)" using m by (simp add: field_simps)
  have "\<bar>of_int n :: rat\<bar> \<le> 2 ^ 53" using assms by (metis of_int_abs of_int_le_iff of_int_numeral of_int_power)
  also have "(2 :: rat) ^ 53 < 2 ^ 1024" by (rule power_strict_increasing) auto
  finally have "\<not> 2 ^ 1024 \<le> \<bar>of_int n :: rat\<bar>" by simp
  with False y show ?thesis
    by (simp add: f64_of_int_def f64_round_def Let_def e(1)[simplified] m u_def[symmetric])
qed (simp add: f64_of_int_def f64_round_def)

lemma f64_round_int: "\<bar>n\<bar> \<le> 2 ^ 53 \<Longrightarrow> f64_round (of_int n) = Fin (of_int n)"
  using f64_of_int_exact by (simp add: f64_of_int_def)

lemma f64_int_arith:
  "\<bar>a + b\<bar> \<le> 2 ^ 53 \<Longrightarrow> f64_add (Fin (of_int a)) (Fin (of_int b)) = Fin (of_int (a + b))"
  "\<bar>a - b\<bar> \<le> 2 ^ 53 \<Longrightarrow> f64_sub (Fin (of_int a)) (Fin (of_int b)) = Fin (of_int (a - b))"
  "f64_less (Fin (of_int a)) (Fin (of_int b)) \<longleftrightarrow> a < b"
  using f64_round_int[of "a + b"] f64_round_int[of "a - b"] by (simp_all add: f64_sub_def)


section \<open>Rounding in general\<close>

lemma pow2_powi: "pow2 e = 2 powi e"
  by (simp add: pow2_def power_int_def power_one_over)

lemma pow2_pos [simp]: "0 < pow2 e"
  by (simp add: pow2_def)

lemma pow2_nonzero [simp]: "pow2 e \<noteq> 0"
  by (simp add: pow2_def)

lemma pow2_add: "pow2 (a + b) = pow2 a * pow2 b"
  by (simp add: pow2_powi power_int_add)

lemma pow2_less_iff: "pow2 a < pow2 b \<longleftrightarrow> a < b"
  unfolding pow2_powi
  using power_int_strict_increasing[of a b "2 :: rat"] power_int_strict_increasing[of b a "2 :: rat"] by (cases a b rule: linorder_cases) auto

lemma bitlen_upper: "n < 2 ^ bitlen n"
proof (induction n rule: bitlen.induct)
  case (1 n)
  show ?case
  proof (cases "n \<le> 0")
    case False
    then have "bitlen n = Suc (bitlen (n div 2))" by (subst bitlen.simps) simp
    with 1 False show ?thesis by simp
  next
    case True
    then show ?thesis by (smt (verit) zero_less_power)
  qed
qed

text \<open>\<open>exponentOf\<close> is the exponent of a positive number.\<close>

lemma exponentOf_bounds:
  assumes "0 < x"
  shows "pow2 (exponentOf x) \<le> x \<and> x < pow2 (exponentOf x + 1)"
proof -
  obtain p q where pq: "quotient_of x = (p, q)" by (cases "quotient_of x")
  have q: "0 < q" and x: "x = of_int p / of_int q" using quotient_of_denom_pos[OF pq] quotient_of_div[OF pq] by auto
  then have p: "0 < p" using assms by (simp add: zero_less_divide_iff)
  let ?a = "bitlen p" and ?b = "bitlen q"
  have pow: "(of_int (2 ^ k) :: rat) = pow2 (int k)" for k by (simp add: pow2_def)
  have bits: "pow2 (int (bitlen n) - 1) \<le> of_int n \<and> of_int n < pow2 (int (bitlen n))" if "0 < n" for n
  proof -
    have b: "2 ^ (bitlen n - 1) \<le> n" "0 < bitlen n" using bitlen_lower[OF that] by auto
    then have "int (bitlen n) - 1 = int (bitlen n - 1)" by simp
    then show ?thesis
      unfolding pow[symmetric] of_int_less_iff using b(1) bitlen_upper[of n] pow[of "bitlen n - 1"] by (simp only: of_int_le_iff simp_thms)
  qed
  note P = conjunct1[OF bits[OF p]] conjunct2[OF bits[OF p]] and Q = conjunct1[OF bits[OF q]] conjunct2[OF bits[OF q]]
  define e where "e = int ?a - int ?b"
  have "pow2 (e - 1) * of_int q \<le> pow2 (e - 1) * pow2 (int ?b)" using Q(2) by (simp add: less_imp_le)
  also have "\<dots> = pow2 (int ?a - 1)" by (simp add: e_def flip: pow2_add)
  also have "\<dots> \<le> of_int p" by (rule P)
  finally have lo: "pow2 (e - 1) \<le> x" using q by (simp add: x pos_le_divide_eq)
  have "of_int p < pow2 (int ?a)" by (rule P)
  also have "\<dots> = pow2 (e + 1) * pow2 (int ?b - 1)" by (simp add: e_def flip: pow2_add)
  also have "\<dots> \<le> pow2 (e + 1) * of_int q" using Q(1) by simp
  finally have hi: "x < pow2 (e + 1)" using q by (simp add: x pos_divide_less_eq)
  have "exponentOf x = (if x < pow2 e then e - 1 else e)" by (simp add: exponentOf_def pq e_def Let_def)
  then show ?thesis using lo hi by simp
qed

lemma exponentOf_eq: "pow2 e \<le> x \<Longrightarrow> x < pow2 (e + 1) \<Longrightarrow> exponentOf x = e"
proof -
  assume a: "pow2 e \<le> x" "x < pow2 (e + 1)"
  then have "0 < x" using pow2_pos[of e] by linarith
  from exponentOf_bounds[OF this] have "pow2 e < pow2 (exponentOf x + 1)" "pow2 (exponentOf x) < pow2 (e + 1)" using a by linarith+
  then show ?thesis by (simp add: pow2_less_iff)
qed

text \<open>A number less than half a unit away from a representable one is rounded to it.\<close>

lemma roundHalfEven_near:
  assumes "\<bar>r - of_int n\<bar> < 1 / 2"
  shows "roundHalfEven r = n"
proof -
  have "\<lfloor>r\<rfloor> = n \<or> \<lfloor>r\<rfloor> = n - 1" using assms by linarith
  then show ?thesis using assms by (auto simp: roundHalfEven_def Let_def)
qed

lemma f64_round_near:
  assumes "pow2 e \<le> x" "x < pow2 (e + 1)" "- 1022 \<le> e" "e < 1023"
    and "\<bar>x - of_int n * pow2 (e - 52)\<bar> < pow2 (e - 53)"
  shows "f64_round x = Fin (of_int n * pow2 (e - 52))"
proof -
  let ?u = "pow2 (e - 52)"
  have x: "0 < x" using assms(1) pow2_pos[of e] by linarith
  have half: "pow2 (e - 53) = ?u / 2" using pow2_add[of "e - 53" 1] by (simp add: pow2_def[of 1])
  have "x / ?u - of_int n = (x - of_int n * ?u) / ?u" by (simp add: field_simps)
  then have "\<bar>x / ?u - of_int n\<bar> < 1 / 2"
    using assms(5) half by (simp add: abs_divide pos_divide_less_eq)
  then have r: "roundHalfEven (x / ?u) = n" by (rule roundHalfEven_near)
  have "pow2 (e + 1) + pow2 (e - 53) < pow2 (e + 1) + pow2 (e + 1)" by (simp add: pow2_less_iff)
  then have "of_int n * ?u < pow2 (e + 1) + pow2 (e + 1)" "- (pow2 (e + 1) + pow2 (e + 1)) < of_int n * ?u"
    using assms(2,5) x pow2_pos[of "e + 1"] by linarith+
  moreover have "pow2 (e + 1) + pow2 (e + 1) = pow2 (e + 2)" using pow2_add[of "e + 1" 1] by (simp add: pow2_def[of 1] add.commute)
  moreover have "pow2 (e + 2) \<le> pow2 1024" using assms(4) pow2_less_iff[of 1024 "e + 2"] by linarith
  ultimately have "\<bar>of_int n * ?u\<bar> < pow2 1024" by linarith
  then show ?thesis
    using x exponentOf_eq[OF assms(1,2)] assms(3) by (simp add: f64_round_def Let_def r pow2_def[of 1024])
qed

end
