(* ===== verification/Backoff.thy ===== *)
theory Backoff
  imports GoBase GoFloat
begin

text \<open>
  \<^verbatim>\<open>pkg/utils/backoff.go\<close>: the growing pause between retries, with the pauses of the daemon's two HTTP servers.
  The random number and the value of a conversion of a \<^verbatim>\<open>float64\<close> that does not fit an \<^verbatim>\<open>int64\<close> are
  parameters; the lock is the atomicity of each operation.
\<close>

record SimpleBackoff =
  sb_current :: duration
  sb_start :: duration
  sb_max :: duration
  jitterMultiple :: float64
  multiple :: float64

definition NewSimpleBackoff :: "duration \<Rightarrow> duration \<Rightarrow> float64 \<Rightarrow> float64 \<Rightarrow> SimpleBackoff" where
  "NewSimpleBackoff mn mx jitter mult =
     \<lparr>sb_current = mn, sb_start = mn, sb_max = mx, jitterMultiple = jitter, multiple = mult\<rparr>"

text \<open>The conversion to \<^verbatim>\<open>int64\<close> cuts the fraction off.\<close>

definition f64_to_int64 :: "(float64 \<Rightarrow> int) \<Rightarrow> float64 \<Rightarrow> int" where
  "f64_to_int64 outOfRange x =
     (case x of
        Fin r \<Rightarrow> (let n = (if r < 0 then - \<lfloor>- r\<rfloor> else \<lfloor>r\<rfloor>) in if - (2 ^ 63) \<le> n \<and> n < 2 ^ 63 then n else outOfRange x)
      | _ \<Rightarrow> outOfRange x)"

text \<open>\<^verbatim>\<open>math.Min\<close>\<close>

definition f64_min :: "float64 \<Rightarrow> float64 \<Rightarrow> float64" where
  "f64_min x y =
     (if x = Inf True \<or> y = Inf True then Inf True else if x = NaN \<or> y = NaN then NaN else if f64_less x y then x else y)"

text \<open>\<^verbatim>\<open>rand.Int63n(n)\<close> panics unless \<open>n\<close> is positive.\<close>

definition AddJitter :: "(int \<Rightarrow> int) \<Rightarrow> duration \<Rightarrow> duration \<Rightarrow> duration res" where
  "AddJitter Int63n d jitter =
     (if jitter = 0 then Val d
      else if jitter < 0 then Panic ''invalid argument to Int63n''
      else Val (wrap64 (d + Int63n jitter)))"

definition backoffDuration :: "(float64 \<Rightarrow> int) \<Rightarrow> (int \<Rightarrow> int) \<Rightarrow> (SimpleBackoff, duration) go" where
  "backoffDuration outOfRange Int63n sb =
     (let ret = sb_current sb;
          next = f64_to_int64 outOfRange
                   (f64_min (f64_of_int (sb_max sb)) (f64_mul (f64_of_int (sb_current sb)) (multiple sb))) in
      (AddJitter Int63n ret (f64_to_int64 outOfRange (f64_mul (f64_of_int ret) (jitterMultiple sb))),
       sb\<lparr>sb_current := next\<rparr>))"

definition backoffReset :: "SimpleBackoff \<Rightarrow> SimpleBackoff" where
  "backoffReset sb = sb\<lparr>sb_current := sb_start sb\<rparr>"

text \<open>The pauses between the attempts of the introspection and the metrics server to listen.\<close>

definition serverBackoff :: SimpleBackoff where
  "serverBackoff = NewSimpleBackoff second minute (f64_round (1 / 5)) (f64_round 2)"

fun pauses :: "(float64 \<Rightarrow> int) \<Rightarrow> (nat \<Rightarrow> int \<Rightarrow> int) \<Rightarrow> nat \<Rightarrow> nat \<Rightarrow> SimpleBackoff \<Rightarrow> duration res list" where
  "pauses outOfRange rnd i 0 sb = []"
| "pauses outOfRange rnd i (Suc n) sb =
     (case backoffDuration outOfRange (rnd i) sb of (d, sb') \<Rightarrow> d # pauses outOfRange rnd (Suc i) n sb')"

section \<open>The pauses of the servers\<close>

text \<open>The constant 0.2, and its exact products with the pauses.\<close>

lemma fifth: "f64_round (1 / 5) = Fin (7205759403792794 * (1 / 2 ^ 55))"
  using f64_round_near[of "- 3" "1 / 5" 7205759403792794] by (simp add: pow2_def)

lemma f64_to_int64_int: "- (2 ^ 63) \<le> n \<Longrightarrow> n < 2 ^ 63 \<Longrightarrow> f64_to_int64 oor (Fin (of_int n)) = n"
  by (simp add: f64_to_int64_def Let_def flip: of_int_minus)

lemma fifth_of:
  assumes "pow2 e \<le> of_int (k * 1000000000) * (7205759403792794 / 2 ^ 55)"
    "of_int (k * 1000000000) * (7205759403792794 / 2 ^ 55) < pow2 (e + 1)" "0 \<le> e" "e \<le> 52"
    "\<bar>of_int (k * 1000000000) * (7205759403792794 / 2 ^ 55) - of_int (k * 200000000 * 2 ^ nat (52 - e)) * pow2 (e - 52)\<bar> < pow2 (e - 53)"
    "\<bar>k * 1000000000\<bar> \<le> 2 ^ 53" "0 \<le> k" "k * 200000000 < 2 ^ 63"
  shows "f64_to_int64 oor (f64_mul (f64_of_int (k * 1000000000)) (f64_round (1 / 5))) = k * 200000000"
proof -
  have "pow2 (e - 52) * 2 ^ nat (52 - e) = 1" using assms(4) by (auto simp: pow2_def)
  then have "of_int (k * 200000000 * 2 ^ nat (52 - e)) * pow2 (e - 52) = (of_int (k * 200000000) :: rat)"
    by (simp add: mult.assoc mult.commute[of "2 ^ _"])
  moreover have "f64_mul (f64_of_int (k * 1000000000)) (f64_round (1 / 5)) =
      f64_round (of_int (k * 1000000000) * (7205759403792794 / 2 ^ 55))"
    using f64_of_int_exact[OF assms(6)] by (simp add: fifth)
  ultimately have "f64_mul (f64_of_int (k * 1000000000)) (f64_round (1 / 5)) = Fin (of_int (k * 200000000))"
    using f64_round_near[OF assms(1,2) _ _ assms(5)] assms(3,4) by simp
  then show ?thesis using f64_to_int64_int[of "k * 200000000" oor] assms(7,8) by (simp only:)
qed

definition serverSteps :: "int set" where "serverSteps = {1, 2, 4, 8, 16, 32, 60}"

lemma server_jitter:
  assumes "k \<in> serverSteps"
  shows "f64_to_int64 oor (f64_mul (f64_of_int (k * 1000000000)) (f64_round (1 / 5))) = k * 200000000"
  using assms fifth_of[of 27 1 oor] fifth_of[of 28 2 oor] fifth_of[of 29 4 oor] fifth_of[of 30 8 oor] fifth_of[of 31 16 oor]
    fifth_of[of 32 32 oor] fifth_of[of 33 60 oor]
  by (auto simp: serverSteps_def pow2_def)

lemma server_next:
  assumes "k \<in> serverSteps"
  shows "f64_to_int64 oor (f64_min (f64_of_int 60000000000) (f64_mul (f64_of_int (k * 1000000000)) (f64_round 2))) =
           min 60 (2 * k) * 1000000000"
proof -
  have i: "f64_of_int n = Fin (of_int n)" if "\<bar>n\<bar> \<le> 2 ^ 53" for n by (rule f64_of_int_exact[OF that])
  have "f64_round 2 = Fin 2" using f64_round_int[of 2] by simp
  moreover have "f64_round (of_int (2 * k * 1000000000)) = Fin (of_int (2 * k * 1000000000))"
    using assms by (intro f64_round_int) (auto simp: serverSteps_def)
  ultimately show ?thesis
    using assms i[of 60000000000] i[of "k * 1000000000"]
    by (auto simp: serverSteps_def f64_min_def f64_to_int64_def Let_def)
qed

lemma server_pause:
  assumes "k \<in> serverSteps" "\<And>j. 0 < j \<Longrightarrow> 0 \<le> rnd j \<and> rnd j < j"
    and "sb = \<lparr>sb_current = k * second, sb_start = second, sb_max = minute, jitterMultiple = f64_round (1 / 5), multiple = f64_round 2\<rparr>"
  shows "\<exists>d. backoffDuration oor rnd sb = (Val d, sb\<lparr>sb_current := min 60 (2 * k) * second\<rparr>) \<and>
    k * second \<le> d \<and> 5 * d < 6 * (k * second)"
proof -
  have j: "0 < k * 200000000" using assms(1) by (auto simp: serverSteps_def)
  have "wrap64 (k * 1000000000 + rnd (k * 200000000)) = k * 1000000000 + rnd (k * 200000000)"
    using assms(1) assms(2)[OF j] by (intro wrap64_nonneg) (auto simp: serverSteps_def)
  then show ?thesis
    using assms(2)[OF j] j server_jitter[OF assms(1), of oor] server_next[OF assms(1), of oor]
    by (simp add: backoffDuration_def assms(3) second_def minute_def AddJitter_def Let_def)
qed

text \<open>
  C34: the pauses between the attempts of the daemon's HTTP servers to listen double from one second up to one minute;
  each is extended by a random part of less than a fifth of it, exactly as documented, in floating-point arithmetic.
\<close>

theorem server_pauses_bounded:
  assumes "\<And>i j. 0 < j \<Longrightarrow> 0 \<le> rnd i j \<and> rnd i j < j" and "i < n"
  shows "\<exists>d. pauses oor rnd 0 n serverBackoff ! i = Val d \<and>
    min 60 (2 ^ i) * second \<le> d \<and> 5 * d < 6 * (min 60 (2 ^ i) * second)"
proof -
  have "\<exists>d. pauses oor rnd i0 n sb ! i = Val d \<and> min 60 (2 ^ i * k) * second \<le> d \<and> 5 * d < 6 * (min 60 (2 ^ i * k) * second)"
    if "k \<in> serverSteps" "i < n"
      "sb = \<lparr>sb_current = k * second, sb_start = second, sb_max = minute, jitterMultiple = f64_round (1 / 5), multiple = f64_round 2\<rparr>"
    for k i0 sb n
    using that
  proof (induction i arbitrary: k i0 sb n)
    case 0
    then obtain n' where n: "n = Suc n'" by (cases n) auto
    have "min 60 k = k" using 0(1) by (auto simp: serverSteps_def)
    then show ?case using server_pause[OF 0(1), where rnd = "rnd i0" and oor = oor, OF assms(1) 0(3)] by (auto simp: n)
  next
    case (Suc i)
    then obtain n' where n: "n = Suc n'" by (cases n) auto
    obtain d where d: "backoffDuration oor (rnd i0) sb = (Val d, sb\<lparr>sb_current := min 60 (2 * k) * second\<rparr>)"
      using server_pause[OF Suc.prems(1), where rnd = "rnd i0", OF assms(1) Suc.prems(3)] by blast
    have "min 60 (2 * k) \<in> serverSteps" using Suc.prems(1) by (auto simp: serverSteps_def)
    from Suc.IH[OF this, of n' "sb\<lparr>sb_current := min 60 (2 * k) * second\<rparr>" "Suc i0"]
    have "\<exists>d. pauses oor rnd (Suc i0) n' (sb\<lparr>sb_current := min 60 (2 * k) * second\<rparr>) ! i = Val d \<and>
        min 60 (2 ^ i * min 60 (2 * k)) * second \<le> d \<and> 5 * d < 6 * (min 60 (2 ^ i * min 60 (2 * k)) * second)"
      using Suc.prems by (simp add: n)
    moreover have "min 60 (2 ^ i * min 60 (2 * k)) = min 60 (2 ^ Suc i * k)"
    proof (cases "2 * k \<le> 60")
      case False
      have i: "(1 :: int) \<le> 2 ^ i" by simp
      have "60 \<le> 2 ^ i * (2 * k)" using False mult_right_mono[OF i, of "2 * k"] by linarith
      moreover have "60 \<le> 2 ^ i * (60 :: int)" using mult_right_mono[OF i, of 60] by linarith
      moreover have "2 ^ Suc i * k = 2 ^ i * (2 * k)" by simp
      ultimately show ?thesis using False by (simp only: min_def) simp
    qed simp
    ultimately show ?case by (simp add: n d)
  qed
  from this[of 1 n serverBackoff 0] assms(2) show ?thesis
    by (simp add: serverSteps_def serverBackoff_def NewSimpleBackoff_def)
qed

theorem server_pauses_bounded_witness:
  "\<exists>d. pauses (\<lambda>_. 0) (\<lambda>i j. j div 2) 0 8 serverBackoff ! 6 = Val d \<and> 60 * second \<le> d \<and> 5 * d < 6 * (60 * second)"
  using server_pauses_bounded[of "\<lambda>i j. j div 2" 6 8 "\<lambda>_. 0"] by simp

end
