(* ===== verification/Publisher.thy ===== *)
theory Publisher
  imports GoStrings
begin

text \<open>
  The batching publisher of CloudWatch metrics: \<^verbatim>\<open>pkg/publisher/publisher.go\<close>.  A data point is its
  name, its dimensions and the rest, of type \<open>'v\<close> (unit and values).  The queue is a slice: its
  elements and the capacity of the array behind it, whose unused part holds nil.  CloudWatch,
  EC2, the metadata service and the growth of a slice that \<^verbatim>\<open>append\<close> chooses are parameters; the lock is
  the atomicity of each operation; the AWS session is taken as created and log lines are left out.
\<close>

section \<open>State\<close>

definition cloudwatchMetricNamespace :: string where "cloudwatchMetricNamespace = ''Kubernetes''"
definition clusterIDDimension :: string where "clusterIDDimension = ''CLUSTER_ID''"
definition localMetricDataSize :: nat where "localMetricDataSize = 100"
definition maxDataPoints :: nat where "maxDataPoints = 20"

record 'v MetricDatum =
  md_Name :: string
  md_Dimensions :: "(string \<times> string) list"
  md_Rest :: 'v

record 'v cloudWatchPublisher =
  clusterID :: string
  cancelled :: bool
  localMetricData :: "'v MetricDatum list"
  localCap :: nat

record ('e, 'v) CloudWatchAPI =
  GetClusterTag :: "string \<Rightarrow> ('e, string) go"
  NewMetricsClient :: "('e, unit) go"
  MetadataRegion :: "('e, string) go"
  PutMetricData :: "string \<Rightarrow> 'v MetricDatum option list \<Rightarrow> ('e, unit) go"
  growslice :: "nat \<Rightarrow> nat \<Rightarrow> nat"

section \<open>Operations\<close>

definition emptyPublisher :: "string \<Rightarrow> 'v cloudWatchPublisher" where
  "emptyPublisher cid = \<lparr>clusterID = cid, cancelled = False, localMetricData = [], localCap = localMetricDataSize\<rparr>"

definition publisherNew :: "('e, 'v) CloudWatchAPI \<Rightarrow> ('e, 'v cloudWatchPublisher) go" where
  "publisherNew api =
     bindG (wrapG ''publisher: unable to obtain EC2 service client'' (NewMetricsClient api)) (\<lambda>_.
     bindG (tryG (GetClusterTag api ''CLUSTER_ID'')) (\<lambda>t1.
     let tag1 = (case t1 of Inl _ \<Rightarrow> '''' | Inr s \<Rightarrow> s) in
     bindG (if tag1 = '''' then
              bindG (tryG (GetClusterTag api ''Name'')) (\<lambda>t2.
              retG (case t2 of Inl _ \<Rightarrow> ''k8s-cluster'' | Inr s \<Rightarrow> if s = '''' then ''k8s-cluster'' else s))
            else retG tag1) (\<lambda>cid.
     bindG (wrapG ''publisher: Unable to obtain region'' (MetadataRegion api)) (\<lambda>_.
     retG (emptyPublisher cid)))))"

definition getCloudWatchMetricDatumDimensions :: "'v cloudWatchPublisher \<Rightarrow> (string \<times> string) list" where
  "getCloudWatchMetricDatumDimensions p = [(clusterIDDimension, clusterID p)]"

definition appendDatum :: "('e, 'v) CloudWatchAPI \<Rightarrow> 'v MetricDatum \<Rightarrow> 'v cloudWatchPublisher \<Rightarrow> 'v cloudWatchPublisher" where
  "appendDatum api d p =
     (let n = length (localMetricData p) + 1 in
      p\<lparr>localMetricData := localMetricData p @ [d],
        localCap := (if n \<le> localCap p then localCap p else growslice api (localCap p) n)\<rparr>)"

definition Publish :: "('e, 'v) CloudWatchAPI \<Rightarrow> 'v MetricDatum list \<Rightarrow> 'v cloudWatchPublisher \<Rightarrow> 'v cloudWatchPublisher" where
  "Publish api metricDataPoints p =
     (let dimensions = getCloudWatchMetricDatumDimensions p in
      fold (\<lambda>d. appendDatum api (d\<lparr>md_Dimensions := dimensions\<rparr>)) metricDataPoints p)"

definition send :: "('e, 'v) CloudWatchAPI \<Rightarrow> 'v MetricDatum option list \<Rightarrow> ('e, unit) go" where
  "send api input = PutMetricData api cloudwatchMetricNamespace input"

text \<open>
  \<open>arr\<close> is the array behind the slice from its first element on, \<open>n\<close> the length of the slice.
  \<^verbatim>\<open>metricData[:maxDataPoints]\<close> reaches past the length, up to the capacity.
\<close>

function push :: "('e, 'v) CloudWatchAPI \<Rightarrow> 'v MetricDatum option list \<Rightarrow> nat \<Rightarrow> ('e, unit) go" where
  "push api arr n =
     (if n = 0 then retG ()
      else if length arr < maxDataPoints then panicG ''slice bounds out of range''
      else
        bindG (ignoreG (send api (take maxDataPoints arr))) (\<lambda>_.
        let index = min maxDataPoints n in push api (drop index arr) (n - index)))"
  by auto
termination by (relation "measure (\<lambda>(_, _, n). n)") (auto simp: maxDataPoints_def)

declare push.simps [simp del]

definition pushLocal :: "('e, 'v) CloudWatchAPI \<Rightarrow> ('v cloudWatchPublisher \<times> 'e, unit) go" where
  "pushLocal api = (\<lambda>(p, e).
     let data = localMetricData p;
         arr = map Some data @ replicate (localCap p - length data) None in
     case push api arr (length data) e of
       (r, e') \<Rightarrow> (r, (p\<lparr>localMetricData := [], localCap := localMetricDataSize\<rparr>, e')))"

definition Stop :: "'v cloudWatchPublisher \<Rightarrow> 'v cloudWatchPublisher" where
  "Stop p = p\<lparr>cancelled := True\<rparr>"

text \<open>What the monitor loop's \<^verbatim>\<open>select\<close> sees, in order; other goroutines publish and stop in between.\<close>

datatype 'v pubEvent = Tick | CtxDone | Published "'v MetricDatum list"

fun monitor :: "('e, 'v) CloudWatchAPI \<Rightarrow> 'v pubEvent list \<Rightarrow> ('v cloudWatchPublisher \<times> 'e, unit) go" where
  "monitor api [] = retG ()"
| "monitor api (Tick # evs) = bindG (pushLocal api) (\<lambda>_. monitor api evs)"
| "monitor api (Published ds # evs) = bindG (modG (\<lambda>(p, e). (Publish api ds p, e))) (\<lambda>_. monitor api evs)"
| "monitor api (CtxDone # evs) = modG (\<lambda>(p, e). (Stop p, e))"

section \<open>What is sent\<close>

text \<open>The data points of a batch; the nil entries carry none.\<close>

definition points :: "'v MetricDatum option list \<Rightarrow> 'v MetricDatum list" where
  "points b = List.map_filter (\<lambda>d. d) b"

lemma points_simps [simp]:
  "points [] = []" "points (x # b) = (case x of None \<Rightarrow> points b | Some d \<Rightarrow> d # points b)"
  "points (b @ b') = points b @ points b'"
  by (simp_all add: points_def map_filter_def split: option.split)

lemma points_Some [simp]: "points (map Some ds) = ds" "points (replicate k None) = []"
  subgoal by (induction ds) simp_all
  subgoal by (induction k) simp_all
  done

lemma push_0: "push api arr 0 = retG ()"
  by (subst push.simps) simp

lemma push_step:
  assumes "n \<noteq> 0" "20 \<le> length arr" "\<And>x. fst (send api (take 20 arr) e) \<noteq> Panic x"
  shows "push api arr n e = push api (drop (min 20 n) arr) (n - min 20 n) (snd (send api (take 20 arr) e))"
proof -
  have "bindG (ignoreG (send api (take 20 arr))) f e = f () (snd (send api (take 20 arr) e))" for f :: "unit \<Rightarrow> (_, unit) go"
    using assms(3)
    by (cases "send api (take 20 arr) e"; cases "fst (send api (take 20 arr) e)")
       (simp_all add: ignoreG_def bindG_def tryG_def retG_def)
  then show ?thesis using assms(1,2) by (subst push.simps) (simp add: maxDataPoints_def Let_def)
qed

text \<open>Whether the last batch fits, and what is sent if it does not, after the first batch.\<close>

lemma fits_drop:
  fixes cap :: nat
  assumes "20 \<le> length ds" "20 \<le> cap"
  shows "(length (drop 20 ds) mod 20 = 0 \<or> 20 * (length (drop 20 ds) div 20 + 1) \<le> cap - 20) =
         (length ds mod 20 = 0 \<or> 20 * (length ds div 20 + 1) \<le> cap)"
proof -
  have "(m mod 20 = 0 \<or> 20 * (m div 20 + 1) \<le> cap - 20) =
      ((m + 20) mod 20 = 0 \<or> 20 * ((m + 20) div 20 + 1) \<le> cap)" for m :: nat
    using assms(2) div_add_self2[of 20 m] by auto
  moreover have "length ds = length (drop 20 ds) + 20" using assms(1) by simp
  ultimately show ?thesis by metis
qed

lemma whole_drop:
  assumes "20 \<le> length ds"
  shows "take (20 * (length ds div 20)) ds = take 20 ds @ take (20 * (length (drop 20 ds) div 20)) (drop 20 ds)"
proof -
  have d: "length ds = length (drop 20 ds) + 20" using assms by simp
  have "20 * (length ds div 20) = 20 + 20 * (length (drop 20 ds) div 20)"
    using div_add_self2[of 20 "length (drop 20 ds)"] by (subst d) simp
  then show ?thesis by (simp only: take_add)
qed

lemma push_run:
  assumes "\<And>b e. log (snd (send api b e)) = log e @ [b]" "\<And>b e p. fst (send api b e) \<noteq> Panic p"
    and "length ds \<le> cap"
  shows "\<exists>e' bs. push api (map Some ds @ replicate (cap - length ds) None) (length ds) e =
           (if length ds mod 20 = 0 \<or> 20 * (length ds div 20 + 1) \<le> cap
            then Val () else Panic ''slice bounds out of range'', e') \<and>
           log e' = log e @ bs \<and> (\<forall>b \<in> set bs. length b = 20) \<and>
           concat (map points bs) =
             (if length ds mod 20 = 0 \<or> 20 * (length ds div 20 + 1) \<le> cap then ds else take (20 * (length ds div 20)) ds)"
  using assms(3)
proof (induction "length ds" arbitrary: ds cap e rule: less_induct)
  case less
  let ?arr = "map Some ds @ replicate (cap - length ds) None"
  have len: "length ?arr = cap" using less.prems by simp
  show ?case
  proof (cases "ds = [] \<or> cap < 20")
    case True
    then show ?thesis
      using less.prems by (subst push.simps) (auto simp: retG_def panicG_def maxDataPoints_def intro!: exI[of _ "[]"])
  next
    case False
    then have ne: "length ds \<noteq> 0" "20 \<le> cap" by auto
    define b e1 where "b = take 20 ?arr" and "e1 = snd (send api b e)"
    have step: "push api ?arr (length ds) e = push api (drop (min 20 (length ds)) ?arr) (length ds - min 20 (length ds)) e1"
      unfolding e1_def b_def using push_step[OF ne(1) _ assms(2), of ?arr] ne(2) by (simp only: len)
    have b: "length b = 20" "points b = take 20 ds" "log e1 = log e @ [b]"
      using less.prems ne(2) by (auto simp: b_def e1_def assms(1) take_map take_replicate)
    show ?thesis
    proof (cases "length ds < 20")
      case True
      have "push api ?arr (length ds) e = (Val (), e1)"
        unfolding step using True by (simp add: push_0 retG_def)
      then show ?thesis using ne True b by (intro exI[of _ e1] exI[of _ "[b]"]) auto
    next
      case big: False
      let ?ds = "drop 20 ds"
      have step: "push api ?arr (length ds) e = push api (map Some ?ds @ replicate (cap - 20 - length ?ds) None) (length ?ds) e1"
        using step big less.prems by (simp add: drop_map)
      have "length ?ds < length ds" "length ?ds \<le> cap - 20" using big less.prems by auto
      from less.hyps[OF this, of e1] obtain e' bs where IH:
        "push api ?arr (length ds) e = (if length ds mod 20 = 0 \<or> 20 * (length ds div 20 + 1) \<le> cap
            then Val () else Panic ''slice bounds out of range'', e')"
        "log e' = log e1 @ bs" "\<forall>b \<in> set bs. length b = 20"
        "concat (map points bs) = (if length ds mod 20 = 0 \<or> 20 * (length ds div 20 + 1) \<le> cap then ?ds
           else take (20 * (length ?ds div 20)) ?ds)"
        unfolding step using fits_drop[of ds cap] big ne(2) by auto
      with b whole_drop[of ds] big show ?thesis by (intro exI[of _ e'] exI[of _ "b # bs"]) auto
    qed
  qed
qed


text \<open>
  C30: a tick sends every queued data point exactly once and in order, in requests of 20 entries, and
  empties the queue, whether or not CloudWatch accepts the requests: provided the queue's length is a
  multiple of 20 or its capacity reaches the next multiple.  Otherwise the last slice expression
  panics, after all full batches were sent, and the remaining points are lost.
\<close>

theorem pushLocal_sends_queue:
  assumes "\<And>b e. log (snd (PutMetricData api ''Kubernetes'' b e)) = log e @ [b]"
    and "\<And>b e x. fst (PutMetricData api ''Kubernetes'' b e) \<noteq> Panic x"
    and "data = localMetricData p" "length data \<le> localCap p"
    and "ok = (length data mod 20 = 0 \<or> 20 * (length data div 20 + 1) \<le> localCap p)"
  shows "\<exists>e' bs. pushLocal api (p, e) =
           (if ok then Val () else Panic ''slice bounds out of range'',
            (p\<lparr>localMetricData := [], localCap := 100\<rparr>, e')) \<and>
           log e' = log e @ bs \<and> (\<forall>b \<in> set bs. length b = 20) \<and>
           concat (map points bs) = (if ok then data else take (20 * (length data div 20)) data)"
proof -
  have s: "send api b e = PutMetricData api ''Kubernetes'' b e" for b e
    by (simp add: send_def cloudwatchMetricNamespace_def)
  from push_run[of log api data "localCap p" e, unfolded s, OF assms(1,2,4)]
  show ?thesis unfolding assms(5)
    by (auto simp: pushLocal_def Let_def assms(3) localMetricDataSize_def)
qed

text \<open>A service that records the requests; a slice that has outgrown its array gets 224 entries.\<close>

definition demo_cw :: "(nat MetricDatum option list list, nat) CloudWatchAPI" where
  "demo_cw = \<lparr>GetClusterTag = (\<lambda>_. retG ''c''), NewMetricsClient = retG (), MetadataRegion = retG ''r'',
     PutMetricData = (\<lambda>_ b e. (Val (), e @ [b])), growslice = (\<lambda>_ _. 224)\<rparr>"

definition demo_points :: "nat \<Rightarrow> nat MetricDatum list" where
  "demo_points n = map (\<lambda>i. \<lparr>md_Name = ''m'', md_Dimensions = [(''CLUSTER_ID'', ''c'')], md_Rest = i\<rparr>) [0..<n]"

theorem pushLocal_sends_queue_witness:
  "fst (pushLocal demo_cw (\<lparr>clusterID = ''c'', cancelled = False, localMetricData = demo_points 25, localCap = 100\<rparr>, [])) = Val () \<and>
   fst (pushLocal demo_cw (\<lparr>clusterID = ''c'', cancelled = False, localMetricData = demo_points 223, localCap = 224\<rparr>, [])) =
     Panic ''slice bounds out of range''"
proof -
  have l: "id (snd (PutMetricData demo_cw ''Kubernetes'' b e)) = id e @ [b]"
    "fst (PutMetricData demo_cw ''Kubernetes'' b e) \<noteq> Panic x" for b e x by (simp_all add: demo_cw_def)
  have n: "length (demo_points k) = k" for k by (simp add: demo_points_def)
  show ?thesis
    using pushLocal_sends_queue[where log = id and api = demo_cw and p = "\<lparr>clusterID = ''c'', cancelled = False,
        localMetricData = demo_points 25, localCap = 100\<rparr>" and e = "[]", OF l refl _ refl]
      pushLocal_sends_queue[where log = id and api = demo_cw and p = "\<lparr>clusterID = ''c'', cancelled = False,
        localMetricData = demo_points 223, localCap = 224\<rparr>" and e = "[]", OF l refl _ refl]
    by (auto simp: n)
qed

text \<open>Publishing keeps the capacity above the length, and within 100 points keeps the first array.\<close>

lemma Publish_queue:
  assumes "length (localMetricData p) \<le> localCap p" "\<And>c n. n \<le> growslice api c n"
  shows "localMetricData (Publish api ds p) =
           localMetricData p @ map (\<lambda>d. d\<lparr>md_Dimensions := [(''CLUSTER_ID'', clusterID p)]\<rparr>) ds \<and>
         length (localMetricData (Publish api ds p)) \<le> localCap (Publish api ds p) \<and>
         (length (localMetricData p) + length ds \<le> localCap p \<longrightarrow> localCap (Publish api ds p) = localCap p)"
proof -
  let ?f = "\<lambda>d. appendDatum api (d\<lparr>md_Dimensions := [(''CLUSTER_ID'', clusterID p)]\<rparr>)"
  have "clusterID q = clusterID p \<Longrightarrow> length (localMetricData q) \<le> localCap q \<Longrightarrow>
     localMetricData (fold ?f ds q) = localMetricData q @ map (\<lambda>d. d\<lparr>md_Dimensions := [(''CLUSTER_ID'', clusterID p)]\<rparr>) ds \<and>
     length (localMetricData (fold ?f ds q)) \<le> localCap (fold ?f ds q) \<and>
     (length (localMetricData q) + length ds \<le> localCap q \<longrightarrow> localCap (fold ?f ds q) = localCap q)" for q
  proof (induction ds arbitrary: q)
    case (Cons d ds)
    have q: "clusterID (?f d q) = clusterID p" "length (localMetricData (?f d q)) \<le> localCap (?f d q)"
      using Cons.prems assms(2) by (simp_all add: appendDatum_def Let_def)
    from Cons.IH[OF q] show ?case by (auto simp: appendDatum_def Let_def)
  qed simp
  from this[OF refl assms(1)] show ?thesis
    unfolding Publish_def getCloudWatchMetricDatumDimensions_def clusterIDDimension_def Let_def .
qed

end
