(* ===== verification/Metrics.thy ===== *)
theory Metrics
  imports Publisher Discovery GoFloat
begin

text \<open>
  The metrics helper: \<^verbatim>\<open>cni-metrics-helper/metrics/metrics.go\<close> and \<^verbatim>\<open>cni_metrics.go\<close>.  Every 30 seconds it
  grabs the Prometheus metrics of every CNI pod the controller of \<open>Discovery\<close> lists, aggregates the
  interesting ones and hands the results to the publisher of \<open>Publisher\<close>.  The aggregates live in the
  global map \<^verbatim>\<open>InterestingCNIMetrics\<close>, whose actions each own their \<^verbatim>\<open>dataPoints\<close>; histogram buckets are pointers
  that two slices may share, so they live in an explicit heap.  Grabbing the text of a pod and parsing it are
  parameters.  A panic ends the process, so what it leaves behind is not kept.  Log lines are left out.
\<close>

section \<open>Data\<close>

datatype MetricType = COUNTER | GAUGE | SUMMARY | UNTYPED | HISTOGRAM

text \<open>A Prometheus sample, as its nil-safe getters show it; buckets are upper bound and cumulative count.\<close>

record dtoMetric =
  m_Gauge :: float64
  m_Counter :: float64
  m_Quantiles :: "(float64 \<times> float64) list"
  m_Buckets :: "(float64 \<times> int) list"

record MetricFamily =
  mf_Name :: string
  mf_Type :: MetricType
  mf_Metric :: "dtoMetric list"

record dataPoints =
  lastSingleDataPoint :: float64
  curSingleDataPoint :: float64

record bucketPoint =
  CumulativeCount :: float64
  UpperBound :: float64

type_synonym bucketHeap = "bucketPoint list"

text \<open>Slices of pointers into the heap; a nil \<^verbatim>\<open>lastBucket\<close> is \<open>None\<close>.\<close>

record bucketPoints =
  lastBucket :: "nat list option"
  curBucket :: "nat list"

record metricsAction =
  cwMetricName :: string
  matchFunc :: "dtoMetric \<Rightarrow> bool"
  actionFunc :: "float64 \<Rightarrow> float64 \<Rightarrow> float64"
  data :: "dataPoints option"
  bucket :: "bucketPoints option"
  logToFile :: bool

type_synonym metricsConvert = "metricsAction list"

datatype datumValue =
    CountValue float64
  | StatisticSet float64 float64 float64 float64   \<comment> \<open>maximum, minimum, sample count, sum\<close>

definition matchAny :: "dtoMetric \<Rightarrow> bool" where
  "matchAny metric = True"

definition metricsAdd :: "float64 \<Rightarrow> float64 \<Rightarrow> float64" where
  "metricsAdd aggregatedValue sampleValue = f64_add aggregatedValue sampleValue"

definition metricsMax :: "float64 \<Rightarrow> float64 \<Rightarrow> float64" where
  "metricsMax aggregatedValue sampleValue = (if f64_less aggregatedValue sampleValue then sampleValue else aggregatedValue)"

definition nilDeref :: "('w, 'a) go" where
  "nilDeref = panicG ''invalid memory address or nil pointer dereference''"

fun mapG :: "('b \<Rightarrow> ('w, 'c) go) \<Rightarrow> 'b list \<Rightarrow> ('w, 'c list) go" where
  "mapG f [] = retG []"
| "mapG f (x # xs) = bindG (f x) (\<lambda>y. bindG (mapG f xs) (\<lambda>ys. retG (y # ys)))"

section \<open>One sample\<close>

text \<open>\<^verbatim>\<open>act.actionFunc(&act.data.curSingleDataPoint, v)\<close>\<close>

definition actOnData :: "float64 \<Rightarrow> metricsAction \<Rightarrow> ('w, metricsAction) go" where
  "actOnData v act =
     (case data act of
        None \<Rightarrow> nilDeref
      | Some d \<Rightarrow> retG (act\<lparr>data := Some (d\<lparr>curSingleDataPoint := actionFunc act (curSingleDataPoint d) v\<rparr>)\<rparr>))"

definition processGauge :: "dtoMetric \<Rightarrow> metricsAction \<Rightarrow> ('w, metricsAction) go" where
  "processGauge metric act = actOnData (m_Gauge metric) act"

definition processCounter :: "dtoMetric \<Rightarrow> metricsAction \<Rightarrow> ('w, metricsAction) go" where
  "processCounter metric act = actOnData (m_Counter metric) act"

definition processPercentile :: "dtoMetric \<Rightarrow> metricsAction \<Rightarrow> ('w, metricsAction) go" where
  "processPercentile metric act =
     (let p99 = fold (\<lambda>(q, v) p99. if f64_eq q (f64_round (99 / 100)) then v else p99) (m_Quantiles metric) (Fin 0) in
      actOnData p99 act)"

definition heapSet :: "nat \<Rightarrow> float64 \<Rightarrow> bucketHeap \<Rightarrow> bucketHeap" where
  "heapSet a v h = h[a := (h ! a)\<lparr>CumulativeCount := v\<rparr>]"

fun histogram_loop :: "metricsAction \<Rightarrow> (float64 \<times> int) list \<Rightarrow> (bucketHeap, metricsAction) go" where
  "histogram_loop act [] = retG act"
| "histogram_loop act ((upperBound, count) # rest) =
     (case bucket act of
        None \<Rightarrow> nilDeref
      | Some b \<Rightarrow>
          bindG (getG (\<lambda>h. find (\<lambda>a. f64_eq upperBound (UpperBound (h ! a))) (curBucket b))) (\<lambda>found.
          case found of
            Some a \<Rightarrow>
              bindG (modG (\<lambda>h. heapSet a (actionFunc act (CumulativeCount (h ! a)) (f64_of_int count)) h)) (\<lambda>_.
              histogram_loop act rest)
          | None \<Rightarrow>
              bindG (getG length) (\<lambda>a.
              bindG (modG (\<lambda>h. h @ [\<lparr>CumulativeCount = f64_of_int count, UpperBound = upperBound\<rparr>])) (\<lambda>_.
              histogram_loop (act\<lparr>bucket := Some (b\<lparr>curBucket := curBucket b @ [a]\<rparr>)\<rparr>) rest))))"

definition processHistogram :: "dtoMetric \<Rightarrow> metricsAction \<Rightarrow> (bucketHeap, metricsAction) go" where
  "processHistogram metric act = histogram_loop act (m_Buckets metric)"

section \<open>After the samples of one target\<close>

fun counter_loop :: "metricsConvert \<Rightarrow> bool \<times> bool \<times> bool \<Rightarrow> ('w, (bool \<times> bool \<times> bool) \<times> metricsConvert) go" where
  "counter_loop [] flags = retG (flags, [])"
| "counter_loop (action # rest) (resetDetected, noPreviousDataPoint, noCurrentDataPoint) =
     (case data action of
        None \<Rightarrow> nilDeref
      | Some d \<Rightarrow>
          let currentTotal = curSingleDataPoint d;
              less = f64_less (curSingleDataPoint d) (lastSingleDataPoint d);
              cur = (if less then curSingleDataPoint d else f64_sub (curSingleDataPoint d) (lastSingleDataPoint d));
              flags = (resetDetected \<or> less,
                       noPreviousDataPoint \<and> f64_eq (lastSingleDataPoint d) (Fin 0),
                       noCurrentDataPoint \<and> f64_eq cur (Fin 0)) in
          bindG (counter_loop rest flags) (\<lambda>(flags, rest).
          retG (flags, action\<lparr>data := Some \<lparr>lastSingleDataPoint = currentTotal, curSingleDataPoint = cur\<rparr>\<rparr> # rest)))"

definition postProcessingCounter :: "metricsConvert \<Rightarrow> ('w, bool \<times> metricsConvert) go" where
  "postProcessingCounter actions =
     bindG (counter_loop actions (False, True, True)) (\<lambda>((resetDetected, noPreviousDataPoint, noCurrentDataPoint), actions).
     retG (resetDetected \<or> (noPreviousDataPoint \<and> \<not> noCurrentDataPoint), actions))"

text \<open>The delta of bucket \<open>j\<close> against the last poll; the result says whether a reset was detected.\<close>

definition bucketDelta :: "nat list \<Rightarrow> nat list \<Rightarrow> nat \<Rightarrow> (bucketHeap, bool) go" where
  "bucketDelta cur lst j =
     (if length lst \<le> j then panicG ''index out of range''
      else
        bindG (getG (\<lambda>h. (CumulativeCount (h ! (cur ! j)), CumulativeCount (h ! (lst ! j))))) (\<lambda>(currentTotal, old).
        let ge = f64_ge currentTotal old in
        bindG (if ge then modG (heapSet (cur ! j) (f64_sub currentTotal old)) else retG ()) (\<lambda>_.
        bindG (modG (heapSet (lst ! j) currentTotal)) (\<lambda>_.
        retG (\<not> ge)))))"

text \<open>The loop of \<^verbatim>\<open>numOfBuckets - i\<close> from the last bucket down to bucket 1.\<close>

fun bucket_loop :: "nat list \<Rightarrow> nat list option \<Rightarrow> nat \<Rightarrow> (bucketHeap, bool) go" where
  "bucket_loop cur lst 0 = retG False"
| "bucket_loop cur lst (Suc j) =
     bindG (modG (\<lambda>h. heapSet (cur ! Suc j)
        (f64_sub (CumulativeCount (h ! (cur ! Suc j))) (CumulativeCount (h ! (cur ! j)))) h)) (\<lambda>_.
     bindG (case lst of None \<Rightarrow> retG False | Some l \<Rightarrow> bucketDelta cur l (Suc j)) (\<lambda>reset.
     bindG (bucket_loop cur lst j) (\<lambda>resets. retG (reset \<or> resets))))"

fun histogramPost_loop :: "metricsConvert \<Rightarrow> bool \<times> bool \<Rightarrow> (bucketHeap, (bool \<times> bool) \<times> metricsConvert) go" where
  "histogramPost_loop [] flags = retG (flags, [])"
| "histogramPost_loop (action # rest) (resetDetected, noLastBucket) =
     (case bucket action of
        None \<Rightarrow> nilDeref
      | Some b \<Rightarrow>
          if curBucket b = [] then
            bindG (histogramPost_loop rest (resetDetected, noLastBucket)) (\<lambda>(flags, rest). retG (flags, action # rest))
          else
            bindG (bucket_loop (curBucket b) (lastBucket b) (length (curBucket b) - 1)) (\<lambda>resets.
            bindG (case lastBucket b of None \<Rightarrow> retG False | Some l \<Rightarrow> bucketDelta (curBucket b) l 0) (\<lambda>reset.
            let (b', noLast) = (case lastBucket b of
                                  None \<Rightarrow> (b\<lparr>lastBucket := Some (curBucket b)\<rparr>, noLastBucket)
                                | Some _ \<Rightarrow> (b, False)) in
            bindG (histogramPost_loop rest (resetDetected \<or> resets \<or> reset, noLast)) (\<lambda>(flags, rest).
            retG (flags, action\<lparr>bucket := Some b'\<rparr> # rest)))))"

definition postProcessingHistogram :: "metricsConvert \<Rightarrow> (bucketHeap, bool \<times> metricsConvert) go" where
  "postProcessingHistogram actions =
     bindG (histogramPost_loop actions (False, True)) (\<lambda>((resetDetected, noLastBucket), actions).
     retG (resetDetected \<or> noLastBucket, actions))"

definition processSample :: "MetricType \<Rightarrow> dtoMetric \<Rightarrow> metricsAction \<Rightarrow> (bucketHeap, metricsAction) go" where
  "processSample mType metric act =
     (if matchFunc act metric then
        (case mType of
           GAUGE \<Rightarrow> processGauge metric act
         | HISTOGRAM \<Rightarrow> processHistogram metric act
         | COUNTER \<Rightarrow> processCounter metric act
         | SUMMARY \<Rightarrow> processPercentile metric act
         | UNTYPED \<Rightarrow> retG act)
      else retG act)"

fun samples_loop :: "MetricType \<Rightarrow> dtoMetric list \<Rightarrow> metricsConvert \<Rightarrow> (bucketHeap, metricsConvert) go" where
  "samples_loop mType [] actions = retG actions"
| "samples_loop mType (metric # rest) actions =
     bindG (mapG (processSample mType metric) actions) (samples_loop mType rest)"

definition processMetric :: "MetricFamily \<Rightarrow> metricsConvert \<Rightarrow> (bucketHeap, bool \<times> metricsConvert) go" where
  "processMetric family convert =
     bindG (samples_loop (mf_Type family) (mf_Metric family) convert) (\<lambda>actions.
     case mf_Type family of
       COUNTER \<Rightarrow> postProcessingCounter actions
     | HISTOGRAM \<Rightarrow> postProcessingHistogram actions
     | _ \<Rightarrow> retG (False, actions))"

section \<open>The helper's state\<close>

type_synonym families = "(string, MetricFamily) gomap"

record 'e helper =
  interesting :: "(string, metricsConvert) gomap"
  heap :: bucketHeap
  cwPublisher :: "datumValue cloudWatchPublisher"
  discoveryController :: discController
  submitCW :: bool
  henv :: 'e

record 'e MetricsAPI =
  getMetricsFromPod :: "string \<Rightarrow> string \<Rightarrow> int \<Rightarrow> ('e, string) go"   \<comment> \<open>pod, namespace, port\<close>
  TextToMetricFamilies :: "string \<Rightarrow> families res"
  cloudwatch :: "('e, datumValue) CloudWatchAPI"

definition metricsPort :: int where "metricsPort = 61678"

definition grabMetricsFromTarget :: "'e MetricsAPI \<Rightarrow> string \<Rightarrow> ('e helper, string) go" where
  "grabMetricsFromTarget api cniPod =
     zoomG henv (\<lambda>e t. t\<lparr>henv := e\<rparr>) (getMetricsFromPod api cniPod NamespaceSystem metricsPort)"

definition getTargetList :: "'e helper \<Rightarrow> string list" where
  "getTargetList t = GetCNIPods (discoveryController t)"

definition cwPublish :: "'e MetricsAPI \<Rightarrow> datumValue MetricDatum \<Rightarrow> ('e helper, unit) go" where
  "cwPublish api d = modG (\<lambda>t. t\<lparr>cwPublisher := Publish (cloudwatch api) [d] (cwPublisher t)\<rparr>)"

definition datum :: "string \<Rightarrow> datumValue \<Rightarrow> datumValue MetricDatum" where
  "datum name v = \<lparr>md_Name = name, md_Dimensions = [], md_Rest = v\<rparr>"

section \<open>Publishing\<close>

fun produceHistogram_loop :: "'e MetricsAPI \<Rightarrow> metricsAction \<Rightarrow> float64 \<Rightarrow> bucketPoint list \<Rightarrow> ('e helper, unit) go" where
  "produceHistogram_loop api act prevUpperBound [] = retG ()"
| "produceHistogram_loop api act prevUpperBound (b # rest) =
     (let mid0 = f64_add (f64_half (f64_sub (UpperBound b) prevUpperBound)) prevUpperBound;
          mid = (if f64_eq mid0 (UpperBound b) then f64_add prevUpperBound (f64_half prevUpperBound) else mid0);
          count = CumulativeCount b in
      bindG (if \<not> f64_eq count (Fin 0)
             then cwPublish api (datum (cwMetricName act) (StatisticSet mid mid count (f64_mul mid count)))
             else retG ()) (\<lambda>_.
      produceHistogram_loop api act (UpperBound b) rest))"

definition produceHistogram :: "'e MetricsAPI \<Rightarrow> metricsAction \<Rightarrow> ('e helper, unit) go" where
  "produceHistogram api act =
     (case bucket act of
        None \<Rightarrow> nilDeref
      | Some b \<Rightarrow> bindG (getG (\<lambda>t. map (\<lambda>a. heap t ! a) (curBucket b))) (produceHistogram_loop api act (Fin 0)))"

definition filterMetrics :: "families \<Rightarrow> (string, metricsConvert) gomap \<Rightarrow> families" where
  "filterMetrics originalMetrics interestingMetrics =
     List.map_filter (\<lambda>metric. map_option (Pair metric) (map_of originalMetrics metric)) (mkeys interestingMetrics)"

definition produceAction :: "'e MetricsAPI \<Rightarrow> MetricType \<Rightarrow> metricsAction \<Rightarrow> ('e helper, unit) go" where
  "produceAction api mType action =
     bindG (getG submitCW) (\<lambda>submit.
     let single = (case data action of
                     None \<Rightarrow> nilDeref
                   | Some d \<Rightarrow>
                       if submit then cwPublish api (datum (cwMetricName action) (CountValue (curSingleDataPoint d)))
                       else retG ()) in
     case mType of
       COUNTER \<Rightarrow> single
     | GAUGE \<Rightarrow> single
     | SUMMARY \<Rightarrow> single
     | HISTOGRAM \<Rightarrow> if submit then produceHistogram api action else retG ()
     | UNTYPED \<Rightarrow> retG ())"

definition lookupConvert :: "(string, metricsConvert) gomap \<Rightarrow> string \<Rightarrow> metricsConvert" where
  "lookupConvert m k = (case map_of m k of None \<Rightarrow> [] | Some c \<Rightarrow> c)"

definition produceCloudWatchMetrics ::
  "'e MetricsAPI \<Rightarrow> families \<Rightarrow> (string, metricsConvert) gomap \<Rightarrow> ('e helper, unit) go" where
  "produceCloudWatchMetrics api fams convertDef =
     forG fams (\<lambda>(key, family). forG (lookupConvert convertDef key) (produceAction api (mf_Type family)))"

section \<open>A poll\<close>

definition resetAction :: "metricsAction \<Rightarrow> metricsAction" where
  "resetAction act =
     act\<lparr>data := map_option (\<lambda>d. d\<lparr>curSingleDataPoint := Fin 0\<rparr>) (data act),
         bucket := map_option (\<lambda>b. b\<lparr>curBucket := []\<rparr>) (bucket act)\<rparr>"

definition resetMetrics :: "(string, metricsConvert) gomap \<Rightarrow> (string, metricsConvert) gomap" where
  "resetMetrics m = map (\<lambda>(k, convert). (k, map resetAction convert)) m"

text \<open>\<^verbatim>\<open>processMetric\<close> on the global map: the actions' pointers are written through.\<close>

definition processFamily :: "MetricFamily \<Rightarrow> ('e helper, bool) go" where
  "processFamily family =
     bindG (getG (\<lambda>t. lookupConvert (interesting t) (mf_Name family))) (\<lambda>convert.
     bindG (zoomG heap (\<lambda>h t. t\<lparr>heap := h\<rparr>) (processMetric family convert)) (\<lambda>(curReset, convert').
     bindG (modG (\<lambda>t. t\<lparr>interesting := AList.map_entry (mf_Name family) (\<lambda>_. convert') (interesting t)\<rparr>)) (\<lambda>_.
     retG curReset)))"

fun families_loop :: "families \<Rightarrow> bool \<Rightarrow> ('e helper, bool) go" where
  "families_loop [] reset = retG reset"
| "families_loop ((k, family) # rest) reset =
     bindG (processFamily family) (\<lambda>curReset. families_loop rest (reset \<or> curReset))"

fun target_loop :: "'e MetricsAPI \<Rightarrow> string list \<Rightarrow> families \<Rightarrow> bool \<Rightarrow> ('e helper, families \<times> bool) go" where
  "target_loop api [] fams reset = retG (fams, reset)"
| "target_loop api (target # rest) fams reset =
     bindG (tryG (grabMetricsFromTarget api target)) (\<lambda>r.
     case r of
       Inl _ \<Rightarrow> target_loop api rest fams reset
     | Inr rawOutput \<Rightarrow>
         bindG (resG (TextToMetricFamilies api rawOutput)) (\<lambda>origFamilies.
         bindG (getG (\<lambda>t. filterMetrics origFamilies (interesting t))) (\<lambda>fams'.
         bindG (families_loop fams' reset) (\<lambda>reset'.
         target_loop api rest fams' reset'))))"

definition metricsListGrabAggregateConvert :: "'e MetricsAPI \<Rightarrow> ('e helper, families \<times> bool) go" where
  "metricsListGrabAggregateConvert api =
     bindG (modG (\<lambda>t. t\<lparr>interesting := resetMetrics (interesting t)\<rparr>)) (\<lambda>_.
     bindG (getG getTargetList) (\<lambda>targetList.
     bindG (target_loop api targetList [] False) (\<lambda>(fams, resetDetected).
     retG (fams, if 1 < length targetList then False else resetDetected))))"

text \<open>A failed poll returns no families, so nothing is published; a detected reset is only logged.\<close>

definition Handler :: "'e MetricsAPI \<Rightarrow> ('e helper, unit) go" where
  "Handler api =
     bindG (tryG (metricsListGrabAggregateConvert api)) (\<lambda>r.
     let fams = (case r of Inl _ \<Rightarrow> [] | Inr (fams, _) \<Rightarrow> fams) in
     bindG (getG interesting) (\<lambda>convertDef.
     produceCloudWatchMetrics api fams convertDef))"

section \<open>The CNI's metrics\<close>

definition cniAction :: "string \<Rightarrow> (float64 \<Rightarrow> float64 \<Rightarrow> float64) \<Rightarrow> bool \<Rightarrow> metricsConvert" where
  "cniAction name act lg =
     [\<lparr>cwMetricName = name, matchFunc = matchAny, actionFunc = act,
       data = Some \<lparr>lastSingleDataPoint = Fin 0, curSingleDataPoint = Fin 0\<rparr>, bucket = None, logToFile = lg\<rparr>]"

definition InterestingCNIMetrics :: "(string, metricsConvert) gomap" where
  "InterestingCNIMetrics =
     [(''awscni_assigned_ip_addresses'', cniAction ''assignIPAddresses'' metricsAdd False),
      (''awscni_total_ip_addresses'', cniAction ''totalIPAddresses'' metricsAdd False),
      (''awscni_eni_allocated'', cniAction ''eniAllocated'' metricsAdd False),
      (''awscni_eni_max'', cniAction ''eniMaxAvailable'' metricsAdd False),
      (''awscni_ip_max'', cniAction ''maxIPAddresses'' metricsAdd False),
      (''awscni_aws_api_latency_ms'', cniAction ''awsAPILatency'' metricsMax True),
      (''awscni_aws_api_error_count'', cniAction ''awsAPIErr'' metricsAdd True),
      (''awscni_aws_utils_error_count'', cniAction ''awsUtilErr'' metricsAdd True),
      (''awscni_ipamd_error_count'', cniAction ''ipamdErr'' metricsAdd True),
      (''awscni_ipamd_action_inprogress'', cniAction ''ipamdActionInProgress'' metricsAdd True),
      (''awscni_reconcile_count'', cniAction ''reconcileCount'' metricsAdd True),
      (''awscni_add_ip_req_count'', cniAction ''addReqCount'' metricsAdd True),
      (''awscni_del_ip_req_count'', cniAction ''delReqCount'' metricsAdd True)]"

definition CNIMetricsNew :: "datumValue cloudWatchPublisher \<Rightarrow> discController \<Rightarrow> bool \<Rightarrow> 'e \<Rightarrow> 'e helper" where
  "CNIMetricsNew cw d submit e =
     \<lparr>interesting = InterestingCNIMetrics, heap = [], cwPublisher = cw, discoveryController = d, submitCW = submit, henv = e\<rparr>"

text \<open>\<^verbatim>\<open>USE_CLOUDWATCH\<close> overrides the flag in \<^verbatim>\<open>main\<close>.\<close>

definition submitOption :: "bool \<Rightarrow> string option \<Rightarrow> bool" where
  "submitOption flag cwENV =
     (case cwENV of
        None \<Rightarrow> flag
      | Some v \<Rightarrow> if v = ''yes'' \<or> v = ''true'' then True else if v = ''no'' \<or> v = ''false'' then False else flag)"

text \<open>The loop of \<^verbatim>\<open>main\<close>, one poll per tick; what the targets answer may change from poll to poll.\<close>

definition metricLoop :: "'e MetricsAPI list \<Rightarrow> ('e helper, unit) go" where
  "metricLoop apis = forG apis Handler"

end
