(* ===== verification/MetricsProps.thy ===== *)
theory MetricsProps
  imports Metrics
begin

text \<open>
  What the metrics helper of \<open>Metrics\<close> publishes.  The samples of a target go through the actions one family at a
  time (\<open>stepActs\<close>), a poll folds them over the targets that answered; gauges come out as sums, the counter
  of a single node as its increments, and the counters of several nodes as neither.
\<close>

section \<open>One target\<close>

text \<open>Actions that differ in their data only; every action has data.\<close>

definition sameShape :: "metricsConvert \<Rightarrow> metricsConvert \<Rightarrow> bool" where
  "sameShape acts acts' \<longleftrightarrow> list_all2 (\<lambda>a a'. data a \<noteq> None \<and> (\<exists>d. a' = a\<lparr>data := Some d\<rparr>)) acts acts'"

definition hasData :: "metricsConvert \<Rightarrow> bool" where
  "hasData acts \<longleftrightarrow> (\<forall>a \<in> set acts. data a \<noteq> None)"

lemma data_eta: "data a = Some d \<Longrightarrow> a\<lparr>data := Some d\<rparr> = a"
  by (cases a) auto

lemma sameShape_refl: "hasData acts \<Longrightarrow> sameShape acts acts"
  unfolding sameShape_def hasData_def by (auto intro!: list.rel_refl_strong dest: data_eta[symmetric])

lemma sameShape_trans: "sameShape a b \<Longrightarrow> sameShape b c \<Longrightarrow> sameShape a c"
  unfolding sameShape_def
  by (rule list_all2_trans[where ?P2.0 = "\<lambda>a a'. data a \<noteq> None \<and> (\<exists>d. a' = a\<lparr>data := Some d\<rparr>)"]) auto

lemma sameShape_hasData: "sameShape acts acts' \<Longrightarrow> hasData acts'"
  unfolding sameShape_def hasData_def by (induction rule: list_all2_induct) auto

lemma sameShape_Cons: "sameShape (a # acts) (b # acts') \<longleftrightarrow>
    data a \<noteq> None \<and> (\<exists>d. b = a\<lparr>data := Some d\<rparr>) \<and> sameShape acts acts'"
  by (simp add: sameShape_def)

lemma processSample_plain:
  assumes "T \<noteq> HISTOGRAM" "data act = Some d"
  shows "\<exists>d'. \<forall>h. processSample T m act h = (Val (act\<lparr>data := Some d'\<rparr>), h)"
proof (cases "matchFunc act m \<and> T \<noteq> UNTYPED")
  case True
  then have "\<exists>v. \<forall>h. processSample T m act h = actOnData v act h"
    using assms(1) by (cases T) (auto simp: processSample_def processGauge_def processCounter_def processPercentile_def Let_def)
  then show ?thesis by (fastforce simp: actOnData_def assms(2) retG_def)
next
  case False
  then have "processSample T m act h = (Val (act\<lparr>data := Some d\<rparr>), h)" for h
    using assms by (cases T) (auto simp: processSample_def retG_def data_eta)
  then show ?thesis by blast
qed

lemma mapG_plain:
  assumes "T \<noteq> HISTOGRAM" "hasData acts"
  shows "\<exists>acts'. sameShape acts acts' \<and> (\<forall>h. mapG (processSample T m) acts h = (Val acts', h))"
  using assms(2)
proof (induction acts)
  case Nil
  then show ?case by (simp add: sameShape_def retG_def)
next
  case (Cons a acts)
  then obtain acts' where IH: "sameShape acts acts'" "\<And>h. mapG (processSample T m) acts h = (Val acts', h)"
    by (auto simp: hasData_def)
  obtain d where d: "data a = Some d" using Cons.prems by (auto simp: hasData_def)
  obtain d' where p: "\<And>h. processSample T m a h = (Val (a\<lparr>data := Some d'\<rparr>), h)"
    using processSample_plain[OF assms(1) d, of m] by blast
  show ?case using d IH
    by (intro exI[of _ "a\<lparr>data := Some d'\<rparr> # acts'"]) (auto simp: sameShape_Cons bindG_def p retG_def)
qed

lemma samples_plain:
  assumes "T \<noteq> HISTOGRAM" "hasData acts"
  shows "\<exists>acts'. sameShape acts acts' \<and> (\<forall>h. samples_loop T ms acts h = (Val acts', h))"
  using assms(2)
proof (induction ms arbitrary: acts)
  case Nil
  then show ?case by (auto simp: sameShape_refl retG_def)
next
  case (Cons m ms)
  obtain a1 where a1: "sameShape acts a1" "\<And>h. mapG (processSample T m) acts h = (Val a1, h)"
    using mapG_plain[OF assms(1) Cons.prems] by blast
  obtain a2 where a2: "sameShape a1 a2" "\<And>h. samples_loop T ms a1 h = (Val a2, h)"
    using Cons.IH[OF sameShape_hasData[OF a1(1)]] by blast
  show ?case using a1 a2 sameShape_trans[OF a1(1) a2(1)] by (auto simp: bindG_def)
qed

lemma counter_loop_plain:
  assumes "hasData acts"
  shows "\<exists>f acts'. sameShape acts acts' \<and> (\<forall>h :: 'w. counter_loop acts flags h = (Val (f, acts'), h))"
  using assms
proof (induction acts arbitrary: flags)
  case Nil
  obtain r p c where "flags = (r, p, c)" by (cases flags)
  then show ?case by (simp add: sameShape_def retG_def)
next
  case (Cons a acts)
  obtain r p c where flags: "flags = (r, p, c)" by (cases flags)
  obtain d where d: "data a = Some d" using Cons.prems by (auto simp: hasData_def)
  have "hasData acts" using Cons.prems by (simp add: hasData_def)
  from Cons.IH[OF this] have IH: "\<exists>f acts'. sameShape acts acts' \<and> (\<forall>h :: 'w. counter_loop acts fl h = (Val (f, acts'), h))" for fl .
  show ?case
    unfolding flags counter_loop.simps d option.case Let_def
    using IH[of "(r \<or> f64_less (curSingleDataPoint d) (lastSingleDataPoint d),
       p \<and> f64_eq (lastSingleDataPoint d) (Fin 0),
       c \<and> f64_eq (if f64_less (curSingleDataPoint d) (lastSingleDataPoint d) then curSingleDataPoint d
           else f64_sub (curSingleDataPoint d) (lastSingleDataPoint d)) (Fin 0))"]
    by (fastforce simp: bindG_def retG_def sameShape_Cons d)
qed

lemma processMetric_plain:
  assumes "mf_Type fam \<noteq> HISTOGRAM" "hasData acts"
  shows "\<exists>r acts'. sameShape acts acts' \<and> (\<forall>h. processMetric fam acts h = (Val (r, acts'), h))"
proof -
  obtain a1 where a1: "sameShape acts a1" "\<And>h. samples_loop (mf_Type fam) (mf_Metric fam) acts h = (Val a1, h)"
    using samples_plain[OF assms] by blast
  show ?thesis
  proof (cases "mf_Type fam = COUNTER")
    case True
    obtain f a2 where a2: "sameShape a1 a2" "\<And>h :: bucketHeap. counter_loop a1 (False, True, True) h = (Val (f, a2), h)"
      using counter_loop_plain[OF sameShape_hasData[OF a1(1)]] by blast
    obtain x y z where f: "f = (x, y, z)" by (cases f)
    show ?thesis
      using sameShape_trans[OF a1(1) a2(1)]
      by (intro exI[of _ "x \<or> (y \<and> \<not> z)"] exI[of _ a2])
        (simp add: processMetric_def True bindG_def postProcessingCounter_def retG_def a2(2) a1(2)[unfolded True] f)
  next
    case False
    then have "processMetric fam acts h = (Val (False, a1), h)" for h
      using a1(2) assms(1) by (cases "mf_Type fam") (simp_all add: processMetric_def bindG_def retG_def)
    then show ?thesis using a1(1) by blast
  qed
qed

definition stepActs :: "MetricFamily \<Rightarrow> metricsConvert \<Rightarrow> metricsConvert" where
  "stepActs fam acts = (case fst (processMetric fam acts []) of Val (_, acts') \<Rightarrow> acts' | _ \<Rightarrow> acts)"

lemma stepActs_run:
  assumes "mf_Type fam \<noteq> HISTOGRAM" "hasData acts"
  shows "\<exists>r. \<forall>h. processMetric fam acts h = (Val (r, stepActs fam acts), h)" "sameShape acts (stepActs fam acts)"
  using processMetric_plain[OF assms] by (auto simp: stepActs_def)


section \<open>One poll\<close>

definition plainMap :: "(string, metricsConvert) gomap \<Rightarrow> bool" where
  "plainMap m \<longleftrightarrow> mwf m \<and> (\<forall>(k, c) \<in> set m. hasData c)"

text \<open>What one target's families do to the map.\<close>

definition stepMap :: "families \<Rightarrow> (string, metricsConvert) gomap \<Rightarrow> (string, metricsConvert) gomap" where
  "stepMap fams m = map (\<lambda>(k, c). (k, case map_of fams k of None \<Rightarrow> c | Some fam \<Rightarrow> stepActs fam c)) m"

text \<open>The interesting families of an answer have the name they are listed under and are no histograms.\<close>

definition safeFams :: "(string, metricsConvert) gomap \<Rightarrow> families \<Rightarrow> bool" where
  "safeFams m fams \<longleftrightarrow>
     (\<forall>k fam. k \<in> set (mkeys m) \<and> map_of fams k = Some fam \<longrightarrow> mf_Name fam = k \<and> mf_Type fam \<noteq> HISTOGRAM)"

lemma mkeys_stepMap [simp]: "mkeys (stepMap fams m) = mkeys m"
  by (simp add: stepMap_def mkeys_def comp_def case_prod_beta)

lemma map_of_stepMap:
  "map_of (stepMap fams m) k = map_option (\<lambda>c. case map_of fams k of None \<Rightarrow> c | Some fam \<Rightarrow> stepActs fam c) (map_of m k)"
  unfolding stepMap_def by (induction m) (auto split: option.split)

lemma plainMap_stepMap:
  assumes "plainMap m" "safeFams m fams"
  shows "plainMap (stepMap fams m)"
proof -
  have "hasData (case map_of fams k of None \<Rightarrow> c | Some fam \<Rightarrow> stepActs fam c)" if "(k, c) \<in> set m" for k c
  proof (cases "map_of fams k")
    case (Some fam)
    have "hasData c" "k \<in> set (mkeys m)" using assms(1) that by (auto simp: plainMap_def mkeys_def intro: rev_image_eqI)
    then show ?thesis
      using assms(2) Some sameShape_hasData[OF stepActs_run(2)] by (auto simp: safeFams_def)
  qed (use assms that in \<open>auto simp: plainMap_def\<close>)
  moreover have "mwf (stepMap fams m)" using assms(1) by (simp add: plainMap_def mwf_def)
  ultimately show ?thesis by (auto simp: plainMap_def stepMap_def)
qed

lemma map_entry_conv: "mwf m \<Longrightarrow> AList.map_entry k f m = map (\<lambda>(j, c). (j, if j = k then f c else c)) m"
proof (induction m)
  case (Cons e m)
  have "k \<notin> set (mkeys m) \<Longrightarrow> map (\<lambda>(j, c). (j, if j = k then f c else c)) m = m"
    by (induction m) auto
  with Cons show ?case by (cases e) (auto split: if_splits)
qed simp

lemma processFamily_run:
  assumes "plainMap (interesting t)" "map_of (interesting t) (mf_Name fam) = Some c" "mf_Type fam \<noteq> HISTOGRAM"
  shows "\<exists>r. processFamily fam t = (Val r, t\<lparr>interesting := stepMap [(mf_Name fam, fam)] (interesting t)\<rparr>)"
proof -
  have "hasData c" using assms(1,2) by (auto simp: plainMap_def dest: map_of_SomeD)
  then obtain r where r: "\<And>h. processMetric fam c h = (Val (r, stepActs fam c), h)"
    using stepActs_run(1)[OF assms(3)] by blast
  have "AList.map_entry (mf_Name fam) (\<lambda>_. stepActs fam c) (interesting t) = stepMap [(mf_Name fam, fam)] (interesting t)"
  proof -
    have "mwf (interesting t)" using assms(1) by (simp add: plainMap_def)
    moreover have "b = c" if "(mf_Name fam, b) \<in> set (interesting t)" for b
      using that assms(2) mwf_map_of[OF calculation, of "mf_Name fam" b] by simp
    ultimately show ?thesis by (auto simp: map_entry_conv stepMap_def)
  qed
  then show ?thesis
    by (simp add: processFamily_def bindG_def getG_def modG_def zoomG_def lookupConvert_def assms(2) r retG_def)
qed

lemma stepMap_Cons: "mf_Name fam = k \<Longrightarrow> k \<notin> set (mkeys fs) \<Longrightarrow> stepMap fs (stepMap [(k, fam)] m) = stepMap ((k, fam) # fs) m"
  by (auto simp: stepMap_def set_mkeys split: option.splits)

lemma families_loop_run:
  assumes "plainMap (interesting t)" "mwf fs" "\<forall>(k, fam) \<in> set fs. mf_Name fam = k \<and> mf_Type fam \<noteq> HISTOGRAM \<and> k \<in> set (mkeys (interesting t))"
  shows "\<exists>r'. families_loop fs r t = (Val r', t\<lparr>interesting := stepMap fs (interesting t)\<rparr>)"
  using assms
proof (induction fs arbitrary: r t)
  case Nil
  then show ?case by (simp add: retG_def stepMap_def case_prod_beta)
next
  case (Cons e fs)
  obtain k fam where e: "e = (k, fam)" by (cases e)
  have k: "mf_Name fam = k" "mf_Type fam \<noteq> HISTOGRAM" "k \<in> set (mkeys (interesting t))" using Cons.prems(3) e by auto
  then obtain c where c: "map_of (interesting t) (mf_Name fam) = Some c" by (auto simp: set_mkeys)
  let ?m = "stepMap [(k, fam)] (interesting t)"
  let ?t = "t\<lparr>interesting := ?m\<rparr>"
  obtain r1 where r1: "processFamily fam t = (Val r1, ?t)"
    using processFamily_run[OF Cons.prems(1) c k(2)] k(1) by auto
  have "safeFams (interesting t) [(k, fam)]" using k by (auto simp: safeFams_def split: if_splits)
  then have "plainMap (interesting ?t)" using plainMap_stepMap[OF Cons.prems(1)] by simp
  then obtain r' where "families_loop fs (r \<or> r1) ?t = (Val r', ?t\<lparr>interesting := stepMap fs ?m\<rparr>)"
    using Cons.IH[of ?t "r \<or> r1"] Cons.prems(2,3) e by auto
  then show ?case
    using stepMap_Cons[of fam k fs "interesting t"] k Cons.prems(2) by (simp add: e bindG_def r1)
qed

lemma map_of_filterMetrics:
  "mwf m \<Longrightarrow> map_of (filterMetrics orig m) k = (if k \<in> set (mkeys m) then map_of orig k else None)"
  unfolding filterMetrics_def
proof (induction m)
  case (Cons e m)
  then show ?case by (cases "map_of orig (fst e)") (auto simp: map_filter_def)
qed (simp add: map_filter_def)

lemma mkeys_filterMetrics: "mkeys (filterMetrics orig m) = filter (\<lambda>k. k \<in> dom (map_of orig)) (mkeys m)"
  unfolding filterMetrics_def
  by (induction m) (auto simp: map_filter_def mkeys_def domIff split: option.splits)

lemma mwf_filterMetrics: "mwf m \<Longrightarrow> mwf (filterMetrics orig m)"
  by (simp add: mwf_def mkeys_filterMetrics)

lemma safe_filtered:
  "safeFams m orig \<Longrightarrow> (k, fam) \<in> set (filterMetrics orig m) \<Longrightarrow> mf_Name fam = k \<and> mf_Type fam \<noteq> HISTOGRAM \<and> k \<in> set (mkeys m)"
  by (auto simp: safeFams_def filterMetrics_def map_filter_def)

lemma stepMap_filterMetrics: "mwf m \<Longrightarrow> stepMap (filterMetrics orig m) m = stepMap orig m"
  by (auto simp: stepMap_def map_of_filterMetrics mkeys_def intro!: map_cong split: option.splits) force+

lemma filterMetrics_keys: "mkeys m = mkeys m' \<Longrightarrow> filterMetrics orig m = filterMetrics orig m'"
  by (simp add: filterMetrics_def)


text \<open>
  \<open>resp\<close> says which targets answer, and with which families; what grabbing does to the environment is open.
\<close>

definition answers :: "'e MetricsAPI \<Rightarrow> (string \<Rightarrow> families option) \<Rightarrow> bool" where
  "answers api resp \<longleftrightarrow>
     (\<forall>t e. case resp t of
        None \<Rightarrow> \<exists>err. fst (getMetricsFromPod api t ''kube-system'' 61678 e) = Err err
      | Some fams \<Rightarrow> \<exists>txt. fst (getMetricsFromPod api t ''kube-system'' 61678 e) = Val txt \<and>
                             TextToMetricFamilies api txt = Val fams)"

lemma answersD:
  "answers api resp \<Longrightarrow> resp t = None \<Longrightarrow> \<exists>err. fst (getMetricsFromPod api t ''kube-system'' 61678 e) = Err err"
  "answers api resp \<Longrightarrow> resp t = Some fams \<Longrightarrow>
     \<exists>txt. fst (getMetricsFromPod api t ''kube-system'' 61678 e) = Val txt \<and> TextToMetricFamilies api txt = Val fams"
  unfolding answers_def by (drule spec[of _ t], drule spec[of _ e], simp)+

lemma target_loop_run:
  assumes "answers api resp" "plainMap (interesting t)" "\<And>n fams. n \<in> set ts \<Longrightarrow> resp n = Some fams \<Longrightarrow> safeFams (interesting t) fams"
  shows "\<exists>r' e'. target_loop api ts fs r t =
     (Val ((case rev (List.map_filter resp ts) of [] \<Rightarrow> fs | orig # _ \<Rightarrow> filterMetrics orig (interesting t)), r'),
      t\<lparr>interesting := fold stepMap (List.map_filter resp ts) (interesting t), henv := e'\<rparr>)"
  using assms(2,3)
proof (induction ts arbitrary: fs r t)
  case Nil
  then show ?case by (auto simp: retG_def map_filter_def intro!: exI[of _ "henv t"])
next
  case (Cons n ts)
  define ge where "ge = getMetricsFromPod api n ''kube-system'' 61678 (henv t)"
  let ?t = "t\<lparr>henv := snd ge\<rparr>"
  have g: "grabMetricsFromTarget api n t = (fst ge, ?t)"
    by (simp add: grabMetricsFromTarget_def zoomG_def ge_def NamespaceSystem_def metricsPort_def split: prod.split)
  show ?case
  proof (cases "resp n")
    case None
    then obtain err where "fst ge = Err err" using answersD(1)[OF assms(1)] by (auto simp: ge_def)
    moreover obtain r' e' where "target_loop api ts fs r ?t =
      (Val ((case rev (List.map_filter resp ts) of [] \<Rightarrow> fs | orig # _ \<Rightarrow> filterMetrics orig (interesting ?t)), r'),
       ?t\<lparr>interesting := fold stepMap (List.map_filter resp ts) (interesting ?t), henv := e'\<rparr>)"
      using Cons.IH[of ?t fs r] Cons.prems by auto
    ultimately show ?thesis using None by (auto simp: bindG_def tryG_def g map_filter_def split: list.split)
  next
    case (Some orig)
    then obtain raw where raw: "fst ge = Val raw" "TextToMetricFamilies api raw = Val orig"
      using answersD(2)[OF assms(1), of n orig "henv t"] unfolding ge_def by blast
    let ?fs = "filterMetrics orig (interesting t)"
    let ?m = "stepMap orig (interesting t)"
    have safe: "safeFams (interesting t) orig" using Cons.prems(2)[of n orig] Some by simp
    have mwf: "mwf (interesting t)" using Cons.prems(1) by (simp add: plainMap_def)
    have "\<forall>(k, fam) \<in> set ?fs. mf_Name fam = k \<and> mf_Type fam \<noteq> HISTOGRAM \<and> k \<in> set (mkeys (interesting t))"
      using safe_filtered[OF safe] by blast
    then obtain r1 where r1: "families_loop ?fs r ?t = (Val r1, ?t\<lparr>interesting := ?m\<rparr>)"
      using families_loop_run[of ?t ?fs r] Cons.prems(1) mwf_filterMetrics[OF mwf] stepMap_filterMetrics[OF mwf] by auto
    let ?t1 = "?t\<lparr>interesting := ?m\<rparr>"
    have "plainMap (interesting ?t1)" using plainMap_stepMap[OF Cons.prems(1) safe] by simp
    moreover have "n' \<in> set ts \<Longrightarrow> resp n' = Some fams \<Longrightarrow> safeFams (interesting ?t1) fams" for n' fams
      using Cons.prems(2)[of n' fams] by (simp add: safeFams_def)
    ultimately obtain r' e' where "target_loop api ts ?fs r1 ?t1 =
      (Val ((case rev (List.map_filter resp ts) of [] \<Rightarrow> ?fs | orig # _ \<Rightarrow> filterMetrics orig (interesting ?t1)), r'),
       ?t1\<lparr>interesting := fold stepMap (List.map_filter resp ts) (interesting ?t1), henv := e'\<rparr>)"
      using Cons.IH[of ?t1 ?fs r1] by blast
    moreover have "filterMetrics o' ?m = filterMetrics o' (interesting t)" for o' by (rule filterMetrics_keys) simp
    ultimately show ?thesis
      using Some by (auto simp: bindG_def tryG_def g raw resG_def getG_def r1 map_filter_def split: list.splits)
  qed
qed

lemma plainMap_fold:
  assumes "plainMap m" "\<And>fams. fams \<in> set R \<Longrightarrow> safeFams m fams"
  shows "plainMap (fold stepMap R m) \<and> mkeys (fold stepMap R m) = mkeys m"
  using assms
proof (induction R arbitrary: m)
  case (Cons fams R)
  have "plainMap (stepMap fams m)" using Cons.prems plainMap_stepMap by simp
  moreover have "fams' \<in> set R \<Longrightarrow> safeFams (stepMap fams m) fams'" for fams'
    using Cons.prems(2)[of fams'] by (simp add: safeFams_def)
  ultimately show ?case using Cons.IH[of "stepMap fams m"] by simp
qed simp

lemma plainMap_reset: "plainMap m \<Longrightarrow> plainMap (resetMetrics m)" "mkeys (resetMetrics m) = mkeys m"
  "map_of (resetMetrics m) k = map_option (map resetAction) (map_of m k)"
proof -
  show "mkeys (resetMetrics m) = mkeys m" by (simp add: resetMetrics_def mkeys_def comp_def case_prod_beta)
  then show "plainMap m \<Longrightarrow> plainMap (resetMetrics m)"
    by (fastforce simp: plainMap_def mwf_def resetMetrics_def hasData_def resetAction_def)
  show "map_of (resetMetrics m) k = map_option (map resetAction) (map_of m k)"
    unfolding resetMetrics_def by (induction m) auto
qed

section \<open>What is published\<close>

lemma Publish_data:
  "localMetricData (Publish cw ds p) = localMetricData p @ map (\<lambda>d. d\<lparr>md_Dimensions := [(''CLUSTER_ID'', clusterID p)]\<rparr>) ds"
  "clusterID (Publish cw ds p) = clusterID p"
proof -
  have "localMetricData (fold (\<lambda>d. appendDatum cw (d\<lparr>md_Dimensions := dims\<rparr>)) ds q) =
      localMetricData q @ map (\<lambda>d. d\<lparr>md_Dimensions := dims\<rparr>) ds \<and>
    clusterID (fold (\<lambda>d. appendDatum cw (d\<lparr>md_Dimensions := dims\<rparr>)) ds q) = clusterID q" for dims q
    by (induction ds arbitrary: q) (simp_all add: appendDatum_def Let_def)
  from this[of "[(''CLUSTER_ID'', clusterID p)]" p]
  show "localMetricData (Publish cw ds p) = localMetricData p @ map (\<lambda>d. d\<lparr>md_Dimensions := [(''CLUSTER_ID'', clusterID p)]\<rparr>) ds"
    "clusterID (Publish cw ds p) = clusterID p"
    by (simp_all add: Publish_def Let_def getCloudWatchMetricDatumDimensions_def clusterIDDimension_def)
qed

lemma Publish_Nil: "Publish cw [] p = p"
  by (simp add: Publish_def)

lemma Publish_append: "Publish cw (xs @ ys) p = Publish cw ys (Publish cw xs p)"
  using Publish_data(2)[of cw xs p]
  by (simp add: Publish_def Let_def getCloudWatchMetricDatumDimensions_def)

definition curOf :: "metricsAction \<Rightarrow> float64" where
  "curOf a = (case data a of None \<Rightarrow> NaN | Some d \<Rightarrow> curSingleDataPoint d)"

definition pointsOf :: "MetricType \<Rightarrow> metricsConvert \<Rightarrow> datumValue MetricDatum list" where
  "pointsOf T c = (if T = UNTYPED then [] else map (\<lambda>a. datum (cwMetricName a) (CountValue (curOf a))) c)"

definition pubs :: "(string, metricsConvert) gomap \<Rightarrow> families \<Rightarrow> datumValue MetricDatum list" where
  "pubs m fs = concat (map (\<lambda>(k, fam). pointsOf (mf_Type fam) (lookupConvert m k)) fs)"

lemma produceActions_run:
  assumes "submitCW t" "T \<noteq> HISTOGRAM" "hasData c"
  shows "forG c (produceAction api T) t = (Val (), t\<lparr>cwPublisher := Publish (cloudwatch api) (pointsOf T c) (cwPublisher t)\<rparr>)"
  using assms
proof (induction c arbitrary: t)
  case Nil
  then show ?case by (simp add: retG_def pointsOf_def Publish_Nil)
next
  case (Cons a c)
  obtain d where d: "data a = Some d" using Cons.prems by (auto simp: hasData_def)
  have p: "produceAction api T a t = (Val (), t\<lparr>cwPublisher := Publish (cloudwatch api) (pointsOf T [a]) (cwPublisher t)\<rparr>)"
    using Cons.prems(1,2) d
    by (cases T) (simp_all add: produceAction_def bindG_def getG_def cwPublish_def modG_def retG_def pointsOf_def curOf_def Publish_Nil)
  have "pointsOf T (a # c) = pointsOf T [a] @ pointsOf T c" by (simp add: pointsOf_def)
  then show ?case using Cons.prems Cons.IH[of "t\<lparr>cwPublisher := Publish (cloudwatch api) (pointsOf T [a]) (cwPublisher t)\<rparr>"]
    by (simp add: bindG_def p Publish_append hasData_def)
qed

lemma produce_run:
  assumes "submitCW t" "\<forall>(k, fam) \<in> set fs. mf_Type fam \<noteq> HISTOGRAM" "plainMap m"
  shows "produceCloudWatchMetrics api fs m t = (Val (), t\<lparr>cwPublisher := Publish (cloudwatch api) (pubs m fs) (cwPublisher t)\<rparr>)"
  using assms(1,2)
proof (induction fs arbitrary: t)
  case Nil
  then show ?case by (simp add: produceCloudWatchMetrics_def retG_def pubs_def Publish_Nil)
next
  case (Cons e fs)
  obtain k fam where e: "e = (k, fam)" by (cases e)
  have "hasData (lookupConvert m k)"
    using assms(3) map_of_SomeD[of m k] by (cases "map_of m k") (auto simp: lookupConvert_def plainMap_def hasData_def)
  note p = produceActions_run[OF Cons.prems(1) _ this, of "mf_Type fam" api]
  show ?case
    using p Cons.prems Cons.IH[of "t\<lparr>cwPublisher := Publish (cloudwatch api) (pointsOf (mf_Type fam) (lookupConvert m k)) (cwPublisher t)\<rparr>"]
    by (simp add: produceCloudWatchMetrics_def bindG_def e pubs_def Publish_append)
qed


text \<open>The whole poll.\<close>

definition answered :: "(string \<Rightarrow> families option) \<Rightarrow> 'e helper \<Rightarrow> families list" where
  "answered resp w = List.map_filter resp (getTargetList w)"

lemma Handler_run:
  assumes "answers api resp" "plainMap (interesting w)" "submitCW w"
    and "\<And>n fams. n \<in> set (getTargetList w) \<Longrightarrow> resp n = Some fams \<Longrightarrow> safeFams (interesting w) fams"
    and "m = fold stepMap (answered resp w) (resetMetrics (interesting w))"
    and "fs = (case rev (answered resp w) of [] \<Rightarrow> [] | orig # _ \<Rightarrow> filterMetrics orig (interesting w))"
  shows "\<exists>e'. Handler api w = (Val (), w\<lparr>interesting := m, henv := e',
           cwPublisher := Publish (cloudwatch api) (pubs m fs) (cwPublisher w)\<rparr>)"
    "plainMap m" "mkeys m = mkeys (interesting w)" "mwf fs"
proof -
  let ?w = "w\<lparr>interesting := resetMetrics (interesting w)\<rparr>"
  have keys: "mkeys (resetMetrics (interesting w)) = mkeys (interesting w)" by (rule plainMap_reset)
  have plain: "plainMap (interesting ?w)" using plainMap_reset(1)[OF assms(2)] by simp
  have safe: "n \<in> set (getTargetList w) \<Longrightarrow> resp n = Some fams \<Longrightarrow> safeFams (interesting ?w) fams" for n fams
    using assms(4)[of n fams] by (simp add: safeFams_def keys)
  have f: "filterMetrics o' (interesting ?w) = filterMetrics o' (interesting w)" for o'
    by (rule filterMetrics_keys) (simp add: keys)
  obtain r e' where tl: "target_loop api (getTargetList w) [] False ?w = (Val (fs, r), ?w\<lparr>interesting := m, henv := e'\<rparr>)"
    using target_loop_run[OF assms(1) plain, where fs = "[]" and r = False and ts = "getTargetList w"] safe
    unfolding assms(5,6) answered_def f by auto
  have R: "\<And>fams. fams \<in> set (answered resp w) \<Longrightarrow> safeFams (interesting ?w) fams"
    using safe by (auto simp: answered_def map_filter_def)
  show pm: "plainMap m" and "mkeys m = mkeys (interesting w)"
    using plainMap_fold[OF plain R] unfolding assms(5) by (simp_all add: keys)
  have mwf: "mwf (interesting w)" using assms(2) by (simp add: plainMap_def)
  then show "mwf fs" by (simp add: assms(6) mwf_filterMetrics split: list.split)
  have "\<forall>(k, fam) \<in> set fs. mf_Type fam \<noteq> HISTOGRAM"
  proof (cases "rev (answered resp w)")
    case (Cons orig R')
    then have "orig \<in> set (answered resp w)" by (metis list.set_intros(1) set_rev)
    then have "safeFams (interesting w) orig" using R[of orig] by (simp add: safeFams_def keys)
    then show ?thesis
      using safe_filtered[of "interesting w" orig] Cons by (auto simp: assms(6))
  qed (simp add: assms(6))
  from produce_run[OF _ this pm, of "?w\<lparr>interesting := m, henv := e'\<rparr>" api] assms(3)
  show "\<exists>e'. Handler api w = (Val (), w\<lparr>interesting := m, henv := e',
           cwPublisher := Publish (cloudwatch api) (pubs m fs) (cwPublisher w)\<rparr>)"
    by (intro exI[of _ e'])
      (simp add: Handler_def metricsListGrabAggregateConvert_def bindG_def tryG_def modG_def getG_def retG_def getTargetList_def[of ?w]
        getTargetList_def[of w, symmetric] tl)
qed

text \<open>The values a poll publishes under a name, when every name belongs to one key.\<close>

definition valuesOf :: "string \<Rightarrow> datumValue MetricDatum list \<Rightarrow> datumValue list" where
  "valuesOf n ds = map md_Rest (filter (\<lambda>d. md_Name d = n) ds)"

definition cwNames :: "(string, metricsConvert) gomap \<Rightarrow> string list list" where
  "cwNames m = map (\<lambda>(k, c). map cwMetricName c) m"

lemma cwNames_disjoint:
  "distinct (concat (cwNames m)) \<Longrightarrow> (j, c) \<in> set m \<Longrightarrow> (k, d) \<in> set m \<Longrightarrow> j \<noteq> k \<Longrightarrow>
     cwMetricName ` set c \<inter> cwMetricName ` set d = {}"
proof (induction m)
  case (Cons e m)
  have sub: "(i, b) \<in> set m \<Longrightarrow> cwMetricName ` set b \<subseteq> set (concat (cwNames m))" for i b
    by (auto simp: cwNames_def intro!: bexI[of _ "(i, b)"])
  have disj: "cwMetricName ` set (snd e) \<inter> set (concat (cwNames m)) = {}" "distinct (concat (cwNames m))"
    using Cons.prems(1) by (cases e; simp add: cwNames_def)+
  consider "e = (j, c)" "(k, d) \<in> set m" | "e = (k, d)" "(j, c) \<in> set m" | "(j, c) \<in> set m" "(k, d) \<in> set m"
    using Cons.prems by auto
  then show ?case
  proof cases
    case 1
    then show ?thesis using disj(1) sub[OF 1(2)] by (simp only: snd_conv) blast
  next
    case 2
    then show ?thesis using disj(1) sub[OF 2(2)] by (simp only: snd_conv) blast
  next
    case 3
    then show ?thesis using Cons.IH[OF disj(2)] Cons.prems(4) by blast
  qed
qed simp

lemma valuesOf_pubs:
  assumes "mwf m" "distinct (concat (cwNames m))" "map_of m k = Some [a]" "mwf fs"
  shows "valuesOf (cwMetricName a) (pubs m fs) =
    (case map_of fs k of None \<Rightarrow> [] | Some fam \<Rightarrow> if mf_Type fam = UNTYPED then [] else [CountValue (curOf a)])"
  using assms(4)
proof (induction fs)
  case Nil
  then show ?case by (simp add: valuesOf_def pubs_def)
next
  case (Cons e fs)
  obtain j fam where e: "e = (j, fam)" by (cases e)
  have split: "valuesOf n (pubs m (e # fs)) = valuesOf n (pointsOf (mf_Type fam) (lookupConvert m j)) @ valuesOf n (pubs m fs)" for n
    by (simp add: valuesOf_def pubs_def e)
  have "valuesOf (cwMetricName a) (pointsOf (mf_Type fam) (lookupConvert m j)) = []" if "j \<noteq> k"
  proof (cases "map_of m j")
    case (Some c)
    then have "(j, c) \<in> set m" "(k, [a]) \<in> set m" using assms(3) by (auto dest: map_of_SomeD)
    then have "cwMetricName a \<notin> cwMetricName ` set c" using cwNames_disjoint[OF assms(2)] that by fastforce
    then have "filter (\<lambda>x. cwMetricName x = cwMetricName a) c = []" by (simp add: filter_empty_conv image_iff) metis
    then show ?thesis using Some by (simp add: lookupConvert_def valuesOf_def pointsOf_def datum_def filter_map comp_def)
  qed (simp add: lookupConvert_def valuesOf_def pointsOf_def)
  moreover have "map_of fs k = None" if "j = k" using Cons.prems that e by (simp add: set_mkeys domIff)
  ultimately show ?case
    using Cons assms(3) unfolding split
    by (auto simp: e lookupConvert_def valuesOf_def[of _ "[]"] valuesOf_def[of _ "[_]"] pointsOf_def datum_def)
qed


section \<open>The CNI's map\<close>

definition cniShaped :: "(string, metricsConvert) gomap \<Rightarrow> bool" where
  "cniShaped m \<longleftrightarrow> list_all2 (\<lambda>(k, c) (k', c'). k = k' \<and> sameShape c c') InterestingCNIMetrics m"

lemma sameShape_names: "sameShape c c' \<Longrightarrow> map cwMetricName c' = map cwMetricName c"
  unfolding sameShape_def by (induction rule: list_all2_induct) auto

lemma cniShaped_facts:
  assumes "cniShaped m"
  shows "mkeys m = mkeys InterestingCNIMetrics" "cwNames m = cwNames InterestingCNIMetrics" "plainMap m"
    "map_of InterestingCNIMetrics k = Some [a] \<Longrightarrow> \<exists>d. map_of m k = Some [a\<lparr>data := Some d\<rparr>]"
proof -
  have "list_all2 (\<lambda>(k, c) (k', c'). k = k' \<and> sameShape c c') xs m \<Longrightarrow>
      mkeys m = mkeys xs \<and> cwNames m = cwNames xs \<and> (\<forall>(k, c) \<in> set m. hasData c) \<and>
      (map_of xs k = Some [a] \<longrightarrow> (\<exists>d. map_of m k = Some [a\<lparr>data := Some d\<rparr>]))" for xs
    by (induction rule: list_all2_induct)
      (auto simp: cwNames_def sameShape_names sameShape_hasData sameShape_def list_all2_Cons1)
  from this[OF assms[unfolded cniShaped_def]]
  have *: "mkeys m = mkeys InterestingCNIMetrics" "cwNames m = cwNames InterestingCNIMetrics" "\<forall>(k, c) \<in> set m. hasData c"
    "map_of InterestingCNIMetrics k = Some [a] \<longrightarrow> (\<exists>d. map_of m k = Some [a\<lparr>data := Some d\<rparr>])" by auto
  have "distinct (mkeys InterestingCNIMetrics)" by (simp add: InterestingCNIMetrics_def)
  with * show "mkeys m = mkeys InterestingCNIMetrics" "cwNames m = cwNames InterestingCNIMetrics" "plainMap m"
    "map_of InterestingCNIMetrics k = Some [a] \<Longrightarrow> \<exists>d. map_of m k = Some [a\<lparr>data := Some d\<rparr>]"
    by (simp_all add: plainMap_def mwf_def)
qed

lemma cniNames_distinct: "distinct (concat (cwNames InterestingCNIMetrics))"
  by (simp add: InterestingCNIMetrics_def cwNames_def cniAction_def)

lemma cniShaped_new: "cniShaped InterestingCNIMetrics"
proof -
  have "\<forall>(k, c) \<in> set InterestingCNIMetrics. hasData c"
    by (simp add: InterestingCNIMetrics_def cniAction_def hasData_def)
  then show ?thesis unfolding cniShaped_def by (auto intro!: list.rel_refl_strong sameShape_refl)
qed

lemma cniShaped_map:
  assumes "cniShaped m" "\<And>k c. (k, c) \<in> set m \<Longrightarrow> sameShape c (f k c)"
  shows "cniShaped (map (\<lambda>(k, c). (k, f k c)) m)"
  using assms(1) unfolding cniShaped_def list_all2_map2
  by (rule list.rel_mono_strong) (auto intro: sameShape_trans assms(2))

lemma resetAction_data: "data a = Some d \<Longrightarrow> bucket a = None \<Longrightarrow> resetAction a = a\<lparr>data := Some (d\<lparr>curSingleDataPoint := Fin 0\<rparr>)\<rparr>"
  by (cases a) (simp add: resetAction_def)

lemma cniShaped_bucket:
  assumes "cniShaped m" "(k, c) \<in> set m" "a \<in> set c"
  shows "bucket a = None \<and> data a \<noteq> None"
proof -
  have "\<forall>(k, c) \<in> set InterestingCNIMetrics. \<forall>a \<in> set c. bucket a = None"
    by (simp add: InterestingCNIMetrics_def cniAction_def)
  moreover have "list_all2 (\<lambda>(k, c) (k', c'). k = k' \<and> sameShape c c') xs m \<Longrightarrow>
      \<forall>(k, c) \<in> set xs. \<forall>a \<in> set c. bucket a = None \<Longrightarrow> \<forall>(k, c) \<in> set m. \<forall>a \<in> set c. bucket a = None" for xs
  proof (induction rule: list_all2_induct)
    case (Cons x xs y ys)
    have "sameShape c c' \<Longrightarrow> \<forall>a \<in> set c. bucket a = None \<Longrightarrow> \<forall>a \<in> set c'. bucket a = None" for c c'
      unfolding sameShape_def by (induction rule: list_all2_induct) auto
    then show ?case using Cons by (auto split: prod.splits)
  qed simp
  ultimately have "bucket a = None" using assms unfolding cniShaped_def by fastforce
  then show ?thesis using cniShaped_facts(3)[OF assms(1)] assms(2,3) by (auto simp: plainMap_def hasData_def)
qed

lemma cniShaped_reset: "cniShaped m \<Longrightarrow> cniShaped (resetMetrics m)"
  unfolding resetMetrics_def
proof (rule cniShaped_map)
  fix k c assume m: "cniShaped m" "(k, c) \<in> set m"
  have "\<exists>d. data a \<noteq> None \<and> resetAction a = a\<lparr>data := Some d\<rparr>" if "a \<in> set c" for a
    using cniShaped_bucket[OF m that] resetAction_data[of a] by (cases "data a") auto
  then show "sameShape c (map resetAction c)"
    by (auto simp: sameShape_def list_all2_map2 intro!: list.rel_refl_strong)
qed

lemma cniShaped_fold:
  "cniShaped m \<Longrightarrow> (\<And>fams. fams \<in> set R \<Longrightarrow> safeFams InterestingCNIMetrics fams) \<Longrightarrow> cniShaped (fold stepMap R m)"
proof (induction R arbitrary: m)
  case (Cons fams R)
  have safe: "safeFams m fams" using Cons.prems(2)[of fams] cniShaped_facts(1)[OF Cons.prems(1)] by (simp add: safeFams_def)
  have "cniShaped (stepMap fams m)" unfolding stepMap_def
  proof (rule cniShaped_map[OF Cons.prems(1)])
    fix k c assume kc: "(k, c) \<in> set m"
    have "hasData c" "k \<in> set (mkeys m)" using kc cniShaped_facts(3)[OF Cons.prems(1)] by (auto simp: plainMap_def mkeys_def intro: rev_image_eqI)
    then show "sameShape c (case map_of fams k of None \<Rightarrow> c | Some fam \<Rightarrow> stepActs fam c)"
      using safe by (auto simp: safeFams_def sameShape_refl split: option.split intro: stepActs_run(2))
  qed
  with Cons show ?case by simp
qed simp


section \<open>Sums\<close>

definition addAll :: "(dtoMetric \<Rightarrow> float64) \<Rightarrow> dtoMetric list \<Rightarrow> float64 \<Rightarrow> float64" where
  "addAll sel ms x = fold (\<lambda>m x. f64_add x (sel m)) ms x"

definition adds :: "metricsAction \<Rightarrow> bool" where
  "adds a \<longleftrightarrow> matchFunc a = matchAny \<and> actionFunc a = metricsAdd"

lemma samples_add:
  assumes "adds a" "T = GAUGE \<and> sel = m_Gauge \<or> T = COUNTER \<and> sel = m_Counter"
  shows "samples_loop T ms [a\<lparr>data := Some d\<rparr>] h =
    (Val [a\<lparr>data := Some (d\<lparr>curSingleDataPoint := addAll sel ms (curSingleDataPoint d)\<rparr>)\<rparr>], h)"
proof (induction ms arbitrary: d)
  case Nil
  then show ?case by (simp add: retG_def addAll_def)
next
  case (Cons m ms)
  let ?d = "d\<lparr>curSingleDataPoint := f64_add (curSingleDataPoint d) (sel m)\<rparr>"
  have "processSample T m (a\<lparr>data := Some d\<rparr>) h = (Val (a\<lparr>data := Some ?d\<rparr>), h)"
    using assms by (auto simp: processSample_def adds_def matchAny_def metricsAdd_def processGauge_def processCounter_def
        actOnData_def retG_def)
  then show ?case using Cons[of ?d] by (simp add: bindG_def retG_def addAll_def)
qed

lemma stepActs_gauge:
  assumes "adds a" "mf_Type fam = GAUGE"
  shows "stepActs fam [a\<lparr>data := Some d\<rparr>] =
    [a\<lparr>data := Some (d\<lparr>curSingleDataPoint := addAll m_Gauge (mf_Metric fam) (curSingleDataPoint d)\<rparr>)\<rparr>]"
  using samples_add[OF assms(1), of GAUGE m_Gauge]
  by (simp add: stepActs_def processMetric_def assms(2) bindG_def retG_def)

definition counterStep :: "float64 \<Rightarrow> dataPoints \<Rightarrow> dataPoints" where
  "counterStep tot d =
     \<lparr>lastSingleDataPoint = tot,
      curSingleDataPoint = (if f64_less tot (lastSingleDataPoint d) then tot else f64_sub tot (lastSingleDataPoint d))\<rparr>"

lemma stepActs_counter:
  assumes "adds a" "mf_Type fam = COUNTER"
  shows "stepActs fam [a\<lparr>data := Some d\<rparr>] =
    [a\<lparr>data := Some (counterStep (addAll m_Counter (mf_Metric fam) (curSingleDataPoint d)) d)\<rparr>]"
  using samples_add[OF assms(1), of COUNTER m_Counter]
  by (simp add: stepActs_def processMetric_def assms(2) bindG_def retG_def postProcessingCounter_def Let_def counterStep_def)

lemma addAll_ints:
  assumes "map sel ms = map (\<lambda>x. Fin (of_int x)) xs" "\<forall>x \<in> set xs. 0 \<le> x" "0 \<le> y" "y + sum_list xs \<le> 2 ^ 53"
  shows "addAll sel ms (Fin (of_int y)) = Fin (of_int (y + sum_list xs))"
  using assms
proof (induction ms arbitrary: xs y)
  case (Cons m ms)
  then obtain x xs' where xs: "xs = x # xs'" "sel m = Fin (of_int x)" "map sel ms = map (\<lambda>x. Fin (of_int x)) xs'" by (cases xs) auto
  have nn: "0 \<le> sum_list xs'" using Cons.prems(2) xs(1) by (intro sum_list_nonneg) auto
  then have add: "f64_add (Fin (of_int y)) (Fin (of_int x)) = Fin (of_int (y + x))"
    using Cons.prems xs(1) by (intro f64_int_arith(1)) auto
  show ?case
    using Cons.IH[OF xs(3), of "y + x"] Cons.prems add by (simp add: addAll_def xs(1,2) algebra_simps)
qed (simp add: addAll_def)

text \<open>The target reports, for a key, samples that are natural numbers.\<close>

definition reportsInts :: "MetricType \<Rightarrow> (dtoMetric \<Rightarrow> float64) \<Rightarrow> families \<Rightarrow> string \<Rightarrow> int list \<Rightarrow> bool" where
  "reportsInts T sel fams k xs \<longleftrightarrow>
     (\<exists>ms. map_of fams k = Some \<lparr>mf_Name = k, mf_Type = T, mf_Metric = ms\<rparr> \<and>
        map sel ms = map (\<lambda>x. Fin (of_int x)) xs \<and> (\<forall>x \<in> set xs. 0 \<le> x))"

definition stepKey :: "string \<Rightarrow> families \<Rightarrow> metricsConvert \<Rightarrow> metricsConvert" where
  "stepKey k fams c = (case map_of fams k of None \<Rightarrow> c | Some fam \<Rightarrow> stepActs fam c)"

lemma map_of_fold_stepMap: "map_of (fold stepMap R m) k = map_option (fold (stepKey k) R) (map_of m k)"
  by (induction R arbitrary: m) (simp_all add: map_of_stepMap stepKey_def[abs_def] option.map_comp comp_def option.map_ident option.map_id)

lemma stepKey_gauge:
  assumes "adds a" "reportsInts GAUGE m_Gauge fams k xs" "curSingleDataPoint d = Fin (of_int y)" "0 \<le> y" "y + sum_list xs \<le> 2 ^ 53"
  shows "stepKey k fams [a\<lparr>data := Some d\<rparr>] = [a\<lparr>data := Some (d\<lparr>curSingleDataPoint := Fin (of_int (y + sum_list xs))\<rparr>)\<rparr>]"
  using assms addAll_ints[of m_Gauge _ xs y] by (auto simp: reportsInts_def stepKey_def stepActs_gauge)

lemma stepKey_counter:
  assumes "adds a" "reportsInts COUNTER m_Counter fams k xs" "curSingleDataPoint d = Fin (of_int y)" "0 \<le> y" "y + sum_list xs \<le> 2 ^ 53"
    and "lastSingleDataPoint d = Fin (of_int l)" "0 \<le> l"
  shows "stepKey k fams [a\<lparr>data := Some d\<rparr>] =
    [a\<lparr>data := Some \<lparr>lastSingleDataPoint = Fin (of_int (y + sum_list xs)),
       curSingleDataPoint = Fin (of_int (if y + sum_list xs < l then y + sum_list xs else y + sum_list xs - l))\<rparr>\<rparr>]"
proof -
  have "0 \<le> sum_list xs" using assms(2) by (intro sum_list_nonneg) (auto simp: reportsInts_def)
  then have "\<not> y + sum_list xs < l \<Longrightarrow> \<bar>y + sum_list xs - l\<bar> \<le> 2 ^ 53" using assms(4,5,7) by simp
  then have "f64_sub (Fin (of_int (y + sum_list xs))) (Fin (of_int l)) = Fin (of_int (y + sum_list xs - l))"
    if "\<not> y + sum_list xs < l" using f64_int_arith(2)[of "y + sum_list xs" l] that by blast
  then show ?thesis
    using assms addAll_ints[of m_Counter _ xs y]
    by (auto simp: reportsInts_def stepKey_def stepActs_counter counterStep_def f64_int_arith(3) simp del: of_int_add of_int_diff)
qed


lemma cni_poll:
  assumes "cniShaped (interesting w)" "submitCW w" "answers api resp" "R = answered resp w"
    and "\<And>fams. fams \<in> set R \<Longrightarrow> safeFams InterestingCNIMetrics fams"
    and "map_of InterestingCNIMetrics k = Some [a]" "map_of (interesting w) k = Some [a\<lparr>data := Some d\<rparr>]"
    and "fold (stepKey k) R [a\<lparr>data := Some (d\<lparr>curSingleDataPoint := Fin 0\<rparr>)\<rparr>] = [a\<lparr>data := Some d'\<rparr>]"
    and "R \<noteq> []" "map_of (last R) k = Some fam" "mf_Type fam \<noteq> UNTYPED"
  shows "\<exists>e' m new. Handler api w = (Val (), w\<lparr>interesting := m, henv := e',
           cwPublisher := Publish (cloudwatch api) new (cwPublisher w)\<rparr>) \<and>
         cniShaped m \<and> map_of m k = Some [a\<lparr>data := Some d'\<rparr>] \<and>
         valuesOf (cwMetricName a) new = [CountValue (curSingleDataPoint d')]"
proof -
  let ?I = "interesting w"
  define m where "m = fold stepMap R (resetMetrics ?I)"
  define fs where "fs = (case rev R of [] \<Rightarrow> [] | orig # _ \<Rightarrow> filterMetrics orig ?I)"
  note I = cniShaped_facts[OF assms(1)]
  have safe: "safeFams ?I fams" if "n \<in> set (getTargetList w)" "resp n = Some fams" for n fams
    using assms(5)[of fams] that by (force simp: assms(4) answered_def map_filter_def safeFams_def I(1))
  note H' = Handler_run[OF assms(3) I(3) assms(2) _ m_def[unfolded assms(4)] fs_def[unfolded assms(4)]]
  have H: "\<exists>e'. Handler api w = (Val (), w\<lparr>interesting := m, henv := e',
      cwPublisher := Publish (cloudwatch api) (pubs m fs) (cwPublisher w)\<rparr>)" "plainMap m" "mwf fs"
    using H'(1,2,4) safe by blast+
  have shaped: "cniShaped m" unfolding m_def using cniShaped_fold[OF cniShaped_reset[OF assms(1)]] assms(5) by blast
  have "bucket (a\<lparr>data := Some d\<rparr>) = None"
    using cniShaped_bucket[OF assms(1) map_of_SomeD[OF assms(7)]] by simp
  then have "map resetAction [a\<lparr>data := Some d\<rparr>] = [a\<lparr>data := Some (d\<lparr>curSingleDataPoint := Fin 0\<rparr>)\<rparr>]"
    using resetAction_data[of "a\<lparr>data := Some d\<rparr>" d] by simp
  then have k: "map_of m k = Some [a\<lparr>data := Some d'\<rparr>]"
    unfolding m_def map_of_fold_stepMap plainMap_reset(3) assms(7) using assms(8) by simp
  have fs: "fs = filterMetrics (last R) ?I" using assms(9) by (cases R rule: rev_cases) (simp_all add: fs_def)
  have mwf: "mwf ?I" using I(3) by (simp add: plainMap_def)
  have "k \<in> set (mkeys ?I)" using assms(7) by (auto simp: set_mkeys)
  then have fk: "map_of fs k = Some fam" using map_of_filterMetrics[OF mwf] assms(10) by (simp add: fs)
  have "valuesOf (cwMetricName (a\<lparr>data := Some d'\<rparr>)) (pubs m fs) = [CountValue (curSingleDataPoint d')]"
    using valuesOf_pubs[OF _ _ k H(3)] H(2) cniShaped_facts(2)[OF shaped] cniNames_distinct fk assms(11)
    by (simp add: plainMap_def curOf_def)
  then show ?thesis using H(1) shaped k by auto
qed

text \<open>
  C31: a gauge is published as the sum of the samples of all targets that answered: targets that cannot be reached
  are left out.  (The samples are natural numbers and the sum is at most \<open>2 ^ 53\<close>, so that it is exact.)
\<close>

theorem gauge_sums_over_nodes:
  assumes "cniShaped (interesting w)" "submitCW w" "answers api resp" "answered resp w \<noteq> []"
    and "\<forall>fams \<in> set (answered resp w). safeFams InterestingCNIMetrics fams \<and> reportsInts GAUGE m_Gauge fams k (xs fams)"
    and "map_of InterestingCNIMetrics k = Some [a]" "adds a"
    and "tot = (\<Sum>fams \<leftarrow> answered resp w. sum_list (xs fams))" "tot \<le> 2 ^ 53"
  shows "\<exists>w' new. Handler api w = (Val (), w') \<and> cniShaped (interesting w') \<and>
           cwPublisher w' = Publish (cloudwatch api) new (cwPublisher w) \<and>
           valuesOf (cwMetricName a) new = [CountValue (Fin (of_int tot))]"
proof -
  define R where "R = answered resp w"
  obtain d where d: "map_of (interesting w) k = Some [a\<lparr>data := Some d\<rparr>]" using cniShaped_facts(4)[OF assms(1,6)] by blast
  have "fold (stepKey k) Q [a\<lparr>data := Some c\<rparr>] =
      [a\<lparr>data := Some (c\<lparr>curSingleDataPoint := Fin (of_int (y + (\<Sum>fams \<leftarrow> Q. sum_list (xs fams))))\<rparr>)\<rparr>]"
    if "\<forall>fams \<in> set Q. reportsInts GAUGE m_Gauge fams k (xs fams)" "curSingleDataPoint c = Fin (of_int y)" "0 \<le> y"
      "y + (\<Sum>fams \<leftarrow> Q. sum_list (xs fams)) \<le> 2 ^ 53" for Q c y
    using that
  proof (induction Q arbitrary: c y)
    case (Cons q Q)
    have nn: "0 \<le> sum_list (xs fams)" if "fams \<in> set (q # Q)" for fams
      using Cons.prems(1) that by (intro sum_list_nonneg) (auto simp: reportsInts_def)
    have "0 \<le> (\<Sum>fams \<leftarrow> Q. sum_list (xs fams))" by (rule sum_list_nonneg) (use nn in auto)
    moreover have "0 \<le> sum_list (xs q)" using nn[of q] by simp
    ultimately have "0 \<le> (\<Sum>fams \<leftarrow> Q. sum_list (xs fams))" "0 \<le> sum_list (xs q)" .
    with Cons.prems show ?case
      using stepKey_gauge[OF assms(7), of q k "xs q" c y] Cons.IH[of "c\<lparr>curSingleDataPoint := Fin (of_int (y + sum_list (xs q)))\<rparr>" "y + sum_list (xs q)"]
      by (simp add: algebra_simps)
  qed (simp add: data_eta)
  from this[of R "d\<lparr>curSingleDataPoint := Fin 0\<rparr>" 0]
  have f: "fold (stepKey k) R [a\<lparr>data := Some (d\<lparr>curSingleDataPoint := Fin 0\<rparr>)\<rparr>] =
      [a\<lparr>data := Some (d\<lparr>curSingleDataPoint := Fin (of_int tot)\<rparr>)\<rparr>]"
    using assms(5,8,9) by (simp add: R_def)
  have "last R \<in> set R" using assms(4) by (simp add: R_def)
  then obtain fam where fam: "map_of (last R) k = Some fam" "mf_Type fam = GAUGE"
    using assms(5) by (fastforce simp: R_def reportsInts_def)
  obtain e' m new where "Handler api w = (Val (), w\<lparr>interesting := m, henv := e',
       cwPublisher := Publish (cloudwatch api) new (cwPublisher w)\<rparr>)" "cniShaped m"
     "valuesOf (cwMetricName a) new = [CountValue (Fin (of_int tot))]"
    using cni_poll[OF assms(1-3) R_def _ assms(6) d f _ fam(1)] assms(4,5) fam(2) by (auto simp: R_def)
  then show ?thesis by (intro exI[of _ "w\<lparr>interesting := m, henv := e', cwPublisher := Publish (cloudwatch api) new (cwPublisher w)\<rparr>"]
      exI[of _ new]) simp
qed


section \<open>Counters\<close>

text \<open>
  A loop whose polls each publish one value under a name: \<open>St l w\<close> is a state in which the action's last total is \<open>l\<close>;
  a poll of kind \<open>x\<close> publishes \<open>pub l x\<close> and leaves the total \<open>nxt l x\<close>.
\<close>

definition lastTotal :: "string \<Rightarrow> metricsAction \<Rightarrow> int \<Rightarrow> 'e helper \<Rightarrow> bool" where
  "lastTotal k a l w \<longleftrightarrow> cniShaped (interesting w) \<and> submitCW w \<and>
     (\<exists>d. map_of (interesting w) k = Some [a\<lparr>data := Some d\<rparr>] \<and> lastSingleDataPoint d = Fin (of_int l))"

fun publishedBy :: "(int \<Rightarrow> 'x \<Rightarrow> int) \<Rightarrow> (int \<Rightarrow> 'x \<Rightarrow> int) \<Rightarrow> int \<Rightarrow> 'x list \<Rightarrow> int list" where
  "publishedBy pub nxt l [] = []"
| "publishedBy pub nxt l (x # xs) = pub l x # publishedBy pub nxt (nxt l x) xs"

definition pollGives :: "string \<Rightarrow> metricsAction \<Rightarrow> (int \<Rightarrow> bool) \<Rightarrow> (int \<Rightarrow> 'x \<Rightarrow> int) \<Rightarrow> (int \<Rightarrow> 'x \<Rightarrow> int) \<Rightarrow> 'e MetricsAPI \<Rightarrow> 'x \<Rightarrow> 'e helper \<Rightarrow> int \<Rightarrow> bool" where
  "pollGives k a P pub nxt api x w l \<longleftrightarrow>
     (\<exists>w' new. Handler api w = (Val (), w') \<and> lastTotal k a (nxt l x) w' \<and> P (nxt l x) \<and> getTargetList w' = getTargetList w \<and>
        cwPublisher w' = Publish (cloudwatch api) new (cwPublisher w) \<and>
        valuesOf (cwMetricName a) new = [CountValue (Fin (of_int (pub l x)))])"

lemma valuesOf_append: "valuesOf n (xs @ ys) = valuesOf n xs @ valuesOf n ys"
  by (simp add: valuesOf_def)

lemma valuesOf_dims: "valuesOf n (map (\<lambda>d. d\<lparr>md_Dimensions := ds\<rparr>) xs) = valuesOf n xs"
  by (simp add: valuesOf_def filter_map comp_def)

lemma metricLoop_values:
  assumes "lastTotal k a l w" "P l" "getTargetList w = ts"
    and "\<And>api x w l. (api, x) \<in> set ps \<Longrightarrow> lastTotal k a l w \<Longrightarrow> P l \<Longrightarrow> getTargetList w = ts \<Longrightarrow> pollGives k a P pub nxt api x w l"
  shows "\<exists>w' new. metricLoop (map fst ps) w = (Val (), w') \<and>
    localMetricData (cwPublisher w') = localMetricData (cwPublisher w) @ new \<and>
    valuesOf (cwMetricName a) new = map (\<lambda>v. CountValue (Fin (of_int v))) (publishedBy pub nxt l (map snd ps))"
  using assms
proof (induction ps arbitrary: w l)
  case Nil
  then show ?case by (simp add: metricLoop_def retG_def valuesOf_def)
next
  case (Cons p ps)
  obtain api x where p: "p = (api, x)" by (cases p)
  have "pollGives k a P pub nxt api x w l" using Cons.prems p by auto
  then obtain w1 new1 where 1: "Handler api w = (Val (), w1)" "lastTotal k a (nxt l x) w1" "P (nxt l x)"
    "getTargetList w1 = ts" "cwPublisher w1 = Publish (cloudwatch api) new1 (cwPublisher w)"
    "valuesOf (cwMetricName a) new1 = [CountValue (Fin (of_int (pub l x)))]"
    unfolding pollGives_def Cons.prems(3) by blast
  obtain w' new where 2: "metricLoop (map fst ps) w1 = (Val (), w')" "localMetricData (cwPublisher w') = localMetricData (cwPublisher w1) @ new"
    "valuesOf (cwMetricName a) new = map (\<lambda>v. CountValue (Fin (of_int v))) (publishedBy pub nxt (nxt l x) (map snd ps))"
    using Cons.IH[OF 1(2-4)] Cons.prems(4) by auto
  have "metricLoop (map fst (p # ps)) w = (Val (), w')"
    using 1(1) 2(1) by (simp add: metricLoop_def p bindG_def)
  moreover have "localMetricData (cwPublisher w') = localMetricData (cwPublisher w) @
      (map (\<lambda>d. d\<lparr>md_Dimensions := [(''CLUSTER_ID'', clusterID (cwPublisher w))]\<rparr>) new1 @ new)"
    by (simp add: 2(2) 1(5) Publish_data(1))
  ultimately show ?case
    using 1(6) 2(3) by (auto simp: valuesOf_append valuesOf_dims p)
qed

text \<open>One poll of the targets that answer with \<open>R\<close>, whose last answer holds the counter.\<close>

lemma counter_poll:
  assumes "lastTotal k a l w" "answers api resp" "answered resp w = R" "R \<noteq> []"
    and "\<forall>fams \<in> set R. safeFams InterestingCNIMetrics fams \<and> (\<exists>ms. map_of fams k = Some \<lparr>mf_Name = k, mf_Type = COUNTER, mf_Metric = ms\<rparr>)"
    and "map_of InterestingCNIMetrics k = Some [a]" "P (nxt l x)"
    and "\<And>d. lastSingleDataPoint d = Fin (of_int l) \<Longrightarrow>
      fold (stepKey k) R [a\<lparr>data := Some (d\<lparr>curSingleDataPoint := Fin 0\<rparr>)\<rparr>] =
      [a\<lparr>data := Some \<lparr>lastSingleDataPoint = Fin (of_int (nxt l x)), curSingleDataPoint = Fin (of_int (pub l x))\<rparr>\<rparr>]"
  shows "pollGives k a P pub nxt api x w l"
proof -
  obtain d where d: "map_of (interesting w) k = Some [a\<lparr>data := Some d\<rparr>]" "lastSingleDataPoint d = Fin (of_int l)"
    and w: "cniShaped (interesting w)" "submitCW w" using assms(1) by (auto simp: lastTotal_def)
  have safe: "fams \<in> set R \<Longrightarrow> safeFams InterestingCNIMetrics fams" for fams using assms(5) by blast
  obtain ms where lst: "map_of (last R) k = Some \<lparr>mf_Name = k, mf_Type = COUNTER, mf_Metric = ms\<rparr>" using assms(4,5) by fastforce
  obtain e' m new where H: "Handler api w = (Val (), w\<lparr>interesting := m, henv := e',
       cwPublisher := Publish (cloudwatch api) new (cwPublisher w)\<rparr>)" "cniShaped m"
     "map_of m k = Some [a\<lparr>data := Some \<lparr>lastSingleDataPoint = Fin (of_int (nxt l x)), curSingleDataPoint = Fin (of_int (pub l x))\<rparr>\<rparr>]"
     "valuesOf (cwMetricName a) new = [CountValue (Fin (of_int (pub l x)))]"
    using cni_poll[OF w assms(2) assms(3)[symmetric] safe assms(6) d(1) assms(8)[OF d(2)] assms(4) lst] by auto
  show ?thesis unfolding pollGives_def
    by (intro exI[of _ "w\<lparr>interesting := m, henv := e', cwPublisher := Publish (cloudwatch api) new (cwPublisher w)\<rparr>"] exI[of _ new])
      (auto simp: H w(2) assms(7) lastTotal_def getTargetList_def
        intro!: exI[of _ "\<lparr>lastSingleDataPoint = Fin (of_int (nxt l x)), curSingleDataPoint = Fin (of_int (pub l x))\<rparr>"])
qed

lemma lastTotal_new: "map_of InterestingCNIMetrics k = Some [a] \<Longrightarrow> lastTotal k a 0 (CNIMetricsNew cw d True e)"
proof -
  assume k: "map_of InterestingCNIMetrics k = Some [a]"
  have "\<forall>(k, c) \<in> set InterestingCNIMetrics. \<forall>a \<in> set c. data a = Some \<lparr>lastSingleDataPoint = Fin 0, curSingleDataPoint = Fin 0\<rparr>"
    by (simp add: InterestingCNIMetrics_def cniAction_def)
  then have "data a = Some \<lparr>lastSingleDataPoint = Fin 0, curSingleDataPoint = Fin 0\<rparr>" using map_of_SomeD[OF k] by fastforce
  then show ?thesis
    using k data_eta[of a] by (auto simp: lastTotal_def CNIMetricsNew_def cniShaped_new
        intro!: exI[of _ "\<lparr>lastSingleDataPoint = Fin 0, curSingleDataPoint = Fin 0\<rparr>"])
qed

text \<open>
  C32: with one node, the polls publish the increments of its counter: the difference to the previous total, or
  the total itself if the counter went down (the node's daemon was restarted); the first poll publishes the
  total, although its log line says that it is skipped.
\<close>

theorem single_node_counter_increments:
  assumes "map_of InterestingCNIMetrics k = Some [a]" "adds a"
    and "w = CNIMetricsNew cw d True e" "GetCNIPods d = [n]"
    and "\<forall>(api, v) \<in> set ps. v \<le> 2 ^ 53 \<and> (\<exists>fams xs. answers api [n \<mapsto> fams] \<and> safeFams InterestingCNIMetrics fams \<and>
           reportsInts COUNTER m_Counter fams k xs \<and> sum_list xs = v)"
    and "vs = map snd ps"
  shows "\<exists>w' new. metricLoop (map fst ps) w = (Val (), w') \<and>
    localMetricData (cwPublisher w') = localMetricData cw @ new \<and>
    valuesOf (cwMetricName a) new =
      map (\<lambda>(prev, v). CountValue (Fin (of_int (if v < prev then v else v - prev)))) (zip (0 # vs) vs)"
proof -
  let ?pub = "\<lambda>l v :: int. if v < l then v else v - l"
  let ?nxt = "\<lambda>(l :: int) v :: int. v"
  let ?P = "\<lambda>l :: int. 0 \<le> l"
  have "pollGives k a ?P ?pub ?nxt api v w' l"
    if "(api, v) \<in> set ps" "lastTotal k a l w'" "0 \<le> l" "getTargetList w' = [n]" for api v w' l
  proof -
    obtain fams xs where f: "answers api [n \<mapsto> fams]" "safeFams InterestingCNIMetrics fams"
      "reportsInts COUNTER m_Counter fams k xs" "sum_list xs = v" "v \<le> 2 ^ 53" using assms(5) \<open>(api, v) \<in> set ps\<close> by fastforce
    have "0 \<le> v" using f(3,4) sum_list_nonneg[of xs] by (auto simp: reportsInts_def)
    moreover have "answered [n \<mapsto> fams] w' = [fams]" using that(4) by (simp add: answered_def map_filter_def)
    ultimately show ?thesis
      using counter_poll[OF that(2) f(1), where R = "[fams]" and P = ?P and nxt = ?nxt and pub = ?pub and x = v]
        stepKey_counter[OF assms(2) f(3), where y = 0 and l = l] f assms(1) that(3) by (auto simp: reportsInts_def)
  qed
  moreover have "publishedBy ?pub ?nxt l vs = map (\<lambda>(prev, v). if v < prev then v else v - prev) (zip (l # vs) vs)" for l vs
    by (induction vs arbitrary: l) auto
  moreover have "lastTotal k a 0 w" "getTargetList w = [n]" "cwPublisher w = cw"
    using lastTotal_new[OF assms(1)] assms(3,4) by (simp_all add: getTargetList_def CNIMetricsNew_def)
  ultimately show ?thesis
    using metricLoop_values[of k a 0 w ?P "[n]" ps ?pub ?nxt] by (auto simp: assms(6) comp_def case_prod_beta)
qed

text \<open>
  C40: with two nodes the counters are not aggregated: while both nodes' counters stand still, at totals \<open>x\<close> and
  \<open>y\<close>, every poll publishes \<open>y\<close> new events.
\<close>

theorem two_node_counter_repeats:
  assumes "map_of InterestingCNIMetrics k = Some [a]" "adds a"
    and "w = CNIMetricsNew cw d True e" "GetCNIPods d = [n1, n2]" "n1 \<noteq> n2"
    and "\<forall>api \<in> set apis. answers api [n1 \<mapsto> f1, n2 \<mapsto> f2]"
    and "safeFams InterestingCNIMetrics f1" "reportsInts COUNTER m_Counter f1 k xs" "x = sum_list xs"
    and "safeFams InterestingCNIMetrics f2" "reportsInts COUNTER m_Counter f2 k ys" "y = sum_list ys"
    and "0 < y" "x + y \<le> 2 ^ 53"
  shows "\<exists>w' new. metricLoop apis w = (Val (), w') \<and>
    localMetricData (cwPublisher w') = localMetricData cw @ new \<and>
    valuesOf (cwMetricName a) new = replicate (length apis) (CountValue (Fin (of_int y)))"
proof -
  let ?P = "\<lambda>l. l = 0 \<or> l = x + y" and ?pub = "\<lambda>(l :: int) _ :: unit. y" and ?nxt = "\<lambda>(l :: int) _ :: unit. x + y"
  let ?ps = "map (\<lambda>api. (api, ())) apis"
  have x: "0 \<le> x" using assms(8,9) sum_list_nonneg[of xs] by (auto simp: reportsInts_def)
  have step: "fold (stepKey k) [f1, f2] [a\<lparr>data := Some (c\<lparr>curSingleDataPoint := Fin 0\<rparr>)\<rparr>] =
      [a\<lparr>data := Some \<lparr>lastSingleDataPoint = Fin (of_int (x + y)), curSingleDataPoint = Fin (of_int y)\<rparr>\<rparr>]"
    if "?P l" "lastSingleDataPoint c = Fin (of_int l)" for l c
  proof -
    have "stepKey k f1 [a\<lparr>data := Some (c\<lparr>curSingleDataPoint := Fin 0\<rparr>)\<rparr>] =
        [a\<lparr>data := Some \<lparr>lastSingleDataPoint = Fin (of_int x), curSingleDataPoint = Fin (of_int x)\<rparr>\<rparr>]"
      using stepKey_counter[OF assms(2,8), where y = 0 and l = l and d = "c\<lparr>curSingleDataPoint := Fin 0\<rparr>"] that x assms(9,13,14) by auto
    moreover have "stepKey k f2 [a\<lparr>data := Some \<lparr>lastSingleDataPoint = Fin (of_int x), curSingleDataPoint = Fin (of_int x)\<rparr>\<rparr>] =
        [a\<lparr>data := Some \<lparr>lastSingleDataPoint = Fin (of_int (x + y)), curSingleDataPoint = Fin (of_int y)\<rparr>\<rparr>]"
      using stepKey_counter[OF assms(2,11), where y = x and l = x
          and d = "\<lparr>lastSingleDataPoint = Fin (of_int x), curSingleDataPoint = Fin (of_int x)\<rparr>"] x assms(12-14) by simp
    ultimately show ?thesis by simp
  qed
  have "pollGives k a ?P ?pub ?nxt api u w' l"
    if "(api, u) \<in> set ?ps" "lastTotal k a l w'" "?P l" "getTargetList w' = [n1, n2]" for api u w' l
  proof -
    have "answers api [n1 \<mapsto> f1, n2 \<mapsto> f2]" using that(1) assms(6) by auto
    moreover have "answered [n1 \<mapsto> f1, n2 \<mapsto> f2] w' = [f1, f2]" using that(4) assms(5) by (simp add: answered_def map_filter_def)
    ultimately show ?thesis
      using counter_poll[OF that(2), where resp = "[n1 \<mapsto> f1, n2 \<mapsto> f2]" and R = "[f1, f2]" and P = ?P and nxt = ?nxt and pub = ?pub and x = u and api = api]
        step[OF that(3)] assms(1,7,8,10,11) by (auto simp: reportsInts_def simp del: fold_simps)
  qed
  moreover have "publishedBy ?pub ?nxt l (map snd (map (\<lambda>api. (api, ())) as)) = replicate (length as) y" for l and as :: "'a MetricsAPI list"
    by (induction as arbitrary: l) auto
  moreover have "lastTotal k a 0 w" "getTargetList w = [n1, n2]" "cwPublisher w = cw"
    using lastTotal_new[OF assms(1)] assms(3,4) by (simp_all add: getTargetList_def CNIMetricsNew_def)
  ultimately show ?thesis
    using metricLoop_values[of k a 0 w ?P "[n1, n2]" ?ps ?pub ?nxt] by (auto simp: comp_def)
qed


section \<open>Witnesses\<close>

text \<open>Pods whose text is their name, and a parser that knows what each pod reports.\<close>

definition demo_mapi :: "(string \<Rightarrow> families option) \<Rightarrow> unit MetricsAPI" where
  "demo_mapi resp =
     \<lparr>getMetricsFromPod = (\<lambda>t _ _. case resp t of None \<Rightarrow> errG (NewErr ''unreachable'') | Some _ \<Rightarrow> retG t),
      TextToMetricFamilies = (\<lambda>t. case resp t of None \<Rightarrow> Err (NewErr ''parse'') | Some fams \<Rightarrow> Val fams),
      cloudwatch = \<lparr>GetClusterTag = (\<lambda>_. retG ''c''), NewMetricsClient = retG (), MetadataRegion = retG ''r'',
        PutMetricData = (\<lambda>_ _. retG ()), growslice = (\<lambda>c n. 2 * n)\<rparr>\<rparr>"

lemma demo_answers: "answers (demo_mapi resp) resp"
  by (simp add: answers_def demo_mapi_def errG_def retG_def split: option.split)

definition demo_fams :: "MetricType \<Rightarrow> string \<Rightarrow> int \<Rightarrow> families" where
  "demo_fams T k v = [(k, \<lparr>mf_Name = k, mf_Type = T,
     mf_Metric = [\<lparr>m_Gauge = Fin (of_int v), m_Counter = Fin (of_int v), m_Quantiles = [], m_Buckets = []\<rparr>]\<rparr>)]"

definition demo_disc :: "string list \<Rightarrow> discController" where
  "demo_disc pods = \<lparr>workerPods = [], cniPods = map (\<lambda>p. (p, p)) pods, myNodeName = ''n'', synced = True\<rparr>"

lemma demo_fams_facts:
  "T \<noteq> HISTOGRAM \<Longrightarrow> safeFams m (demo_fams T k v)" "0 \<le> v \<Longrightarrow> reportsInts GAUGE m_Gauge (demo_fams GAUGE k v) k [v]"
  "0 \<le> v \<Longrightarrow> reportsInts COUNTER m_Counter (demo_fams COUNTER k v) k [v]" "GetCNIPods (demo_disc pods) = pods"
  by (auto simp: safeFams_def demo_fams_def reportsInts_def GetCNIPods_def demo_disc_def mkeys_def comp_def)

definition demo_start :: "string list \<Rightarrow> unit helper" where
  "demo_start pods = CNIMetricsNew (emptyPublisher ''c'') (demo_disc pods) True ()"

lemma demo_actions:
  "\<exists>a. map_of InterestingCNIMetrics ''awscni_total_ip_addresses'' = Some [a] \<and> adds a \<and> cwMetricName a = ''totalIPAddresses''"
  "\<exists>a. map_of InterestingCNIMetrics ''awscni_add_ip_req_count'' = Some [a] \<and> adds a \<and> cwMetricName a = ''addReqCount''"
  by (simp_all add: InterestingCNIMetrics_def cniAction_def adds_def)

text \<open>Three pods, one of them unreachable: 14 and 28 addresses.\<close>

theorem gauge_sums_over_nodes_witness:
  "\<exists>w' new. Handler (demo_mapi [''a'' \<mapsto> demo_fams GAUGE ''awscni_total_ip_addresses'' 14,
       ''c'' \<mapsto> demo_fams GAUGE ''awscni_total_ip_addresses'' 28]) (demo_start [''a'', ''b'', ''c'']) = (Val (), w') \<and>
     cwPublisher w' = Publish (cloudwatch (demo_mapi Map.empty)) new (emptyPublisher ''c'') \<and>
     valuesOf ''totalIPAddresses'' new = [CountValue (Fin 42)]"
proof -
  let ?k = "''awscni_total_ip_addresses''"
  let ?f = "demo_fams GAUGE ?k"
  let ?resp = "[''a'' \<mapsto> ?f 14, ''c'' \<mapsto> ?f 28]"
  let ?w = "demo_start [''a'', ''b'', ''c'']"
  obtain a where a: "map_of InterestingCNIMetrics ?k = Some [a]" "adds a" "cwMetricName a = ''totalIPAddresses''"
    using demo_actions(1) by blast
  have w: "cniShaped (interesting ?w)" "submitCW ?w" by (simp_all add: demo_start_def CNIMetricsNew_def cniShaped_new)
  have R: "answered ?resp ?w = [?f 14, ?f 28]"
    by (simp add: answered_def getTargetList_def demo_start_def CNIMetricsNew_def demo_fams_facts map_filter_def)
  have xs: "\<forall>fams \<in> set (answered ?resp ?w). safeFams InterestingCNIMetrics fams \<and>
      reportsInts GAUGE m_Gauge fams ?k (if fams = ?f 14 then [14] else [28])"
    using demo_fams_facts(2)[of 28 ?k] by (auto simp: R demo_fams_facts)
  have "?f 28 \<noteq> ?f 14" by (simp add: demo_fams_def)
  then have "(42 :: int) = (\<Sum>fams \<leftarrow> answered ?resp ?w. sum_list (if fams = ?f 14 then [14] else [28]))" by (simp add: R)
  moreover have "answered ?resp ?w \<noteq> []" by (simp add: R)
  ultimately obtain w' new where "Handler (demo_mapi ?resp) ?w = (Val (), w')"
    "cwPublisher w' = Publish (cloudwatch (demo_mapi ?resp)) new (cwPublisher ?w)"
    "valuesOf (cwMetricName a) new = [CountValue (Fin (of_int 42))]"
    using gauge_sums_over_nodes[OF w demo_answers _ xs a(1,2), of 42] by auto
  moreover have "cwPublisher ?w = emptyPublisher ''c''" "cloudwatch (demo_mapi ?resp) = cloudwatch (demo_mapi Map.empty)"
    by (simp_all add: demo_start_def CNIMetricsNew_def demo_mapi_def)
  ultimately show ?thesis using a(3) by (intro exI[of _ w'] exI[of _ new]) simp
qed

text \<open>One pod: 5 requests, then 9, then a restart with 2.\<close>

theorem single_node_counter_increments_witness:
  "\<exists>w' new. metricLoop (map (\<lambda>v. demo_mapi [''a'' \<mapsto> demo_fams COUNTER ''awscni_add_ip_req_count'' v]) [5, 9, 2]) (demo_start [''a'']) = (Val (), w') \<and>
     localMetricData (cwPublisher w') = new \<and> valuesOf ''addReqCount'' new = [CountValue (Fin 5), CountValue (Fin 4), CountValue (Fin 2)]"
proof -
  let ?k = "''awscni_add_ip_req_count''"
  let ?ps = "map (\<lambda>v. (demo_mapi [''a'' \<mapsto> demo_fams COUNTER ?k v], v)) [5, 9, 2]"
  obtain a where a: "map_of InterestingCNIMetrics ?k = Some [a]" "adds a" "cwMetricName a = ''addReqCount''"
    using demo_actions(2) by blast
  have "answers (demo_mapi [''a'' \<mapsto> demo_fams COUNTER ?k v]) [''a'' \<mapsto> demo_fams COUNTER ?k v] \<and>
      safeFams InterestingCNIMetrics (demo_fams COUNTER ?k v) \<and>
      reportsInts COUNTER m_Counter (demo_fams COUNTER ?k v) ?k [v] \<and> sum_list [v] = v" if "0 \<le> v" for v
    using that by (simp add: demo_answers demo_fams_facts)
  then have h: "\<forall>(api, v) \<in> set ?ps. v \<le> 2 ^ 53 \<and> (\<exists>fams xs. answers api [''a'' \<mapsto> fams] \<and>
      safeFams InterestingCNIMetrics fams \<and> reportsInts COUNTER m_Counter fams ?k xs \<and> sum_list xs = v)"
    by (auto, (metis zero_le_numeral)+)
  from single_node_counter_increments[OF a(1,2) demo_start_def demo_fams_facts(4) h refl]
  show ?thesis by (auto simp: a(3) emptyPublisher_def)
qed

text \<open>Two pods whose counters stand at 5 and 7: three polls publish 7 new requests each.\<close>

theorem two_node_counter_repeats_witness:
  "\<exists>w' new. metricLoop (replicate 3 (demo_mapi [''a'' \<mapsto> demo_fams COUNTER ''awscni_add_ip_req_count'' 5,
       ''b'' \<mapsto> demo_fams COUNTER ''awscni_add_ip_req_count'' 7])) (demo_start [''a'', ''b'']) = (Val (), w') \<and>
     localMetricData (cwPublisher w') = new \<and> valuesOf ''addReqCount'' new = [CountValue (Fin 7), CountValue (Fin 7), CountValue (Fin 7)]"
proof -
  let ?k = "''awscni_add_ip_req_count''"
  let ?resp = "[''a'' \<mapsto> demo_fams COUNTER ?k 5, ''b'' \<mapsto> demo_fams COUNTER ?k 7]"
  obtain a where a: "map_of InterestingCNIMetrics ?k = Some [a]" "adds a" "cwMetricName a = ''addReqCount''"
    using demo_actions(2) by blast
  have h: "\<forall>api \<in> set (replicate 3 (demo_mapi ?resp)). answers api ?resp" by (simp add: demo_answers)
  have "safeFams InterestingCNIMetrics (demo_fams COUNTER ?k v)" for v by (simp add: demo_fams_facts)
  note t = two_node_counter_repeats[OF a(1,2) demo_start_def demo_fams_facts(4) _ h this demo_fams_facts(3) refl this demo_fams_facts(3) refl]
  then show ?thesis by (auto simp: a(3) emptyPublisher_def numeral_eq_Suc)
qed

end
