(* ===== verification/Restart.thy ===== *)
theory Restart
  imports RpcHandler DiscoveryProps
begin

text \<open>
  What a restart of the daemon keeps.  The store lives in memory; \<^verbatim>\<open>nodeInit\<close> rebuilds it from the attached ENIs and
  from the pods that the pod controller lists.  The theorems say which pods get their addresses back, and when they
  do not, or cannot return them: the store of the daemon composed with the request handlers and with the controller.
\<close>

section \<open>Assigning a named address\<close>

definition onNode :: "DataStore \<Rightarrow> string \<Rightarrow> bool" where
  "onNode ds ip \<longleftrightarrow> (\<exists>ek eni. map_of (eniIPPools ds) ek = Some eni \<and> map_of (IPv4Addresses eni) ip \<noteq> None)"

text \<open>The pod is recorded with its address, and the address is marked on an ENI whose device number the pod has.\<close>

definition heldBy :: "K8SPodInfo \<Rightarrow> DataStore \<Rightarrow> bool" where
  "heldBy pod ds \<longleftrightarrow> (\<exists>ek eni a. map_of (eniIPPools ds) ek = Some eni \<and> map_of (IPv4Addresses eni) (IP pod) = Some a \<and>
     Assigned a \<and> map_of (podsIP ds) (podKey pod) = Some \<lparr>pi_IP = IP pod, pi_DeviceNumber = DeviceNumber eni\<rparr>)"

lemma onNode_take_addr [simp]: "onNode (take_addr pod ek eni ak a ds) ip = onNode ds ip"
proof -
  let ?has = "\<lambda>ds k. map_option (\<lambda>eni. map_of (IPv4Addresses eni) ip \<noteq> None) (map_of (eniIPPools ds) k)"
  have "onNode ds ip \<longleftrightarrow> (\<exists>k. ?has ds k = Some True)" for ds by (auto simp: onNode_def)
  moreover have "?has (take_addr pod ek eni ak a ds) k = ?has ds k" for k
    by (cases "map_of (eniIPPools ds) k") (auto simp: take_addr_def Let_def map_of_map_entry split: option.splits)
  ultimately show ?thesis by (simp only:)
qed

lemma heldBy_take_addr:
  assumes "heldBy p ds" "podKey p \<noteq> podKey pod"
  shows "heldBy p (take_addr pod ek eni ak a ds)"
proof -
  obtain ek' eni' a' where h: "map_of (eniIPPools ds) ek' = Some eni'" "map_of (IPv4Addresses eni') (IP p) = Some a'" "Assigned a'"
      "map_of (podsIP ds) (podKey p) = Some \<lparr>pi_IP = IP p, pi_DeviceNumber = DeviceNumber eni'\<rparr>"
    using assms(1) by (auto simp: heldBy_def)
  show ?thesis
    using h assms(2) unfolding heldBy_def
    by (intro exI[of _ ek']) (auto simp: take_addr_def Let_def map_of_map_entry map_of_update)
qed

text \<open>A named address that the node has is assigned, whether free, cooling or taken.\<close>

lemma assign_named:
  assumes "ds_inv ds" "IP pod \<noteq> ''''" "onNode ds (IP pod)" "map_of (podsIP ds) (podKey pod) = None"
  obtains ek eni a dev where "AssignPodIPv4Address now pod ds = (Val (IP pod, dev), take_addr pod ek eni (IP pod) a ds)"
    and "heldBy pod (take_addr pod ek eni (IP pod) a ds)"
proof -
  have run: "AssignPodIPv4Address now pod ds = assign_from_enis pod now (eniIPPools ds) ds"
    using assms(4) by (simp add: AssignPodIPv4Address_def assignPodIPv4AddressUnsafe_def)
  obtain ek0 eni0 a0 where on: "map_of (eniIPPools ds) ek0 = Some eni0" "map_of (IPv4Addresses eni0) (IP pod) = Some a0"
    using assms(3) by (auto simp: onNode_def)
  have a0: "Address a0 = IP pod"
    using eni_ok_mem[OF ds_inv_eni_ok[OF assms(1) on(1)] map_of_SomeD[OF on(2)]] by simp
  have "assign_from_enis pod now (eniIPPools ds) ds \<noteq> (Err e, ds')" for e ds'
  proof
    assume "assign_from_enis pod now (eniIPPools ds) ds = (Err e, ds')"
    from assign_from_enis_Err[OF this] have "\<not> eligible pod now a0"
      using on[THEN map_of_SomeD] assms(2) by (auto simp: skipped_def)
    with a0 show False by (simp add: eligible_def)
  qed
  then obtain ip dev ds' where v: "assign_from_enis pod now (eniIPPools ds) ds = (Val (ip, dev), ds')"
    using assign_from_enis_no_panic[of pod now "eniIPPools ds" ds] by (metis res.exhaust surj_pair)
  from assign_from_enis_Val[OF v] obtain ek eni ak a where t: "(ek, eni) \<in> set (eniIPPools ds)" "(ak, a) \<in> set (IPv4Addresses eni)"
      "eligible pod now a" "ip = Address a" "ds' = take_addr pod ek eni ak a ds" by blast
  have e: "map_of (eniIPPools ds) ek = Some eni" using ds_inv_mem[OF assms(1) t(1)] .
  have a: "map_of (IPv4Addresses eni) ak = Some a" "ak = Address a" using eni_ok_mem[OF ds_inv_eni_ok[OF assms(1) e] t(2)] by auto
  have ip: "Address a = IP pod" using t(3) assms(2) by (auto simp: eligible_def)
  have "heldBy pod (take_addr pod ek eni (IP pod) a ds)"
    using e a ip unfolding heldBy_def
    by (intro exI[of _ ek]) (auto simp: take_addr_def Let_def map_of_map_entry map_of_update)
  with v run t(4,5) a(2) ip show thesis by (auto intro: that)
qed

section \<open>Recovering the pods\<close>

text \<open>The pods whose addresses the daemon takes back.\<close>

definition running :: "K8SPodInfo \<Rightarrow> bool" where
  "running pod \<longleftrightarrow> Container pod \<noteq> '''' \<and> IP pod \<noteq> ''''"

lemma assign_unknown_address:
  assumes "ds_inv ds" "IP pod \<noteq> ''''" "\<not> onNode ds (IP pod)" "map_of (podsIP ds) (podKey pod) = None"
  shows "snd (AssignPodIPv4Address now pod ds) = ds"
proof -
  have run: "AssignPodIPv4Address now pod ds = assign_from_enis pod now (eniIPPools ds) ds"
    using assms(4) by (simp add: AssignPodIPv4Address_def assignPodIPv4AddressUnsafe_def)
  have "assign_from_enis pod now (eniIPPools ds) ds \<noteq> (Val (ip, dev), ds')" for ip dev ds'
  proof
    assume "assign_from_enis pod now (eniIPPools ds) ds = (Val (ip, dev), ds')"
    from assign_from_enis_Val[OF this] obtain ek eni ak a where "(ek, eni) \<in> set (eniIPPools ds)"
      "(ak, a) \<in> set (IPv4Addresses eni)" "IP pod = Address a" using assms(2) by (auto simp: eligible_def)
    then have "onNode ds (IP pod)" unfolding onNode_def
      by (metis assms(1) ds_inv_mem ds_inv_eni_ok eni_ok_mem option.distinct(1))
    with assms(3) show False by simp
  qed
  then obtain e ds' where "assign_from_enis pod now (eniIPPools ds) ds = (Err e, ds')"
    using assign_from_enis_no_panic[of pod now "eniIPPools ds" ds] by (metis res.exhaust surj_pair)
  with assign_from_enis_Err[OF this] run show ?thesis by simp
qed

lemma recoverPod_store:
  assumes "recoverPod api rules p c = (Val (), c')"
  shows "dataStore c' = (if running p then snd (AssignPodIPv4Address (t_Now api (ienv c)) p (dataStore c)) else dataStore c)"
  using assms AssignPod_no_panic[of "t_Now api (ienv c)" p "dataStore c"]
  by (auto simp: recoverPod_def running_def nowG_def go_simps ignoreG_def bindG_def tryG_def dsG_run envG_def zoomG_def
      getG_def retG_def split: res.splits prod.splits if_splits)

definition recovering :: "K8SPodInfo list \<Rightarrow> DataStore \<Rightarrow> bool" where
  "recovering ps ds \<longleftrightarrow> ds_inv ds \<and> dom (map_of (podsIP ds)) \<subseteq> podKey ` set (filter running ps) \<and>
     (\<forall>p \<in> set ps. running p \<and> onNode ds (IP p) \<longrightarrow> heldBy p ds)"

lemma recovering_step:
  assumes "recovering ps ds" "running p" "podKey p \<notin> podKey ` set ps"
  shows "recovering (ps @ [p]) (snd (AssignPodIPv4Address now p ds))"
proof -
  have inv: "ds_inv ds" and new: "map_of (podsIP ds) (podKey p) = None" and ip: "IP p \<noteq> ''''"
    using assms by (fastforce simp: recovering_def running_def)+
  show ?thesis
  proof (cases "onNode ds (IP p)")
    case False
    from assign_unknown_address[OF inv ip False new] assms(1) False show ?thesis
      by (auto simp: recovering_def)
  next
    case True
    obtain ek eni a dev where r: "AssignPodIPv4Address now p ds = (Val (IP p, dev), take_addr p ek eni (IP p) a ds)"
      "heldBy p (take_addr p ek eni (IP p) a ds)" by (rule assign_named[OF inv ip True new])
    have "ds_inv (take_addr p ek eni (IP p) a ds)" using ds_inv_AssignPodIPv4Address[OF inv, of now p] r(1) by simp
    moreover have "heldBy q (take_addr p ek eni (IP p) a ds)" if "q \<in> set ps" "running q" "onNode ds (IP q)" for q
      using that assms(1,3) by (intro heldBy_take_addr) (auto simp: recovering_def, metis image_eqI)
    moreover have "dom (map_of (podsIP (take_addr p ek eni (IP p) a ds))) \<subseteq> podKey ` set (filter running (ps @ [p]))"
      using assms(1,2) by (auto simp: recovering_def map_of_update split: if_splits)
    ultimately show ?thesis
      unfolding r(1) snd_conv recovering_def using r(2) by auto
  qed
qed

lemma recover_loop:
  assumes "forG ps (recoverPod api rules) c = (Val (), c')" "recovering qs (dataStore c)" "distinct (map podKey (qs @ ps))"
  shows "recovering (qs @ ps) (dataStore c')"
  using assms
proof (induction ps arbitrary: qs c)
  case Nil
  then show ?case by (simp add: retG_def)
next
  case (Cons p ps)
  obtain c1 where r: "recoverPod api rules p c = (Val (), c1)" "forG ps (recoverPod api rules) c1 = (Val (), c')"
    using Cons.prems(1) by (auto elim: bindG_Val)
  have "recovering (qs @ [p]) (dataStore c1)"
  proof (cases "running p")
    case True
    with recovering_step[OF Cons.prems(2) True] recoverPod_store[OF r(1)] Cons.prems(3) show ?thesis by auto
  next
    case False
    with recoverPod_store[OF r(1)] Cons.prems(2) show ?thesis by (auto simp: recovering_def)
  qed
  from Cons.IH[OF r(2) this] Cons.prems(3) show ?case by simp
qed


section \<open>Start\<close>

text \<open>No pod is recorded and no address in use.\<close>

definition noPods :: "DataStore \<Rightarrow> bool" where
  "noPods ds \<longleftrightarrow> ds_inv ds \<and> podsIP ds = [] \<and> assigned ds = 0"

interpretation fresh: add_client noPods
  unfolding noPods_def
  by unfold_locales
     (auto simp: ds_inv_AddENI ds_inv_AddIPv4AddressFromStore, auto simp: AddENI_def AddIPv4AddressFromStore_def Let_def split: option.split)

lemma local_pods_const:
  assumes "\<And>e. fst (k_K8SGetLocalPodIPs api e) = Val pods"
  shows "fst (getLocalPodsWithRetry api c) = Val pods"
proof -
  have "fst (local_pods_loop (Suc n) api prev c) = Val (Inr pods)" for n prev c
  proof (induction n arbitrary: prev c)
    case 0
    obtain e' where "k_K8SGetLocalPodIPs api (ienv c) = (Val pods, e')" using assms[of "ienv c"] by (metis prod.collapse)
    then show ?case by (simp add: bindG_tryG_run envG_def zoomG_def sleepG_def go_simps retG_def)
  next
    case (Suc n)
    obtain e' where "k_K8SGetLocalPodIPs api (ienv c) = (Val pods, e')" using assms[of "ienv c"] by (metis prod.collapse)
    with Suc.IH show ?case
      by (subst local_pods_loop.simps) (simp add: bindG_tryG_run envG_def zoomG_def sleepG_def go_simps retG_def del: local_pods_loop.simps)
  qed
  from this[of 4 "Inr []" c] obtain c' where "local_pods_loop maxK8SRetries api (Inr []) c = (Val (Inr pods), c')"
    unfolding maxK8SRetries_def numeral_nat by (metis prod.collapse)
  then show ?thesis by (simp add: getLocalPodsWithRetry_def bindG_run retG_def)
qed

lemma nodeInit_phases:
  assumes "nodeInit api c0 = (Val (), c)" "\<And>e. fst (k_K8SGetLocalPodIPs api e) = Val pods"
  obtains c1 where "noPods (dataStore c1)"
    and "bindG (tryG (envG (n_GetRuleList api))) (\<lambda>rl.
      case rl of Inl _ \<Rightarrow> retG () | Inr rules \<Rightarrow> forG pods (recoverPod api rules)) c1 = (Val (), c)"
proof -
  obtain enis c2 c3 c4 c5 used where
    new: "modG (\<lambda>c. c\<lparr>dataStore := NewDataStore\<rparr>) c2 = (Val (), c3)"
    and setup_all: "forG enis (setup_retry maxRetryCheckENI api) c3 = (Val (), c4)"
    and pods: "getLocalPodsWithRetry api c4 = (Val used, c5)"
    and rules: "bindG (tryG (envG (n_GetRuleList api))) (\<lambda>rl.
      case rl of Inl _ \<Rightarrow> retG () | Inr rules \<Rightarrow> forG used (recoverPod api rules)) c5 = (Val (), c)"
    using assms(1) unfolding nodeInit_def
    by (auto elim!: bindG_Val simp: errG_def wrapG_Val bindG_run split: sum.splits)
  have "noPods NewDataStore" using ds_inv_NewDataStore by (simp add: noPods_def NewDataStore_def)
  then have "on_store noPods c3" using new by (auto simp: modG_def)
  then have "on_store noPods c4"
    using keepsD[OF keeps_forG[OF fresh.keep_setup_retry], of c3 enis "\<lambda>_. maxRetryCheckENI" "\<lambda>_. api" "\<lambda>x. x"] setup_all by simp
  then have "on_store noPods c5" using keepsD[OF fresh.keep_local_pods, of c4 api] pods by simp
  moreover have "used = pods" using local_pods_const[of api pods c4] assms(2) pods by simp
  ultimately show thesis using rules that[of c5] by blast
qed

lemma ipamdNew_nodeInit:
  assumes "ipamdNew api e = (Val (), c)"
  obtains c0 where "nodeInit api c0 = (Val (), c)"
  using assms unfolding ipamdNew_def by (auto elim!: bindG_Val)

lemma start_recovering:
  assumes "ipamdNew api e = (Val (), c)" "\<And>e. fst (k_K8SGetLocalPodIPs api e) = Val pods" "distinct (map podKey pods)"
    and "\<And>e. \<exists>rs. fst (n_GetRuleList api e) = Val rs"
  shows "recovering pods (dataStore c)"
proof -
  obtain c1 where c1: "noPods (dataStore c1)" "bindG (tryG (envG (n_GetRuleList api))) (\<lambda>rl.
      case rl of Inl _ \<Rightarrow> retG () | Inr rules \<Rightarrow> forG pods (recoverPod api rules)) c1 = (Val (), c)"
    using ipamdNew_nodeInit[OF assms(1)] nodeInit_phases[OF _ assms(2)] by metis
  obtain rs e' where "n_GetRuleList api (ienv c1) = (Val rs, e')" using assms(4)[of "ienv c1"] by (metis prod.collapse)
  then have "forG pods (recoverPod api rs) (c1\<lparr>ienv := e'\<rparr>) = (Val (), c)"
    using c1(2) by (simp add: bindG_tryG_run envG_def zoomG_def)
  moreover have "recovering [] (dataStore (c1\<lparr>ienv := e'\<rparr>))" using c1(1) by (simp add: recovering_def noPods_def)
  ultimately show ?thesis using recover_loop[of pods api rs _ c "[]"] assms(3) by simp
qed

lemma start_noPods:
  assumes "ipamdNew api e = (Val (), c)" "\<And>e. fst (k_K8SGetLocalPodIPs api e) = Val pods"
    and "pods = [] \<or> (\<forall>e. \<exists>err. fst (n_GetRuleList api e) = Err err)"
  shows "noPods (dataStore c)"
proof -
  obtain c1 where c1: "noPods (dataStore c1)" "bindG (tryG (envG (n_GetRuleList api))) (\<lambda>rl.
      case rl of Inl _ \<Rightarrow> retG () | Inr rules \<Rightarrow> forG pods (recoverPod api rules)) c1 = (Val (), c)"
    using ipamdNew_nodeInit[OF assms(1)] nodeInit_phases[OF _ assms(2)] by metis
  obtain r e' where r: "n_GetRuleList api (ienv c1) = (r, e')" by fastforce
  have "dataStore c = dataStore c1"
    using c1(2) r assms(3) by (cases r) (auto simp: bindG_tryG_run envG_def zoomG_def retG_def, metis fst_conv res.distinct(1))
  with c1(1) show ?thesis by simp
qed

lemma noPods_free:
  assumes "noPods ds" "s_addr (ds_abs ds) ek ip = Some a"
  shows "\<not> Assigned a"
proof
  assume "Assigned a"
  obtain p where p: "map_of (eniIPPools ds) ek = Some p" "map_of (IPv4Addresses p) ip = Some a" using assms(2) s_addr_iff by blast
  have inv: "ds_inv ds" using assms(1) by (simp add: noPods_def)
  have pools: "eni_ok k q" if "(k, q) \<in> set (eniIPPools ds)" for k q
    by (rule ds_inv_eni_ok[OF inv ds_inv_mem[OF inv that]])
  have sum: "msum AssignedIPv4Addresses (eniIPPools ds) = 0"
    using assms(1) by (simp add: noPods_def ds_inv_def pools_inv_def)
  have "1 \<le> assignedIn p"
    using msum_member_le[of "IPv4Addresses p" "\<lambda>a. if Assigned a then 1 else 0", OF _ map_of_SomeD[OF p(2)]] \<open>Assigned a\<close>
    by (simp add: assignedIn_def)
  moreover have "AssignedIPv4Addresses p \<le> msum AssignedIPv4Addresses (eniIPPools ds)"
    using pools assignedIn_bounds by (intro msum_member_le[OF _ map_of_SomeD[OF p(1)]]) (auto simp: eni_ok_def)
  ultimately show False using pools[OF map_of_SomeD[OF p(1)]] sum by (simp add: eni_ok_def)
qed

text \<open>With each address on one ENI, an address that a pod holds is not given to another.\<close>

lemma held_address_not_given:
  assumes "ds_inv (dataStore c)" "heldBy pod (dataStore c)" "addr_unique (ds_abs (dataStore c))" "IP pod \<noteq> ''''"
    and "AddNetwork api req c = (Val r, c')" "Success r"
  shows "IPv4Addr r \<noteq> IP pod"
proof
  let ?p = "cniPod (addKey req)" and ?now = "t_Now api (ienv c)"
  assume eq: "IPv4Addr r = IP pod"
  obtain x ds' where a: "AssignPodIPv4Address ?now ?p (dataStore c) = (x, ds')" by fastforce
  obtain dev where v: "AssignPodIPv4Address ?now ?p (dataStore c) = (Val (IP pod, dev), ds')"
    using AddNetwork_run[OF a] assms(5,6) eq a by (cases x) auto
  have new: "map_of (podsIP (dataStore c)) (podKey ?p) = None"
    using v by (auto simp: AssignPodIPv4Address_def split: option.splits)
  obtain ek eni b where b: "map_of (eniIPPools (dataStore c)) ek = Some eni" "map_of (IPv4Addresses eni) (IP pod) = Some b"
    "Address b = IP pod" "eligible ?p ?now b"
    using AssignPodIPv4Address_Val[OF assms(1) v new] by metis
  obtain ek' eni' b' where b': "map_of (eniIPPools (dataStore c)) ek' = Some eni'" "map_of (IPv4Addresses eni') (IP pod) = Some b'"
    "Assigned b'" using assms(2) by (auto simp: heldBy_def)
  have "ek = ek'" using assms(3) b(1,2) b'(1,2) unfolding addr_unique_def s_addr_iff by blast
  with b b' have "Assigned b" by simp
  with b(3,4) assms(4) show False by (simp add: eligible_def)
qed


section \<open>Releasing and forgetting\<close>

text \<open>
  C37: a pod that was recovered cannot return its address.  The pod controller reports the ID of a container of the pod,
  in the form \<^verbatim>\<open>docker://<id>\<close>, and the store records the pod under it; the plugin's request carries the ID of the pod's sandbox,
  and the daemon's second attempt no container at all.  Unless the two IDs are equal, \<^verbatim>\<open>DelNetwork\<close> answers
  without success and changes nothing: the address stays assigned.
\<close>

theorem recovered_pod_cannot_release:
  assumes "ipamdNew api e = (Val (), c)"
    and "\<And>e. fst (k_K8SGetLocalPodIPs api e) = Val pods" "distinct (map podKey pods)"
    and "\<And>e. \<exists>rs. fst (n_GetRuleList api e) = Val rs"
    and "pod \<in> set pods" "Container pod \<noteq> ''''" "IP pod \<noteq> ''''" "onNode (dataStore c) (IP pod)"
    and "\<And>p. p \<in> set pods \<Longrightarrow> Name p = Name pod \<Longrightarrow> Namespace p = Namespace pod \<Longrightarrow> p = pod"
    and "dr_PodName req = Name pod" "dr_PodNamespace req = Namespace pod" "dr_ContainerID req \<noteq> Container pod"
  shows "\<exists>r. DelNetwork api req c = (Val r, c) \<and> \<not> dp_Success r \<and> heldBy pod (dataStore c)"
proof -
  have rec: "recovering pods (dataStore c)" using start_recovering[OF assms(1-4)] .
  have dom: "map_of (podsIP (dataStore c)) k = None" if "k \<in> {delKey req, nameKey req}" for k
  proof (rule ccontr)
    assume "map_of (podsIP (dataStore c)) k \<noteq> None"
    then obtain p where p: "p \<in> set pods" "running p" "podKey p = k" using rec by (force simp: recovering_def)
    then have "p = pod" using assms(9-11) that by (auto simp: podKey_def delKey_def nameKey_def)
    with p(2,3) that assms(12) show False by (auto simp: podKey_def delKey_def nameKey_def running_def)
  qed
  have "UnassignPodIPv4Address now (cniPod k) (dataStore c) = (Err ErrUnknownPod, dataStore c)"
    if "k \<in> {delKey req, nameKey req}" for k now
    using dom[OF that] by (simp add: UnassignPodIPv4Address_def)
  then show ?thesis
    using DelNetwork_run[of api c req "Err ErrUnknownPod" "dataStore c" "Err ErrUnknownPod" "dataStore c"] rec assms(5-8)
    by (auto simp: recovering_def running_def)
qed

text \<open>
  C38: the pod controller calls itself synced once its informer has read all pods, before its worker has handled any.
  If the daemon starts in between, it is told that there are no pods: for every pod there is a
  run of the controller in which the pod is in the informer's store, and a daemon that starts on the controller's answer
  records no pod and takes every address of the node for free, the pod's too.
\<close>

theorem early_start_forgets_pods:
  "\<exists>s. discRun (\<lambda>_. True) (discInit env) s \<and> informer s = InfIdle \<and> synced (ctl s) \<and>
    store s (MetaNamespaceKeyFunc pod) = Some (PodObj pod) \<and> K8SGetLocalPodIPs (ctl s) = Val [] \<and>
    (\<forall>(api :: ('e, 'r) IpamAPI) e c. (\<forall>e. fst (k_K8SGetLocalPodIPs api e) = K8SGetLocalPodIPs (ctl s)) \<and> ipamdNew api e = (Val (), c) \<longrightarrow>
       podsIP (dataStore c) = [] \<and>
       (\<forall>ek ip a. s_addr (ds_abs (dataStore c)) ek ip = Some a \<longrightarrow> \<not> Assigned a))"
proof -
  let ?k = "MetaNamespaceKeyFunc pod" and ?s0 = "discInit env"
  let ?s1 = "?s0\<lparr>store := (store ?s0)(?k \<mapsto> PodObj pod), informer := InfNotify ?k\<rparr>"
  let ?s2 = "?s1\<lparr>wq := wqAdd ?k (wq ?s1), informer := InfIdle\<rparr>"
  let ?s3 = "?s2\<lparr>ctl := (ctl ?s2)\<lparr>synced := True\<rparr>\<rparr>"
  have 1: "discStep ?s0 ?s1" by (intro discStep.stored) (simp_all add: discInit_def)
  have 2: "discStep ?s1 ?s2" using discStep.notify[of ?s1 ?k] by simp
  have 3: "discStep ?s2 ?s3" by (rule discStep.sync)
  note st = discRun.step[where ok = "\<lambda>_. True", OF _ _ TrueI]
  have run: "discRun (\<lambda>_. True) ?s0 ?s3" by (rule st[OF st[OF st[OF discRun.start 1] 2] 3])
  have none: "K8SGetLocalPodIPs (ctl ?s3) = Val []"
    by (simp add: K8SGetLocalPodIPs_def discInit_def NewController_def)
  have "podsIP (dataStore c) = [] \<and> (\<forall>ek ip a. s_addr (ds_abs (dataStore c)) ek ip = Some a \<longrightarrow> \<not> Assigned a)"
    if "\<forall>e. fst (k_K8SGetLocalPodIPs api e) = K8SGetLocalPodIPs (ctl ?s3)" "ipamdNew api e = (Val (), c)"
    for api :: "('e, 'r) IpamAPI" and e c
  proof -
    have "noPods (dataStore c)" using start_noPods[OF that(2), of "[]"] that(1) none by simp
    then show ?thesis using noPods_free by (auto simp: noPods_def)
  qed
  note free = this
  show ?thesis using run none by (intro exI[of _ ?s3] conjI allI impI) (simp_all, use free in auto)
qed

section \<open>Witnesses\<close>

definition demoPod :: K8SPodInfo where
  "demoPod = \<lparr>Name = ''web'', Namespace = ''default'', Container = ''docker://4f'', IP = ''10.0.1.3'', UID = ''u1''\<rparr>"

definition demoAPI :: "(time, unit) IpamAPI" where
  "demoAPI = (sim_ipam True)\<lparr>k_K8SGetLocalPodIPs := retG [demoPod]\<rparr>"

definition demoStart :: "time ipam" where
  "demoStart = snd (ipamdNew demoAPI (1000 * second))"

definition demoDel :: DelNetworkRequest where
  "demoDel = \<lparr>dr_PodName = ''web'', dr_PodNamespace = ''default'', dr_ContainerID = ''9c'', dr_IPv4Addr = ''10.0.1.3'', dr_Reason = ''PodDeleted''\<rparr>"

lemma demo_runs: "ipamdNew demoAPI (1000 * second) = (Val (), demoStart)"
proof -
  have "fst (ipamdNew demoAPI (1000 * second)) = Val ()" by code_simp
  then show ?thesis by (simp add: demoStart_def prod_eq_iff)
qed

lemma demo_pools:
  "map (\<lambda>(k, p). (k, mkeys (IPv4Addresses p))) (eniIPPools (dataStore demoStart)) =
     [(''eni-1'', [''10.0.0.2'', ''10.0.0.3'']), (''eni-2'', [''10.0.1.2'', ''10.0.1.3''])]"
  by code_simp

lemma demo_api:
  "fst (k_K8SGetLocalPodIPs demoAPI e) = Val [demoPod]" "\<exists>rs. fst (n_GetRuleList demoAPI e) = Val rs"
  by (simp_all add: demoAPI_def sim_ipam_def retG_def)

lemma demo_onNode: "onNode (dataStore demoStart) (IP demoPod)"
proof -
  have "case map_of (eniIPPools (dataStore demoStart)) ''eni-2'' of None \<Rightarrow> False
    | Some p \<Rightarrow> map_of (IPv4Addresses p) ''10.0.1.3'' \<noteq> None" by code_simp
  then show ?thesis by (auto simp: onNode_def demoPod_def split: option.splits)
qed

lemma demo_unique: "addr_unique (ds_abs (dataStore demoStart))"
proof -
  obtain p q where pq: "eniIPPools (dataStore demoStart) = [(''eni-1'', p), (''eni-2'', q)]"
    "mkeys (IPv4Addresses p) = [''10.0.0.2'', ''10.0.0.3'']" "mkeys (IPv4Addresses q) = [''10.0.1.2'', ''10.0.1.3'']"
    using demo_pools by (auto simp: map_eq_Cons_conv split: prod.splits)
  have "ip \<in> {''10.0.0.2'', ''10.0.0.3''}" if "map_of (IPv4Addresses p) ip = Some a" for ip a
    using that pq(2) set_mkeys[of "IPv4Addresses p"] by auto
  moreover have "ip \<in> {''10.0.1.2'', ''10.0.1.3''}" if "map_of (IPv4Addresses q) ip = Some a" for ip a
    using that pq(3) set_mkeys[of "IPv4Addresses q"] by auto
  ultimately have "ek = ''eni-1'' \<and> ip \<in> {''10.0.0.2'', ''10.0.0.3''} \<or> ek = ''eni-2'' \<and> ip \<in> {''10.0.1.2'', ''10.0.1.3''}"
    if "s_addr (ds_abs (dataStore demoStart)) ek ip = Some a" for ek ip a
    using that unfolding s_addr_iff pq(1) map_of.simps by (metis (no_types, lifting) fst_conv fun_upd_apply option.distinct(1) option.sel snd_conv)
  note places = this
  show ?thesis unfolding addr_unique_def by (auto dest!: places)
qed

definition demoAdd :: AddNetworkRequest where
  "demoAdd = \<lparr>ar_PodName = ''db'', ar_PodNamespace = ''default'', ar_ContainerID = ''7a'', ar_Netns = ''/proc/7/ns/net'', ar_IfName = ''eth0''\<rparr>"


theorem recovered_pod_cannot_release_witness:
  "\<exists>r. DelNetwork demoAPI demoDel demoStart = (Val r, demoStart) \<and> \<not> dp_Success r \<and> heldBy demoPod (dataStore demoStart)"
proof -
  have "distinct (map podKey [demoPod])" "demoPod \<in> set [demoPod]" "Container demoPod \<noteq> ''''" "IP demoPod \<noteq> ''''"
    by (simp_all add: demoPod_def)
  from recovered_pod_cannot_release[OF demo_runs demo_api(1) this(1) demo_api(2) this(2-4) demo_onNode, of demoDel]
  show ?thesis by (simp add: demoPod_def demoDel_def)
qed

theorem early_start_forgets_pods_witness:
  "\<exists>s. discRun (\<lambda>_. True) (discInit (\<lambda>_. ''node'')) s \<and> synced (ctl s) \<and>
     store s ''default/web'' = Some (PodObj \<lparr>pod_Name = ''web'', pod_Namespace = ''default'', pod_UID = ''u1'', pod_NodeName = ''node'',
       pod_HostNetwork = False, pod_ContainerIDs = [''docker://4f''], pod_PodIP = ''10.0.1.3''\<rparr>) \<and>
     (let api = (sim_ipam True)\<lparr>k_K8SGetLocalPodIPs := resG (K8SGetLocalPodIPs (ctl s))\<rparr>; r = ipamdNew api (1000 * second) in
        fst r = Val () \<and> podsIP (dataStore (snd r)) = [])"
proof -
  let ?pod = "\<lparr>pod_Name = ''web'', pod_Namespace = ''default'', pod_UID = ''u1'', pod_NodeName = ''node'',
       pod_HostNetwork = False, pod_ContainerIDs = [''docker://4f''], pod_PodIP = ''10.0.1.3''\<rparr>"
  let ?api = "(sim_ipam True)\<lparr>k_K8SGetLocalPodIPs := resG (Val [])\<rparr>"
  obtain s where s: "discRun (\<lambda>_. True) (discInit (\<lambda>_. ''node'')) s" "synced (ctl s)"
    "store s (MetaNamespaceKeyFunc ?pod) = Some (PodObj ?pod)" "K8SGetLocalPodIPs (ctl s) = Val []"
    "\<And>(api :: (time, unit) IpamAPI) e c. (\<forall>e. fst (k_K8SGetLocalPodIPs api e) = K8SGetLocalPodIPs (ctl s)) \<Longrightarrow>
       ipamdNew api e = (Val (), c) \<Longrightarrow> podsIP (dataStore c) = []"
    using early_start_forgets_pods[where pod = ?pod and env = "\<lambda>_. ''node''" and 'e = time and 'r = unit] by blast
  have v: "fst (ipamdNew ?api (1000 * second)) = Val ()" by code_simp
  have "podsIP (dataStore (snd (ipamdNew ?api (1000 * second)))) = []"
    by (rule s(5)[of ?api "1000 * second"]) (use s(4) v in \<open>auto simp: resG_def prod_eq_iff\<close>)
  with s v show ?thesis by (intro exI[of _ s]) (simp add: Let_def MetaNamespaceKeyFunc_def)
qed

end
