(* ===== verification/RestartRules.thy ===== *)
theory RestartRules
  imports Restart DriverProps
begin

text \<open>
  The daemon on the real network client: the interface \<^verbatim>\<open>networkutils.NetworkAPIs\<close> that \<^verbatim>\<open>ipamd.go\<close> calls, filled
  with the operations of \<^verbatim>\<open>network.go\<close>, and what a restart does to the policy rules of the pods that are running.
  The locale \<open>env_client\<close> says which calls the daemon's start makes before it reads the rules.
\<close>

section \<open>The daemon's interface, provided by the network client\<close>

definition netW :: "('n, 'a) go \<Rightarrow> ('e \<times> 'n, 'a) go" where
  "netW m = zoomG snd (\<lambda>n w. (fst w, n)) m"

definition withNet :: "'n NetAPI \<Rightarrow> linuxNetwork \<Rightarrow> ('e \<times> 'n, Rule) IpamAPI \<Rightarrow> ('e \<times> 'n, Rule) IpamAPI" where
  "withNet net n api = api\<lparr>
     n_SetupHostNetwork := (\<lambda>vpcCIDR vpcCIDRs primaryMAC primaryAddr.
       netW (SetupHostNetwork net n vpcCIDR vpcCIDRs primaryMAC primaryAddr)),
     n_SetupENINetwork := (\<lambda>eniIP mac table subnetCIDR. netW (SetupENINetwork net eniIP mac table subnetCIDR)),
     n_UseExternalSNAT := UseExternalSNAT net \<circ> snd,
     n_GetExcludeSNATCIDRs := GetExcludeSNATCIDRs net \<circ> snd,
     n_GetRuleList := netW (GetRuleList net),
     n_UpdateRuleListBySrc := (\<lambda>ruleList src toCIDRs toFlag.
       netW (UpdateRuleListBySrc net n ruleList src toCIDRs toFlag))\<rparr>"

lemma netW_run: "netW m (e, n) = (fst (m n), (e, snd (m n)))"
  by (simp add: netW_def zoomG_def split: prod.split)

lemma keeps_netW: "keeps P m \<Longrightarrow> keeps (\<lambda>w. P (snd w)) (netW m)"
  by (auto simp: keeps_def netW_run)

section \<open>What the network client relies on\<close>

text \<open>
  \<open>rules e\<close> is the set of policy rules of the host: requests to add and to delete behave as for the driver, the
  other calls leave the rules alone, and none changes the process environment.
\<close>

definition leaves :: "('n \<Rightarrow> 'x) \<Rightarrow> ('n, 'a) go \<Rightarrow> bool" where
  "leaves f m \<longleftrightarrow> (\<forall>e. f (snd (m e)) = f e)"

definition net_laws :: "'n NetAPI \<Rightarrow> ('n \<Rightarrow> Rule set) \<Rightarrow> bool" where
  "net_laws net rules \<longleftrightarrow>
     NewRule net = emptyRule \<and> (\<forall>r e. add_law net rules r e) \<and> (\<forall>r e. del_law net rules r e) \<and>
     leaves rules (RuleList net) \<and> (\<forall>e rs. fst (RuleList net e) = Val rs \<longrightarrow> set rs = rules e) \<and>
     leaves rules (Interfaces net) \<and> (\<forall>f. leaves rules (OpenFile net f)) \<and>
     (\<forall>f s. leaves rules (WriteString net f s)) \<and> (\<forall>f. leaves rules (CloseFile net f)) \<and>
     leaves rules (newIptables net) \<and> (\<forall>t c r. leaves rules (ipt_Exists net t c r)) \<and>
     (\<forall>t c r. leaves rules (ipt_Append net t c r)) \<and> (\<forall>t c r. leaves rules (ipt_Delete net t c r)) \<and>
     (\<forall>t c. leaves rules (ipt_List net t c)) \<and> (\<forall>t c. leaves rules (ipt_NewChain net t c)) \<and>
     (\<forall>t. leaves rules (ipt_ListChains net t)) \<and> leaves rules (LinkList net) \<and>
     (\<forall>l m. leaves rules (LinkSetMTU net l m)) \<and> (\<forall>l. leaves rules (LinkSetUp net l)) \<and>
     (\<forall>l. leaves rules (AddrList net l)) \<and> (\<forall>l a. leaves rules (AddrDel net l a)) \<and>
     (\<forall>l a k. leaves rules (AddrAdd net l a k)) \<and> (\<forall>r. leaves rules (RouteDel net r)) \<and>
     (\<forall>r. leaves rules (RouteAdd net r)) \<and> (\<forall>r. leaves rules (RouteReplace net r)) \<and>
     (\<forall>d e. rules (nSleep net d e) = rules e) \<and> (\<forall>v e e'. nGetenv net v e = nGetenv net v e')"

text \<open>The rules of one pod.\<close>

definition podHas :: "('n \<Rightarrow> Rule set) \<Rightarrow> 32 word \<Rightarrow> Rule set \<Rightarrow> 'n \<Rightarrow> bool" where
  "podHas rules a W e \<longleftrightarrow> rules e \<inter> podRules a = W"

text \<open>Rules that belong to the pod alone: no request for the host or for another pod deletes them.\<close>

definition ownRules :: "32 word \<Rightarrow> Rule set \<Rightarrow> bool" where
  "ownRules a W \<longleftrightarrow> (\<forall>x \<in> W. r_Priority x \<noteq> hostRulePriority \<and> (r_Src x = None \<or> podSrc a x))"

lemma wantedRules_own:
  assumes "\<forall>c \<in> set cidrs. \<exists>y. ParseCIDR c = Val y"
  shows "ownRules a (wantedRules a table cidrs ext)"
  unfolding ownRules_def hostRulePriority_def
  by (auto simp: wantedRules_def podSrc_def ofPod_def ipEqual_def To4_def emptyRule_def)

lemma keeps_allowG [keeps_intros]: "keeps I m \<Longrightarrow> keeps I (allowG ok msg m)"
  unfolding allowG_def by (intro keeps_intros)

lemma keeps_leaves: "leaves rules m \<Longrightarrow> keeps (podHas rules a W) m"
  by (simp add: leaves_def keeps_def podHas_def)

lemma keeps_RuleAdd:
  assumes "net_laws net rules" "r \<notin> podRules a"
  shows "keeps (podHas rules a W) (RuleAdd net r)"
proof (rule keepsI)
  fix e assume "podHas rules a W e"
  moreover have "add_law net rules r e" using assms(1) by (simp add: net_laws_def)
  ultimately show "podHas rules a W (snd (RuleAdd net r e))"
    using assms(2) by (auto simp: add_law_def podHas_def split: prod.splits res.splits)
qed

lemma keeps_RuleDel:
  assumes "net_laws net rules" "\<And>x. x \<in> W \<Longrightarrow> \<not> rule_matches r x"
  shows "keeps (podHas rules a W) (RuleDel net r)"
proof (rule keepsI)
  fix e assume "podHas rules a W e"
  moreover have "del_law net rules r e" using assms(1) by (simp add: net_laws_def)
  ultimately show "podHas rules a W (snd (RuleDel net r e))"
    using assms(2) by (auto simp: del_law_def podHas_def split: prod.splits res.splits)
qed

lemma net_frames:
  assumes "net_laws net rules"
  shows "keeps (podHas rules a W) (RuleList net)" "keeps (podHas rules a W) (Interfaces net)"
    "keeps (podHas rules a W) (OpenFile net f)" "keeps (podHas rules a W) (WriteString net f s)"
    "keeps (podHas rules a W) (CloseFile net f)" "keeps (podHas rules a W) (newIptables net)"
    "keeps (podHas rules a W) (ipt_Exists net t c r)" "keeps (podHas rules a W) (ipt_Append net t c r)"
    "keeps (podHas rules a W) (ipt_Delete net t c r)" "keeps (podHas rules a W) (ipt_List net t c)"
    "keeps (podHas rules a W) (ipt_NewChain net t c)" "keeps (podHas rules a W) (ipt_ListChains net t)"
    "keeps (podHas rules a W) (LinkList net)" "keeps (podHas rules a W) (LinkSetMTU net l m)"
    "keeps (podHas rules a W) (LinkSetUp net l)" "keeps (podHas rules a W) (AddrList net l)"
    "keeps (podHas rules a W) (AddrDel net l ad)" "keeps (podHas rules a W) (AddrAdd net l ip k)"
    "keeps (podHas rules a W) (RouteDel net rt)" "keeps (podHas rules a W) (RouteAdd net rt)"
    "keeps (podHas rules a W) (RouteReplace net rt)" "keeps (podHas rules a W) (modG (nSleep net d))"
  using assms unfolding net_laws_def by (simp_all add: keeps_leaves) (simp add: keeps_def modG_def podHas_def)

section \<open>The calls that leave a pod's rules alone\<close>

lemma keeps_SetupENINetwork:
  assumes "net_laws net rules"
  shows "keeps (podHas rules a W) (SetupENINetwork net eniIP mac table cidr)"
proof -
  note frames = keeps_intros net_frames[OF assms]
  have "keeps (podHas rules a W) (linkByMac_loop n k err mac net d)" for n k err d
    by (induction n arbitrary: k err) (auto intro!: frames)
  moreover have "keeps (podHas rules a W) (routeAdd_loop n r dst via net d)" for n r dst via d
    by (induction n) (subst routeAdd_loop.simps; auto intro!: frames)+
  ultimately show ?thesis
    unfolding SetupENINetwork_def setupENINetwork_def LinkByMac_def by (auto intro!: frames)
qed

lemma keeps_SetupHostNetwork:
  assumes "net_laws net rules" "ownRules a W"
  shows "keeps (podHas rules a W) (SetupHostNetwork net n vpc vpcs mac ip)"
proof -
  note frames = keeps_intros net_frames[OF assms(1)]
  have new: "NewRule net = emptyRule" using assms(1) by (simp add: net_laws_def)
  have del: "keeps (podHas rules a W) (RuleDel net r)" if "r_Priority r = hostRulePriority" for r
    using assms(2) that
    by (intro keeps_RuleDel[OF assms(1)]) (auto simp: ownRules_def rule_matches_def hostRulePriority_def)
  have add: "keeps (podHas rules a W) (RuleAdd net r)" if "r_Src r = None" "r_Dst r = None" for r
    using that by (intro keeps_RuleAdd[OF assms(1)]) (simp add: podRules_def podSrc_def)
  have "keeps (podHas rules a W) (list_chains_loop net cs)" for cs
    by (induction cs) (auto intro!: frames)
  then have "keeps (podHas rules a W) (listCurrentSNATRules net)"
    unfolding listCurrentSNATRules_def by (auto intro!: frames)
  then show ?thesis
    unfolding SetupHostNetwork_def Let_def findPrimaryInterfaceName_def setProcSys_def syncRule_def new
    by (auto intro!: frames del add simp: emptyRule_def)
qed

lemma ipEqual_V4: "ipEqual ip (Some (V4 a)) \<Longrightarrow> ipEqual ip src \<Longrightarrow> ipEqual src (Some (V4 a))"
  by (auto simp: ipEqual_def To4_def split: option.splits goIP.splits if_splits)

lemma keeps_update_other:
  assumes "net_laws net rules" "ownRules a W" "\<not> ipEqual src (Some (V4 a))"
  shows "keeps (podHas rules a W) (UpdateRuleListBySrc net n rs src cidrs snat)"
proof -
  have new: "NewRule net = emptyRule" using assms(1) by (simp add: net_laws_def)
  have del: "keeps (podHas rules a W) (RuleDel net r)" if "r \<in> set (GetRuleListBySrc rs src)" for r
  proof (rule keeps_RuleDel[OF assms(1)])
    fix x assume "x \<in> W"
    obtain ip k where ip: "r_Src r = Some (ip, k)" "ipEqual ip src"
      using \<open>r \<in> set (GetRuleListBySrc rs src)\<close> by (auto simp: GetRuleListBySrc_def split: option.splits prod.splits)
    then show "\<not> rule_matches r x"
      using assms(2,3) \<open>x \<in> W\<close> ipEqual_V4[of ip a src] by (auto simp: ownRules_def rule_matches_def podSrc_def)
  qed
  have add: "keeps (podHas rules a W) (RuleAdd net (podRule net src t dst))" for t dst
    using assms(3) by (intro keeps_RuleAdd[OF assms(1)])
      (auto simp: podRule_def podRules_def podSrc_def new fromPodRulePriority_def toContainerRulePriority_def)
  show ?thesis unfolding UpdateRuleListBySrc_def Let_def by (auto intro!: keeps_intros del add)
qed

section \<open>Rewriting a pod's rules\<close>

text \<open>The kernel refuses a request only for a reason: a rule to delete that is not there, a rule to add that is.\<close>

definition net_obeys :: "'n NetAPI \<Rightarrow> ('n \<Rightarrow> Rule set) \<Rightarrow> bool" where
  "net_obeys net rules \<longleftrightarrow>
     (\<forall>r e. case fst (RuleDel net r e) of Val _ \<Rightarrow> True | Err err \<Rightarrow> containsNoSuchRule err | Panic _ \<Rightarrow> False) \<and>
     (\<forall>r e. r \<notin> rules e \<longrightarrow> fst (RuleAdd net r e) = Val ())"

lemma delete_all:
  assumes "net_laws net rules" "net_obeys net rules"
    and "\<And>r x. r \<in> set xs \<Longrightarrow> x \<in> rules e \<Longrightarrow> rule_matches r x \<Longrightarrow> x = r"
  shows "\<exists>e'. forG xs (\<lambda>r. allowG containsNoSuchRule msg (RuleDel net r)) e = (Val (), e') \<and> rules e' = rules e - set xs"
  using assms(3)
proof (induction xs arbitrary: e)
  case Nil
  then show ?case by (simp add: retG_def)
next
  case (Cons r xs)
  obtain res e1 where d: "RuleDel net r e = (res, e1)" by fastforce
  have law: "del_law net rules r e" and ok: "case res of Val _ \<Rightarrow> True | Err err \<Rightarrow> containsNoSuchRule err | Panic _ \<Rightarrow> False"
    using assms(1,2) d by (simp_all add: net_laws_def net_obeys_def) (metis fst_conv)
  have "rule_matches r r" by (simp add: rule_matches_def)
  with law ok d Cons.prems have "rules e1 = rules e - {r}" by (auto simp: del_law_def split: res.splits)
  moreover from this Cons.IH[of e1] Cons.prems obtain e' where
    "forG xs (\<lambda>r. allowG containsNoSuchRule msg (RuleDel net r)) e1 = (Val (), e')" "rules e' = rules e1 - set xs" by auto
  moreover have "allowG containsNoSuchRule msg (RuleDel net r) e = (Val (), e1)"
    using d ok by (auto simp: allowG_def bindG_tryG_run retG_def split: res.splits)
  ultimately show ?case by (auto simp: bindG_run)
qed

lemma add_all:
  assumes "net_laws net rules" "net_obeys net rules" "distinct (map f cs)" "\<And>c. c \<in> set cs \<Longrightarrow> f c \<notin> rules e"
  shows "\<exists>e'. forG cs (\<lambda>c. wrapG (msg c) (RuleAdd net (f c))) e = (Val (), e') \<and> rules e' = f ` set cs \<union> rules e"
  using assms(3,4)
proof (induction cs arbitrary: e)
  case Nil
  then show ?case by (simp add: retG_def)
next
  case (Cons c cs)
  have "fst (RuleAdd net (f c) e) = Val ()" using assms(2) Cons.prems(2)[of c] by (simp add: net_obeys_def)
  then obtain e1 where a: "RuleAdd net (f c) e = (Val (), e1)" by (metis prod.collapse)
  moreover have "add_law net rules (f c) e" using assms(1) by (simp add: net_laws_def)
  ultimately have e1: "rules e1 = insert (f c) (rules e)" by (simp add: add_law_def)
  have "f d \<notin> rules e1" if "d \<in> set cs" for d
    using that Cons.prems(1) Cons.prems(2)[of d] e1 by (auto intro: rev_image_eqI)
  with Cons.IH[of e1] Cons.prems(1) obtain e' where
    "forG cs (\<lambda>c. wrapG (msg c) (RuleAdd net (f c))) e1 = (Val (), e')" "rules e' = f ` set cs \<union> rules e1" by auto
  moreover have "wrapG (msg c) (RuleAdd net (f c)) e = (Val (), e1)" using a by (simp add: wrapG_Val)
  ultimately show ?case using e1 by (auto simp: bindG_run)
qed

definition dstOf :: "string \<Rightarrow> ipNet option" where
  "dstOf c = (case ParseCIDR c of Val (_, dst) \<Rightarrow> Some (ofNet dst) | _ \<Rightarrow> None)"

definition fromRule :: "32 word \<Rightarrow> int \<Rightarrow> ipNet option \<Rightarrow> Rule" where
  "fromRule a t dst = emptyRule\<lparr>r_Dst := dst, r_Src := Some (ofPod a), r_Table := t, r_Priority := 1536\<rparr>"

definition toRule :: "32 word \<Rightarrow> Rule" where
  "toRule a = emptyRule\<lparr>r_Dst := Some (ofPod a), r_Table := 254, r_Priority := 512\<rparr>"

lemma wantedRules_alt:
  "wantedRules a t cidrs ext =
     insert (toRule a) (if t \<le> 0 then {} else if ext then {fromRule a t None} else (fromRule a t \<circ> dstOf) ` set cidrs)"
  by (auto simp: wantedRules_def toRule_def fromRule_def dstOf_def comp_def emptyRule_def)

lemma fromRule_simps [simp]:
  "podSrc a (fromRule a t d)" "\<not> podSrc a (toRule a)" "r_Table (fromRule a t d) = t"
  "fromRule a t d = fromRule a t d' \<longleftrightarrow> d = d'" "fromRule a t d \<noteq> toRule a" "toRule a \<noteq> fromRule a t d"
  by (simp_all add: fromRule_def toRule_def podSrc_def ofPod_def ipEqual_def To4_def emptyRule_def)

text \<open>The rewriting first deletes all rules from the pod, and then adds the new ones on the table of the old.\<close>

lemma update_deletes:
  assumes "net_laws net rules" "net_obeys net rules" "podHas rules a (wantedRules a t old oldExt) e" "t > 0"
    and "\<forall>c \<in> set old. \<exists>y. ParseCIDR c = Val y" "oldExt \<or> old \<noteq> []"
    and "{x \<in> set rs. podSrc a x} = {x \<in> rules e. podSrc a x}"
  obtains e1 where "rules e1 \<inter> podRules a = {toRule a}"
    and "UpdateRuleListBySrc net n rs (Some (V4 a)) cidrs snat e =
      (if snat then forG (cidrs @ ln_excludeSNATCIDRs n) (\<lambda>cidr.
           wrapG (''UpdateRuleListBySrc: failed to add pod rule for CIDR '' @ cidr) (RuleAdd net (fromRule a t (dstOf cidr))))
       else wrapG ''UpdateRuleListBySrc: failed to add pod rule'' (RuleAdd net (fromRule a t None))) e1"
proof -
  let ?W = "wantedRules a t old oldExt" and ?xs = "GetRuleListBySrc rs (Some (V4 a))"
  have new: "NewRule net = emptyRule" using assms(1) by (simp add: net_laws_def)
  have W: "rules e \<inter> podRules a = ?W" using assms(3) by (simp add: podHas_def)
  have "set ?xs = {x \<in> ?W. podSrc a x}"
    unfolding GetRuleListBySrc_pod assms(7) W[symmetric] by (auto simp: podRules_def)
  also have "\<dots> = ?W - {toRule a}" by (auto simp: wantedRules_alt)
  finally have xs: "set ?xs = ?W - {toRule a}" .
  have uniq: "x = r" if "r \<in> set ?xs" "x \<in> rules e" "rule_matches r x" for r x
  proof -
    have r: "r \<in> ?W" "podSrc a r" using that(1) xs by (auto simp: GetRuleListBySrc_pod)
    then have "x \<in> podRules a"
      using that(3) by (auto simp: podRules_def podSrc_def rule_matches_def split: option.splits)
    then show ?thesis using wanted_matches_self[OF r(1) _ r(2) that(3) assms(5)] that(2) W by blast
  qed
  obtain e1 where del: "forG ?xs (\<lambda>r. allowG containsNoSuchRule ''UpdateRuleListBySrc: failed to delete old rule''
      (RuleDel net r)) e = (Val (), e1)" "rules e1 = rules e - set ?xs"
    using delete_all[OF assms(1,2) uniq] by blast
  have e1: "rules e1 \<inter> podRules a = {toRule a}" using del(2) xs W by (auto simp: wantedRules_alt)
  have "set ?xs \<noteq> {}" unfolding xs using assms(4,6) by (cases old) (auto simp: wantedRules_alt)
  then have ne: "?xs \<noteq> []" by (metis set_empty)
  then have "last ?xs \<in> ?W - {toRule a}" using xs last_in_set by blast
  then have "r_Table (last ?xs) = t" using assms(4) by (auto simp: wantedRules_alt split: if_splits)
  moreover have "podRule net (Some (V4 a)) t d = fromRule a t d" for d
    by (simp add: podRule_def fromRule_def new ofPod_def fromPodRulePriority_def)
  ultimately show thesis using ne del(1)
    by (intro that[OF e1]) (simp add: UpdateRuleListBySrc_def Let_def bindG_run dstOf_def)
qed

lemma fromRule_fresh: "rules e \<inter> podRules a = {toRule a} \<Longrightarrow> fromRule a t d \<notin> rules e"
  by (auto simp: podRules_def set_eq_iff dest: spec[of _ "fromRule a t d"])

lemma distinct_fromRule: "distinct (map dstOf cs) \<Longrightarrow> distinct (map (\<lambda>c. fromRule a t (dstOf c)) cs)"
  by (induction cs) auto

lemma podHas_added:
  assumes "rules e1 \<inter> podRules a = {toRule a}" "rules e' = fromRule a t ` D \<union> rules e1"
  shows "podHas rules a (insert (toRule a) (fromRule a t ` D)) e'"
  using assms unfolding podHas_def by (auto simp: podRules_def)

lemma update_own:
  assumes "net_laws net rules" "net_obeys net rules" "podHas rules a (wantedRules a t old oldExt) e" "t > 0"
    and "\<forall>c \<in> set old. \<exists>y. ParseCIDR c = Val y" "oldExt \<or> old \<noteq> []"
    and "{x \<in> set rs. podSrc a x} = {x \<in> rules e. podSrc a x}"
    and "distinct (map dstOf (cidrs @ ln_excludeSNATCIDRs n))"
  shows "\<exists>e'. UpdateRuleListBySrc net n rs (Some (V4 a)) cidrs (\<not> ext) e = (Val (), e') \<and>
    podHas rules a (wantedRules a t (cidrs @ ln_excludeSNATCIDRs n) ext) e'"
proof (rule update_deletes[OF assms(1-7), where n = n and cidrs = cidrs and snat = "\<not> ext"])
  fix e1
  let ?new = "cidrs @ ln_excludeSNATCIDRs n"
  assume e1: "rules e1 \<inter> podRules a = {toRule a}"
    and run: "UpdateRuleListBySrc net n rs (Some (V4 a)) cidrs (\<not> ext) e =
      (if \<not> ext then forG ?new (\<lambda>cidr.
           wrapG (''UpdateRuleListBySrc: failed to add pod rule for CIDR '' @ cidr) (RuleAdd net (fromRule a t (dstOf cidr))))
       else wrapG ''UpdateRuleListBySrc: failed to add pod rule'' (RuleAdd net (fromRule a t None))) e1"
  show ?thesis
  proof (cases ext)
    case True
    from add_all[OF assms(1,2), of "\<lambda>_. fromRule a t None" "[()]" e1 "\<lambda>_. ''UpdateRuleListBySrc: failed to add pod rule''"]
    obtain e2 where "wrapG ''UpdateRuleListBySrc: failed to add pod rule'' (RuleAdd net (fromRule a t None)) e1 = (Val (), e2)"
      "rules e2 = fromRule a t ` {None} \<union> rules e1" using fromRule_fresh[of rules e1 a, OF e1] by (auto elim!: bindG_Val simp: retG_def)
    with podHas_added[of rules e1 a, OF e1 this(2)] run True assms(4) show ?thesis by (simp add: wantedRules_alt)
  next
    case False
    note distinct_fromRule[OF assms(8), of a t]
    from add_all[OF assms(1,2) this fromRule_fresh[of rules e1 a, OF e1],
        of "\<lambda>cidr. ''UpdateRuleListBySrc: failed to add pod rule for CIDR '' @ cidr"] obtain e2 where
      "forG ?new (\<lambda>cidr. wrapG (''UpdateRuleListBySrc: failed to add pod rule for CIDR '' @ cidr)
         (RuleAdd net (fromRule a t (dstOf cidr)))) e1 = (Val (), e2)"
      "rules e2 = fromRule a t ` (dstOf ` set ?new) \<union> rules e1" unfolding image_image by blast
    with podHas_added[of rules e1 a, OF e1 this(2)] run False assms(4) show ?thesis
      by (simp add: wantedRules_alt image_comp comp_def del: set_append)
  qed
qed

section \<open>The start up to the recovery of the pods\<close>

abbreviation on_env :: "('e \<Rightarrow> bool) \<Rightarrow> 'e ipam \<Rightarrow> bool" where
  "on_env P \<equiv> \<lambda>c. P (ienv c)"

lemma env_dsG: "keeps (on_env P) (dsG m)"
  by (simp add: keeps_def dsG_run)

lemma env_envG: "keeps P m \<Longrightarrow> keeps (on_env P) (envG m)"
  by (auto simp: keeps_def envG_def zoomG_def split: prod.split)

lemma env_modG: "(\<And>c. ienv (f c) = ienv c) \<Longrightarrow> keeps (on_env P) (modG f)"
  by (simp add: keeps_def modG_def)

lemma bindG_keep:
  assumes "bindG m f w = (Val x, w')" "keeps I m" "I w"
  obtains y v where "m w = (Val y, v)" "I v" "f y v = (Val x, w')"
  using assms by (auto elim!: bindG_Val dest: keepsD)

locale env_client =
  fixes api :: "('e, 'r) IpamAPI" and P :: "'e \<Rightarrow> bool"
  assumes aws: "keeps P (a_New api)" "keeps P (a_GetAttachedENIs api)" "keeps P (a_DescribeENI api eni)"
    and cluster: "keeps P (k_K8SGetLocalPodIPs api)"
    and network: "keeps P (n_SetupHostNetwork api vpc vpcs mac ip)" "keeps P (n_SetupENINetwork api eniIP eniMAC table cidr)"
    and sleep: "P e \<Longrightarrow> P (t_Sleep api d e)"
begin

lemma env_sleepG: "keeps (on_env P) (sleepG api d)"
  by (simp add: sleepG_def keeps_def modG_def sleep)

lemmas env_all = keeps_retG keeps_errG keeps_panicG keeps_bindG keeps_wrapG keeps_tryG keeps_getG
  keeps_resG keeps_ignoreG keeps_case_option keeps_case_sum keeps_case_prod keeps_if keeps_forG keeps_case_nat
  keeps_nowG env_dsG env_modG env_sleepG env_envG[OF aws(1)] env_envG[OF aws(2)] env_envG[OF aws(3)]
  env_envG[OF cluster] env_envG[OF network(1)] env_envG[OF network(2)]

lemma env_setupENI: "keeps (on_env P) (setupENI api eni m)"
proof -
  have "keeps (on_env P) (addENIaddressesToDataStore addrs eni p)" for addrs eni p
    by (induction addrs eni p rule: addENIaddressesToDataStore.induct) (auto intro!: env_all)
  then show ?thesis unfolding setupENI_def getENIaddresses_def by (auto intro!: env_all)
qed

lemma env_setup_retry: "keeps (on_env P) (setup_retry n api eni)"
  by (induction n) (subst setup_retry.simps; auto intro!: env_all env_setupENI)+

lemma env_local_pods: "keeps (on_env P) (getLocalPodsWithRetry api)"
proof -
  have "keeps (on_env P) (local_pods_loop n api r)" for n r
    by (induction n arbitrary: r) (auto intro!: env_all)
  then show ?thesis unfolding getLocalPodsWithRetry_def by (auto intro!: env_all)
qed

lemma start_phases:
  assumes "ipamdNew api e = (Val (), c)" "P e" "\<And>e. fst (k_K8SGetLocalPodIPs api e) = Val pods"
  obtains c1 where "P (ienv c1)"
    and "bindG (tryG (envG (n_GetRuleList api))) (\<lambda>rl.
      case rl of Inl _ \<Rightarrow> retG () | Inr rules \<Rightarrow> forG pods (recoverPod api rules)) c1 = (Val (), c)"
proof -
  define finish where "finish used = bindG (tryG (envG (n_GetRuleList api))) (\<lambda>rl.
      case rl of Inl _ \<Rightarrow> retG () | Inr rules \<Rightarrow> forG used (recoverPod api rules))" for used
  from assms(1)[unfolded ipamdNew_def] obtain c0 where "P (ienv c0)" "nodeInit api c0 = (Val (), c)"
    by (elim bindG_keep[where I = "on_env P"]) (auto intro!: env_all simp: assms(2) emptyContext_def)
  then obtain used c5 c6 where "P (ienv c5)" and pods: "getLocalPodsWithRetry api c6 = (Val used, c5)"
    and "finish used c5 = (Val (), c)"
    unfolding nodeInit_def finish_def[symmetric]
    by (elim bindG_keep[where I = "on_env P"])
       (auto intro!: env_all env_setup_retry env_local_pods simp: errG_def wrapG_Val split: sum.splits
          elim!: bindG_keep[where I = "on_env P"])
  moreover have "used = pods" using local_pods_const[of api pods c6] assms(3) pods by simp
  ultimately show thesis using that unfolding finish_def by blast
qed

end

section \<open>Recovering the pods\<close>

text \<open>EC2, Kubernetes and the passing of time leave the node's rules alone.\<close>

definition node_leaves :: "('e \<times> 'n, Rule) IpamAPI \<Rightarrow> ('n \<Rightarrow> Rule set) \<Rightarrow> bool" where
  "node_leaves api rules \<longleftrightarrow>
     leaves (rules \<circ> snd) (a_New api) \<and> leaves (rules \<circ> snd) (a_GetAttachedENIs api) \<and>
     (\<forall>eni. leaves (rules \<circ> snd) (a_DescribeENI api eni)) \<and> leaves (rules \<circ> snd) (k_K8SGetLocalPodIPs api) \<and>
     (\<forall>d w. rules (snd (t_Sleep api d w)) = rules (snd w))"

definition untouched :: "'n NetAPI \<Rightarrow> ('e \<times> 'n, Rule) IpamAPI \<Rightarrow> ('n \<Rightarrow> Rule set) \<Rightarrow> 32 word \<Rightarrow> Rule set \<Rightarrow> 'e \<times> 'n \<Rightarrow> bool" where
  "untouched net api rules a W w \<longleftrightarrow>
     (net_laws net rules \<and> node_leaves api rules \<and> ownRules a W \<longrightarrow> podHas rules a W (snd w))"

lemma keeps_untouched:
  assumes "net_laws net rules \<Longrightarrow> node_leaves api rules \<Longrightarrow> ownRules a W \<Longrightarrow> keeps (\<lambda>w. podHas rules a W (snd w)) m"
  shows "keeps (untouched net api rules a W) m"
  using assms by (auto simp: keeps_def untouched_def)

lemma leaves_podHas: "leaves (rules \<circ> snd) m \<Longrightarrow> keeps (\<lambda>w. podHas rules a W (snd w)) m"
  by (simp add: leaves_def keeps_def podHas_def)

interpretation started: env_client "withNet net n api" "untouched net api rules a W"
proof unfold_locales
  show "untouched net api rules a W (t_Sleep (withNet net n api) d e)" if "untouched net api rules a W e" for d e
    using that by (cases e) (simp add: untouched_def podHas_def withNet_def node_leaves_def)
qed (auto simp: withNet_def node_leaves_def
      intro!: keeps_untouched leaves_podHas keeps_netW keeps_SetupHostNetwork keeps_SetupENINetwork)

lemma recover_other:
  assumes "net_laws net rules" "ownRules a W" "\<not> ipEqual (ParseIP (IP q)) (Some (V4 a))"
  shows "keeps (on_env (\<lambda>w. podHas rules a W (snd w))) (recoverPod (withNet net n api) rs q)"
  unfolding recoverPod_def withNet_def
  by (auto intro!: keeps_retG keeps_if keeps_bindG keeps_nowG keeps_ignoreG keeps_getG keeps_case_prod env_dsG env_envG keeps_netW
      keeps_update_other[OF assms])

lemma keeps_netW_fst: "keeps (\<lambda>w. fst w = x) (netW m)"
  by (auto simp: keeps_def netW_run)

lemma recover_frame: "keeps (on_env (\<lambda>w. fst w = x)) (recoverPod (withNet net n api) rs q)"
  unfolding recoverPod_def withNet_def
  by (auto intro!: keeps_retG keeps_if keeps_bindG keeps_nowG keeps_ignoreG keeps_getG keeps_case_prod env_dsG env_envG keeps_netW_fst)

text \<open>The CIDRs of a pod's rules, and whether it has one rule for all, as the handler answers them.\<close>

abbreviation ruleCIDRs :: "'n NetAPI \<Rightarrow> ('e \<times> 'n, Rule) IpamAPI \<Rightarrow> 'e \<times> 'n \<Rightarrow> string list" where
  "ruleCIDRs net api w \<equiv> a_GetVPCIPv4CIDRs api w @ getExcludeSNATCIDRs net (snd w)"

lemma net_env_const:
  assumes "net_laws net rules"
  shows "getExcludeSNATCIDRs net e = getExcludeSNATCIDRs net e'" "useExternalSNAT net e = useExternalSNAT net e'"
proof -
  have g: "nGetenv net v e = nGetenv net v e'" for v using assms unfolding net_laws_def by blast
  show x: "useExternalSNAT net e = useExternalSNAT net e'" by (simp add: useExternalSNAT_def getBoolEnvVar_def g)
  show "getExcludeSNATCIDRs net e = getExcludeSNATCIDRs net e'" by (simp add: getExcludeSNATCIDRs_def x g)
qed

lemma recover_self:
  assumes "net_laws net rules" "net_obeys net rules" "podHas rules a (wantedRules a t old oldExt) (snd (ienv c))" "t > 0"
    and "\<forall>x \<in> set old. \<exists>y. ParseCIDR x = Val y" "oldExt \<or> old \<noteq> []"
    and "{x \<in> set rs. podSrc a x} = {x \<in> rules (snd (ienv c)). podSrc a x}"
    and "distinct (map dstOf (ruleCIDRs net api (ienv c)))"
    and "recoverPod (withNet net (netNew net m0) api) rs p c = (Val (), c')" "Container p \<noteq> ''''" "ParseIP (IP p) = Some (V4 a)"
  shows "podHas rules a (wantedRules a t (ruleCIDRs net api (ienv c)) (useExternalSNAT net (snd (ienv c)))) (snd (ienv c'))"
proof -
  obtain x m where w: "ienv c = (x, m)" by fastforce
  have excl: "ln_excludeSNATCIDRs (netNew net m0) = getExcludeSNATCIDRs net m"
    using net_env_const(1)[OF assms(1)] by (simp add: netNew_def)
  obtain m' where u: "UpdateRuleListBySrc net (netNew net m0) rs (Some (V4 a)) (a_GetVPCIPv4CIDRs api (x, m))
      (\<not> useExternalSNAT net m) m = (Val (), m')"
    and h: "podHas rules a (wantedRules a t (ruleCIDRs net api (x, m)) (useExternalSNAT net m)) m'"
    using update_own[OF assms(1,2,3,4,5,6,7), of "a_GetVPCIPv4CIDRs api (x, m)" "netNew net m0" "useExternalSNAT net m"] assms(8)
    by (auto simp: w excl)
  have "IP p \<noteq> ''''" using assms(11) by (auto simp: ParseIP_def)
  then have "ienv c' = (x, m')"
    using assms(9-11) u AssignPod_no_panic[of "t_Now (withNet net (netNew net m0) api) (ienv c)" p "dataStore c"] w
    by (auto simp: recoverPod_def withNet_def nowG_def go_simps ignoreG_def bindG_def tryG_def dsG_run envG_def zoomG_def
        netW_run UseExternalSNAT_def getG_def retG_def split: res.splits prod.splits if_splits)
  with h w show ?thesis by simp
qed

lemma forG_append: "forG (us @ vs) f w = bindG (forG us f) (\<lambda>_. forG vs f) w"
  by (induction us arbitrary: w) (auto simp: bindG_def retG_def split: prod.splits res.splits)

lemma forG_stops: "forG us f w = (Val (), w1) \<Longrightarrow> f x w1 = (Err err, w2) \<Longrightarrow> forG (us @ x # vs) f w = (Err err, w2)"
  by (simp add: forG_append bindG_run)

lemma forG_split:
  assumes "forG (us @ x # vs) f w = (Val (), w')"
  obtains w1 w2 where "forG us f w = (Val (), w1)" "f x w1 = (Val (), w2)" "forG vs f w2 = (Val (), w')"
  using assms by (auto simp: forG_append elim!: bindG_Val)

lemma recover_rules:
  assumes "net_laws net rules" "net_obeys net rules" "podHas rules a (wantedRules a t old oldExt) (snd (ienv c1))" "t > 0"
    and "\<forall>x \<in> set old. \<exists>y. ParseCIDR x = Val y" "oldExt \<or> old \<noteq> []" "set rs = rules (snd (ienv c1))"
    and "\<And>e m m'. a_GetVPCIPv4CIDRs api (e, m) = a_GetVPCIPv4CIDRs api (e, m')"
    and "distinct (map dstOf (ruleCIDRs net api (ienv c)))"
    and "\<forall>x \<in> set (ruleCIDRs net api (ienv c)). \<exists>y. ParseCIDR x = Val y"
    and "forG pods (recoverPod (withNet net (netNew net m0) api) rs) c1 = (Val (), c)"
    and "pod \<in> set pods" "distinct pods" "Container pod \<noteq> ''''" "ParseIP (IP pod) = Some (V4 a)"
    and "\<And>q. q \<in> set pods \<Longrightarrow> ipEqual (ParseIP (IP q)) (Some (V4 a)) \<Longrightarrow> q = pod"
  shows "podHas rules a (wantedRules a t (ruleCIDRs net api (ienv c)) (useExternalSNAT net (snd (ienv c)))) (snd (ienv c))"
proof -
  let ?f = "recoverPod (withNet net (netNew net m0) api) rs" and ?W = "wantedRules a t old oldExt"
  obtain us vs where pods: "pods = us @ pod # vs" using assms(12) by (meson split_list)
  then have oth: "\<not> ipEqual (ParseIP (IP q)) (Some (V4 a))" if "q \<in> set us \<union> set vs" for q
    using assms(13,16) that by fastforce
  from forG_split[OF assms(11)[unfolded pods]] obtain c2 c3 where
    r: "forG us ?f c1 = (Val (), c2)" "?f pod c2 = (Val (), c3)" "forG vs ?f c3 = (Val (), c)" by metis
  have keep: "keeps (on_env (\<lambda>w. fst w = fst (ienv c2))) (forG vs ?f)" by (intro keeps_forG recover_frame)
  have "fst (ienv c3) = fst (ienv c2)" using keepsD[OF recover_frame, of c2 "fst (ienv c2)"] r(2) by (metis snd_conv)
  from keepsD[OF keep this] r(3) have fst: "fst (ienv c2) = fst (ienv c)" by simp
  then have cidrs: "ruleCIDRs net api (ienv c2) = ruleCIDRs net api (ienv c)"
    using assms(8) net_env_const(1)[OF assms(1)] by (metis prod.collapse)
  note ext = net_env_const(2)[OF assms(1), of "snd (ienv c2)" "snd (ienv c)"]
  have other: "podHas rules a V (snd (ienv w'))"
    if "podHas rules a V (snd (ienv w))" "forG qs ?f w = (Val (), w')" "ownRules a V" "set qs \<subseteq> set us \<union> set vs" for V w w' qs
  proof -
    have "keeps (on_env (\<lambda>w. podHas rules a V (snd w))) (forG qs ?f)"
      using that(3,4) oth by (intro keeps_forG recover_other[OF assms(1)]) auto
    from keepsD[OF this, of w] that(1,2) show ?thesis by simp
  qed
  have h2: "podHas rules a ?W (snd (ienv c2))" using other[OF assms(3) r(1) wantedRules_own[OF assms(5)]] by blast
  have src: "{x \<in> rules e. podSrc a x} = {x \<in> ?W. podSrc a x}" if "podHas rules a ?W e" for e
    using that unfolding podHas_def by (auto simp: podRules_def)
  have "podHas rules a (wantedRules a t (ruleCIDRs net api (ienv c2)) (useExternalSNAT net (snd (ienv c2)))) (snd (ienv c3))"
    using src[OF h2] src[OF assms(3)] assms(7,9,14,15) r(2) cidrs
    by (intro recover_self[OF assms(1,2) h2 assms(4-6)]) auto
  from other[OF this[unfolded cidrs ext] r(3) wantedRules_own[OF assms(10)]] show ?thesis by blast
qed


text \<open>
  C39: one CIDR listed twice costs a pod its later rules at a restart.  The rewriting has deleted the pod's rules when it adds the new ones, and
  unlike the plugin's driver it takes the kernel's refusal of a rule that is already there for a failure: from the first CIDR that an
  earlier one already stands for (a VPC CIDR listed as excluded, say) on, the pod is left with no rule, an error is returned, and the daemon logs it.
\<close>

theorem duplicate_cidr_loses_rules:
  assumes "net_laws net rules" "net_obeys net rules" "\<And>r e. r \<in> rules e \<Longrightarrow> \<exists>err. fst (RuleAdd net r e) = Err err"
    and "rules e \<inter> podRules a = wantedRules a t old oldExt" "t > 0"
    and "\<forall>x \<in> set old. \<exists>y. ParseCIDR x = Val y" "oldExt \<or> old \<noteq> []" "set rs = rules e"
    and "cidrs @ ln_excludeSNATCIDRs n = xs @ c # ys" "distinct (map dstOf xs)" "dstOf c \<in> dstOf ` set xs"
  shows "\<exists>err e'. UpdateRuleListBySrc net n rs (Some (V4 a)) cidrs True e = (Err err, e') \<and>
    rules e' \<inter> podRules a = wantedRules a t xs False"
proof (rule update_deletes[OF assms(1,2) _ assms(5-7), where n = n and cidrs = cidrs and snat = True and e = e and rs = rs])
  let ?add = "\<lambda>cidr. wrapG (''UpdateRuleListBySrc: failed to add pod rule for CIDR '' @ cidr)
    (RuleAdd net (fromRule a t (dstOf cidr)))"
  fix e1 assume e1: "rules e1 \<inter> podRules a = {toRule a}"
    and run: "UpdateRuleListBySrc net n rs (Some (V4 a)) cidrs True e =
      (if True then forG (cidrs @ ln_excludeSNATCIDRs n) ?add
       else wrapG ''UpdateRuleListBySrc: failed to add pod rule'' (RuleAdd net (fromRule a t None))) e1"
  from add_all[OF assms(1,2) distinct_fromRule[OF assms(10)] fromRule_fresh[of rules e1 a, OF e1],
      of "\<lambda>cidr. ''UpdateRuleListBySrc: failed to add pod rule for CIDR '' @ cidr"] obtain e2
    where e2: "forG xs ?add e1 = (Val (), e2)" "rules e2 = fromRule a t ` (dstOf ` set xs) \<union> rules e1"
    unfolding image_image by blast
  then have "fromRule a t (dstOf c) \<in> rules e2" using assms(11) by blast
  from assms(3)[OF this] obtain err e3 where ref: "RuleAdd net (fromRule a t (dstOf c)) e2 = (Err err, e3)"
    by (metis prod.collapse)
  moreover have "add_law net rules (fromRule a t (dstOf c)) e2" using assms(1) by (simp add: net_laws_def)
  ultimately have e3: "rules e3 = rules e2" by (simp add: add_law_def)
  have "forG (xs @ c # ys) ?add e1 = (Err (WrapErr (''UpdateRuleListBySrc: failed to add pod rule for CIDR '' @ c) err), e3)"
    by (rule forG_stops[OF e2(1)]) (simp add: ref wrapG_def)
  moreover have "podHas rules a (wantedRules a t xs False) e3"
    using podHas_added[of rules e1 a e2, OF e1 e2(2)] e3 assms(5) by (simp add: wantedRules_alt podHas_def image_comp comp_def)
  ultimately show ?thesis using run assms(9) by (simp add: podHas_def)
qed (use assms(4,8) in \<open>simp_all add: podHas_def\<close>)

section \<open>Witnesses\<close>

text \<open>A node whose kernel keeps the rules in a list; \<open>ex\<close> is the setting of the excluded CIDRs.\<close>

definition demoNet :: "string \<Rightarrow> Rule list NetAPI" where
  "demoNet ex = (NetAPI.truncate list_kernel)\<lparr>Interfaces := retG [(''eth0'', ''0a'')],
     LinkList := retG [\<lparr>l_Index = 3, l_HardwareAddr = ''0a''\<rparr>],
     nGetenv := \<lambda>v _. if v = envExcludeSNATCIDRs then ex else ''''\<rparr>"

definition timeW :: "(time, 'a) go \<Rightarrow> (time \<times> Rule list, 'a) go" where
  "timeW m = zoomG fst (\<lambda>t w. (t, snd w)) m"

definition demoNode :: "(time \<times> Rule list, Rule) IpamAPI" where
  "demoNode = \<lparr>a_New = timeW (a_New demoAPI), a_AllocENI = (\<lambda>b s n. timeW (a_AllocENI demoAPI b s n)),
     a_FreeENI = timeW \<circ> a_FreeENI demoAPI, a_GetAttachedENIs = timeW (a_GetAttachedENIs demoAPI),
     a_DescribeENI = timeW \<circ> a_DescribeENI demoAPI, a_AllocIPAddresses = (\<lambda>e n. timeW (a_AllocIPAddresses demoAPI e n)),
     a_DeallocIPAddresses = (\<lambda>e n. timeW (a_DeallocIPAddresses demoAPI e n)),
     a_GetVPCIPv4CIDR = a_GetVPCIPv4CIDR demoAPI \<circ> fst, a_GetVPCIPv4CIDRs = a_GetVPCIPv4CIDRs demoAPI \<circ> fst,
     a_GetLocalIPv4 = a_GetLocalIPv4 demoAPI \<circ> fst, a_GetPrimaryENI = a_GetPrimaryENI demoAPI \<circ> fst,
     a_GetENIipLimit = a_GetENIipLimit demoAPI \<circ> fst, a_GetENILimit = a_GetENILimit demoAPI \<circ> fst,
     a_GetPrimaryENImac = a_GetPrimaryENImac demoAPI \<circ> fst, k_K8SGetLocalPodIPs = timeW (k_K8SGetLocalPodIPs demoAPI),
     c_MyENIConfig = timeW (c_MyENIConfig demoAPI), n_SetupHostNetwork = (\<lambda>_ _ _ _. retG ()),
     n_SetupENINetwork = (\<lambda>_ _ _ _. retG ()), n_UseExternalSNAT = (\<lambda>_. False), n_GetExcludeSNATCIDRs = (\<lambda>_. []),
     n_GetRuleList = retG [], n_UpdateRuleListBySrc = (\<lambda>_ _ _ _. retG ()), t_Now = fst, t_Sleep = (\<lambda>d w. (fst w + d, snd w)),
     LookupEnv = (\<lambda>v w. LookupEnv demoAPI v (fst w))\<rparr>"

definition demoRules :: "string list \<Rightarrow> Rule list" where
  "demoRules cidrs = toRule 0x0A000103 # map (fromRule 0x0A000103 3 \<circ> dstOf) cidrs"

lemma demoNet_net: "net_laws (demoNet ex) set" "net_obeys (demoNet ex) set"
proof -
  have "add_law (demoNet ex) set r e" "del_law (demoNet ex) set r e" for r e
    using list_kernel_laws unfolding rule_laws_def add_law_def del_law_def
    by (simp_all add: demoNet_def NetAPI.truncate_def)
  then show "net_laws (demoNet ex) set"
    by (simp add: net_laws_def demoNet_def NetAPI.truncate_def list_kernel_def leaves_def retG_def)
  show "net_obeys (demoNet ex) set"
    by (auto simp: net_obeys_def demoNet_def NetAPI.truncate_def list_kernel_def containsNoSuchRule_def split: option.splits res.splits)
qed

lemma demoNode_leaves: "node_leaves demoNode set"
  by (simp add: node_leaves_def demoNode_def leaves_def timeW_def zoomG_def split: prod.splits)

lemma demoCIDRs:
  "ParseCIDR ''10.0.0.0/16'' = Val (V4 0x0A000000, Net4 \<lparr>netIP = 0x0A000000, prefixLen = 16\<rparr>)"
  "ParseCIDR ''172.16.0.0/12'' = Val (V4 0xAC100000, Net4 \<lparr>netIP = 0xAC100000, prefixLen = 12\<rparr>)"
  by code_simp+

lemma demoRules_pod: "set (demoRules cidrs) \<inter> podRules 0x0A000103 = wantedRules 0x0A000103 3 cidrs False"
  by (auto simp: demoRules_def wantedRules_alt podRules_def) (auto simp: toRule_def toContainerRulePriority_def)

definition demoBoot :: "unit res \<times> (time \<times> Rule list) ipam" where
  "demoBoot = (let net = demoNet ''172.16.0.0/12'' in
     ipamdNew (withNet net (netNew net []) demoNode) (1000 * second, demoRules [''10.0.0.0/16'']))"


theorem duplicate_cidr_loses_rules_witness:
  "let net = demoNet ''10.0.0.0/16,172.16.0.0/12''; rs = demoRules [''10.0.0.0/16'', ''172.16.0.0/12'']; a = 0x0A000103 in
   set rs \<inter> podRules a = wantedRules a 3 [''10.0.0.0/16'', ''10.0.0.0/16'', ''172.16.0.0/12''] False \<and>
   (\<exists>err rs'. UpdateRuleListBySrc net (netNew net []) rs (Some (V4 a)) [''10.0.0.0/16''] True rs = (Err err, rs') \<and>
      set rs' \<inter> podRules a = wantedRules a 3 [''10.0.0.0/16''] False)"
proof -
  let ?net = "demoNet ''10.0.0.0/16,172.16.0.0/12''"
  have "ln_excludeSNATCIDRs (netNew ?net []) = [''10.0.0.0/16'', ''172.16.0.0/12'']" by code_simp
  then have cidrs: "[''10.0.0.0/16''] @ ln_excludeSNATCIDRs (netNew ?net []) = [''10.0.0.0/16''] @ ''10.0.0.0/16'' # [''172.16.0.0/12'']"
    by simp
  have "\<exists>err. fst (RuleAdd ?net r e) = Err err" if "r \<in> set e" for r e
    using that by (simp add: demoNet_def NetAPI.truncate_def list_kernel_def)
  from duplicate_cidr_loses_rules[OF demoNet_net this demoRules_pod _ _ _ refl cidrs]
  show ?thesis by (simp add: demoRules_pod demoCIDRs) (simp add: wantedRules_alt)
qed

end
