(* ===== verification/Introspect.thy ===== *)
theory Introspect
  imports GoJson EniConfig IpamdProps DriverProps
begin

text \<open>
  The daemon's two HTTP servers: \<^verbatim>\<open>ipamd/introspect.go\<close> and \<^verbatim>\<open>ipamd/metrics.go\<close>.  A server is what it answers to a request
  for a (clean) path.  Each handler takes its snapshot in one atomic step.  The zones of times, the environment variables and
  the Prometheus handler are parameters; whether an empty list of security groups is nil, which only \<^verbatim>\<open>json.Marshal\<close>
  can see, is one too.  Listening, its retries (see the theory \<^verbatim>\<open>Backoff\<close>) and log lines are left out.
\<close>

section \<open>Configuration\<close>

definition defaultIntrospectionBindAddress :: string where "defaultIntrospectionBindAddress = ''127.0.0.1:61679''"
definition introspectionBindAddress :: string where "introspectionBindAddress = ''INTROSPECTION_BIND_ADDRESS''"
definition envDisableIntrospection :: string where "envDisableIntrospection = ''DISABLE_INTROSPECTION''"
definition ipamdMetricsPort :: int where "ipamdMetricsPort = 61678"
definition envDisableMetrics :: string where "envDisableMetrics = ''DISABLE_METRICS''"

definition getEnvBoolWithDefault :: "osEnv \<Rightarrow> string \<Rightarrow> bool \<Rightarrow> bool" where
  "getEnvBoolWithDefault env envName def =
     (let strValue = (case env envName of None \<Rightarrow> '''' | Some v \<Rightarrow> v) in
      if strValue \<noteq> '''' then (case ParseBool strValue of Val parsedValue \<Rightarrow> parsedValue | _ \<Rightarrow> def) else def)"

definition disableIntrospection :: "osEnv \<Rightarrow> bool" where
  "disableIntrospection env = getEnvBoolWithDefault env envDisableIntrospection False"

definition disableMetrics :: "osEnv \<Rightarrow> bool" where
  "disableMetrics env = getEnvBoolWithDefault env envDisableMetrics False"

definition ipamdConfigForDebug :: "('e, 'r) IpamAPI \<Rightarrow> 'e \<Rightarrow> (string, json) gomap" where
  "ipamdConfigForDebug api e =
     [(envWarmIPTarget, JNum (getWarmIPTarget api e)), (envWarmENITarget, JNum (getWarmENITarget api e)),
      (envCustomNetworkCfg, JBool (UseCustomNetworkCfg api e))]"

text \<open>The list of excluded CIDRs is nil when it is empty.\<close>

definition netConfigForDebug :: "'n NetAPI \<Rightarrow> 'n \<Rightarrow> (string, json) gomap" where
  "netConfigForDebug api e =
     [(envExternalSNAT, JBool (useExternalSNAT api e)),
      (envExcludeSNATCIDRs, let cidrs = getExcludeSNATCIDRs api e in if cidrs = [] then JNull else jsonStrings cidrs),
      (envNodePortSupport, JBool (nodePortSupportEnabled api e)),
      (envConnmark, JNum (uint (getConnmark api e))),
      (envRandomizeSNAT, JNum (case typeOfSNAT api e of sequentialSNAT \<Rightarrow> 0 | randomHashSNAT \<Rightarrow> 1 | randomPRNGSNAT \<Rightarrow> 2))]"

section \<open>The values that are printed\<close>

text \<open>Printing a map stops at the first value that cannot be printed.\<close>

fun members :: "('v \<Rightarrow> json res) \<Rightarrow> (string \<times> 'v) list \<Rightarrow> (string \<times> json) list res" where
  "members f [] = Val []"
| "members f ((k, v) # m) =
     (case f v of
        Val j \<Rightarrow> (case members f m of Val kvs \<Rightarrow> Val ((k, j) # kvs) | Err e \<Rightarrow> Err e | Panic p \<Rightarrow> Panic p)
      | Err e \<Rightarrow> Err e
      | Panic p \<Rightarrow> Panic p)"

definition mapJson :: "('v \<Rightarrow> json res) \<Rightarrow> (string, 'v) gomap \<Rightarrow> json res" where
  "mapJson f m = (case members f (sort_key fst m) of Val kvs \<Rightarrow> Val (JObj kvs) | Err e \<Rightarrow> Err e | Panic p \<Rightarrow> Panic p)"

definition addressJson :: "(time \<Rightarrow> int) \<Rightarrow> AddressInfo \<Rightarrow> json res" where
  "addressJson zone a =
     (case timeJson zone (UnassignedTime a) of
        Val t \<Rightarrow> Val (JObj [(''Address'', JStr (Address a)), (''Assigned'', JBool (Assigned a)), (''UnassignedTime'', t)])
      | Err e \<Rightarrow> Err e
      | Panic p \<Rightarrow> Panic p)"

definition poolJson :: "(time \<Rightarrow> int) \<Rightarrow> ENIIPPool \<Rightarrow> json res" where
  "poolJson zone p =
     (case mapJson (addressJson zone) (IPv4Addresses p) of
        Val addrs \<Rightarrow> Val (JObj [(''IsPrimary'', JBool (IsPrimary p)), (''ID'', JStr (ID p)), (''DeviceNumber'', JNum (DeviceNumber p)),
          (''AssignedIPv4Addresses'', JNum (AssignedIPv4Addresses p)), (''IPv4Addresses'', addrs)])
      | Err e \<Rightarrow> Err e
      | Panic p \<Rightarrow> Panic p)"

definition eniInfosJson :: "(time \<Rightarrow> int) \<Rightarrow> ENIInfos \<Rightarrow> json res" where
  "eniInfosJson zone i =
     (case mapJson (poolJson zone) (ENIIPPools i) of
        Val pools \<Rightarrow> Val (JObj [(''TotalIPs'', JNum (TotalIPs i)), (''AssignedIPs'', JNum (AssignedIPs i)), (''ENIIPPools'', pools)])
      | Err e \<Rightarrow> Err e
      | Panic p \<Rightarrow> Panic p)"

definition podInfoJson :: "PodIPInfo \<Rightarrow> json" where
  "podInfoJson i = JObj [(''IP'', JStr (pi_IP i)), (''DeviceNumber'', JNum (pi_DeviceNumber i))]"

definition specJson :: "(ENIConfigSpec \<Rightarrow> bool) \<Rightarrow> ENIConfigSpec \<Rightarrow> json" where
  "specJson nilGroups s =
     JObj [(''securityGroups'', if SecurityGroups s = [] \<and> nilGroups s then JNull else jsonStrings (SecurityGroups s)),
           (''subnet'', JStr (Subnet s))]"

definition eniConfigInfoJson :: "(ENIConfigSpec \<Rightarrow> bool) \<Rightarrow> ENIConfigInfo \<Rightarrow> json" where
  "eniConfigInfoJson nilGroups i =
     JObj [(''ENI'', jsonMap (specJson nilGroups) (info_ENI i)), (''MyENI'', JStr (info_MyENI i)),
           (''EniConfigAnnotationDef'', JStr (info_EniConfigAnnotationDef i)), (''EniConfigLabelDef'', JStr (info_EniConfigLabelDef i))]"

section \<open>The servers\<close>

record httpResponse =
  status :: nat
  body :: string

text \<open>\<^verbatim>\<open>json.Marshal\<close>, then the body, or \<^verbatim>\<open>http.Error\<close>.\<close>

definition respond :: "json res \<Rightarrow> httpResponse" where
  "respond r =
     (case r of
        Val j \<Rightarrow> \<lparr>status = 200, body = encode j\<rparr>
      | _ \<Rightarrow> \<lparr>status = 500, body = ''Internal Server Error'' @ [CHR 0x0A]\<rparr>)"

record ('e, 'r, 'n) introspection =
  i_api :: "('e, 'r) IpamAPI"
  i_ipam :: "'e ipam"
  i_eniConfig :: ENIConfigController
  i_net :: "'n NetAPI"
  i_netEnv :: 'n
  i_env :: osEnv
  i_zone :: "time \<Rightarrow> int"
  i_nilGroups :: "ENIConfigSpec \<Rightarrow> bool"

definition eniV1RequestHandler :: "('e, 'r, 'n) introspection \<Rightarrow> httpResponse" where
  "eniV1RequestHandler s = respond (eniInfosJson (i_zone s) (GetENIInfos (dataStore (i_ipam s))))"

definition podV1RequestHandler :: "('e, 'r, 'n) introspection \<Rightarrow> httpResponse" where
  "podV1RequestHandler s = respond (Val (jsonMap podInfoJson (GetPodInfos (dataStore (i_ipam s)))))"

definition eniConfigRequestHandler :: "('e, 'r, 'n) introspection \<Rightarrow> httpResponse" where
  "eniConfigRequestHandler s = respond (Val (eniConfigInfoJson (i_nilGroups s) (Getter (i_env s) (i_eniConfig s))))"

definition networkEnvV1RequestHandler :: "('e, 'r, 'n) introspection \<Rightarrow> httpResponse" where
  "networkEnvV1RequestHandler s = respond (Val (jsonMap (\<lambda>j. j) (netConfigForDebug (i_net s) (i_netEnv s))))"

definition ipamdEnvV1RequestHandler :: "('e, 'r, 'n) introspection \<Rightarrow> httpResponse" where
  "ipamdEnvV1RequestHandler s = respond (Val (jsonMap (\<lambda>j. j) (ipamdConfigForDebug (i_api s) (ienv (i_ipam s)))))"

definition serverFunctions :: "(string, ('e, 'r, 'n) introspection \<Rightarrow> httpResponse) gomap" where
  "serverFunctions =
     [(''/v1/enis'', eniV1RequestHandler), (''/v1/eni-configs'', eniConfigRequestHandler), (''/v1/pods'', podV1RequestHandler),
      (''/v1/networkutils-env-settings'', networkEnvV1RequestHandler), (''/v1/ipamd-env-settings'', ipamdEnvV1RequestHandler)]"

text \<open>
  The handler of \<^verbatim>\<open>setupIntrospectionServer\<close>: the multiplexer prefers the exact pattern to \<^verbatim>\<open>/\<close>.  \<open>paths\<close> is the order in which
  the loop over \<^verbatim>\<open>serverFunctions\<close> met its keys.
\<close>

definition setupIntrospectionServer ::
  "string list \<Rightarrow> ('e, 'r, 'n) introspection \<Rightarrow> string \<Rightarrow> httpResponse" where
  "setupIntrospectionServer paths s path =
     (case map_of serverFunctions path of
        Some fn \<Rightarrow> fn s
      | None \<Rightarrow> respond (Val (JObj [(''AvailableCommands'', jsonStrings paths)])))"

definition introspectionAddr :: "osEnv \<Rightarrow> string" where
  "introspectionAddr env = (case env introspectionBindAddress of Some addr \<Rightarrow> addr | None \<Rightarrow> defaultIntrospectionBindAddress)"

definition setupMetricsServer :: "httpResponse \<Rightarrow> string \<Rightarrow> httpResponse" where
  "setupMetricsServer promhttp path =
     (if path = ''/metrics'' then promhttp else \<lparr>status = 404, body = ''404 page not found'' @ [CHR 0x0A]\<rparr>)"

definition metricsAddr :: string where
  "metricsAddr = '':'' @ Itoa ipamdMetricsPort"

section \<open>What the answers show\<close>

definition theVal :: "json res \<Rightarrow> json" where
  "theVal r = (case r of Val j \<Rightarrow> j | _ \<Rightarrow> JNull)"

lemma mwf_fold_update: "mwf acc \<Longrightarrow> mwf (fold (\<lambda>(k, v). AList.update k v) m acc)"
  by (induction m arbitrary: acc) (auto simp: mwf_update)

lemma members_Val:
  "\<forall>(k, v) \<in> set m. f v = Val (theVal (f v)) \<Longrightarrow> members f m = Val (map (\<lambda>(k, v). (k, theVal (f v))) m)"
proof (induction m)
  case (Cons e m)
  then show ?case by (cases e; cases "f (snd e)") (auto simp: theVal_def)
qed simp

lemma mapJson_Val:
  assumes "\<forall>(k, v) \<in> set m. f v = Val (theVal (f v))"
  shows "mapJson f m = Val (jsonMap (\<lambda>v. theVal (f v)) m)"
  using assms members_Val[of "sort_key fst m" f] by (simp add: mapJson_def jsonMap_def)

lemma at_jsonMap: "mwf m \<Longrightarrow> at (k # ks) (jsonMap g m) = (case map_of m k of None \<Rightarrow> None | Some v \<Rightarrow> at ks (g v))"
  by (simp add: jsonMap_def map_of_map map_of_sort_key split: option.split)

text \<open>The times of a store that can be printed.\<close>

definition printable :: "(time \<Rightarrow> int) \<Rightarrow> DataStore \<Rightarrow> bool" where
  "printable zone ds \<longleftrightarrow> (\<forall>ek ip a. s_addr (ds_abs ds) ek ip = Some a \<longrightarrow> (\<exists>j. timeJson zone (UnassignedTime a) = Val j))"

lemma addressJson_Val: "timeJson zone (UnassignedTime a) = Val j \<Longrightarrow>
  addressJson zone a = Val (JObj [(''Address'', JStr (Address a)), (''Assigned'', JBool (Assigned a)), (''UnassignedTime'', j)])"
  by (simp add: addressJson_def)

lemma poolJson_Val:
  assumes "ds_inv ds" "printable zone ds" "map_of (eniIPPools ds) ek = Some p"
  shows "poolJson zone p = Val (JObj [(''IsPrimary'', JBool (IsPrimary p)), (''ID'', JStr (ID p)), (''DeviceNumber'', JNum (DeviceNumber p)),
    (''AssignedIPv4Addresses'', JNum (AssignedIPv4Addresses p)), (''IPv4Addresses'', jsonMap (\<lambda>a. theVal (addressJson zone a)) (IPv4Addresses p))])"
proof -
  have "addressJson zone a = Val (theVal (addressJson zone a))" if "(ip, a) \<in> set (IPv4Addresses p)" for ip a
  proof -
    have "map_of (IPv4Addresses p) ip = Some a" using eni_ok_mem[OF ds_inv_eni_ok[OF assms(1,3)] that] by simp
    then obtain j where "timeJson zone (UnassignedTime a) = Val j"
      using assms(2,3) unfolding printable_def s_addr_iff by blast
    then show ?thesis by (simp add: addressJson_Val theVal_def)
  qed
  then show ?thesis by (subst poolJson_def, subst mapJson_Val) auto
qed

lemma at_obj: "at (k # ks) (JObj kvs) = (case map_of kvs k of None \<Rightarrow> None | Some j \<Rightarrow> at ks j)"
  by simp

lemma enis_json:
  assumes "ds_inv ds" "printable zone ds"
  obtains j where "eniInfosJson zone (GetENIInfos ds) = Val j"
    and "at [''TotalIPs''] j = Some (JNum (total ds))" "at [''AssignedIPs''] j = Some (JNum (assigned ds))"
    and "\<And>ek. at [''ENIIPPools'', ek, ''DeviceNumber''] j = map_option JNum (s_dev (ds_abs ds) ek)"
    and "\<And>ek ip. at [''ENIIPPools'', ek, ''IPv4Addresses'', ip, ''Assigned''] j = map_option (\<lambda>a. JBool (Assigned a)) (s_addr (ds_abs ds) ek ip)"
proof -
  have wf: "mwf (eniIPPools ds)" using assms(1) by (simp add: ds_inv_def pools_inv_def)
  define m where "m = ENIIPPools (GetENIInfos ds)"
  have m: "mwf m" "map_of m = map_of (eniIPPools ds)"
    using fold_update_id[OF wf] mwf_fold_update[of "[]"] by (simp_all add: m_def GetENIInfos_def)
  have pool: "poolJson zone p = Val (theVal (poolJson zone p))" if "map_of (eniIPPools ds) ek = Some p" for ek p
    by (simp add: poolJson_Val[OF assms that] theVal_def)
  then have run: "mapJson (poolJson zone) m = Val (jsonMap (\<lambda>p. theVal (poolJson zone p)) m)"
    using m mwf_map_of[OF m(1)] by (intro mapJson_Val) fastforce
  let ?j = "JObj [(''TotalIPs'', JNum (total ds)), (''AssignedIPs'', JNum (assigned ds)),
    (''ENIIPPools'', jsonMap (\<lambda>p. theVal (poolJson zone p)) m)]"
  have addr: "at [''Assigned''] (theVal (addressJson zone a)) = Some (JBool (Assigned a))"
    if mem: "map_of (eniIPPools ds) ek = Some p" "map_of (IPv4Addresses p) ip = Some a" for ek p ip a
  proof -
    obtain j where "timeJson zone (UnassignedTime a) = Val j" using assms(2) mem unfolding printable_def s_addr_iff by blast
    then show ?thesis by (simp add: addressJson_Val theVal_def)
  qed
  have at_eni: "at (''ENIIPPools'' # ek # ks) ?j = (case map_of (eniIPPools ds) ek of None \<Rightarrow> None
      | Some p \<Rightarrow> at ks (theVal (poolJson zone p)))" for ek ks
    using at_jsonMap[OF m(1)] m(2) by simp
  show thesis
  proof (rule that[of ?j])
    show "eniInfosJson zone (GetENIInfos ds) = Val ?j" using run by (simp add: eniInfosJson_def m_def GetENIInfos_def)
    show "at [''ENIIPPools'', ek, ''DeviceNumber''] ?j = map_option JNum (s_dev (ds_abs ds) ek)" for ek
      unfolding at_eni using poolJson_Val[OF assms] by (simp add: s_dev_iff theVal_def split: option.split)
    show "at [''ENIIPPools'', ek, ''IPv4Addresses'', ip, ''Assigned''] ?j =
      map_option (\<lambda>a. JBool (Assigned a)) (s_addr (ds_abs ds) ek ip)" for ek ip
    proof (cases "map_of (eniIPPools ds) ek")
      case (Some p)
      have "mwf (IPv4Addresses p)" using ds_inv_eni_ok[OF assms(1) Some] by (simp add: eni_ok_def)
      then show ?thesis
        unfolding at_eni using poolJson_Val[OF assms Some] addr[OF Some]
        by (simp add: Some theVal_def[of "Val _"] at_jsonMap ds_abs_def del: at.simps(2) split: option.split)
           (simp add: at_jsonMap split: option.split)
    qed (simp add: at_eni ds_abs_def del: at.simps)
  qed simp_all
qed

text \<open>Two maps that map every key to values with the same text have the same text.\<close>

lemma members_map: "members f m = members (\<lambda>r. r) (map (\<lambda>(k, v). (k, f v)) m)"
  by (induction m) (auto split: res.split)

lemma sort_key_map_snd: "sort_key fst (map (\<lambda>(k, v). (k, f v)) m) = map (\<lambda>(k, v). (k, f v)) (sort_key fst m)"
proof (induction m)
  case (Cons e m)
  have "insort_key fst (k, f v) (map (\<lambda>(k, v). (k, f v)) xs) = map (\<lambda>(k, v). (k, f v)) (insort_key fst (k, v) xs)" for k v xs
    by (induction xs) auto
  with Cons show ?case by (cases e) simp
qed simp

lemma mapJson_cong:
  assumes "mwf m" "mwf m'" "\<And>k. map_option f (map_of m k) = map_option f (map_of m' k)"
  shows "mapJson f m = mapJson f m'"
proof -
  let ?t = "map (\<lambda>(k, v). (k, f v))"
  have "sort_key fst (?t m) = sort_key fst (?t m')"
  proof (rule sort_key_unique)
    show "map_of (?t m) = map_of (?t m')" using assms(3) by (simp add: map_of_map fun_eq_iff)
  qed (use assms in \<open>simp_all add: mwf_def mkeys_def comp_def case_prod_unfold\<close>)
  then show ?thesis unfolding mapJson_def by (subst (1 2) members_map) (simp only: sort_key_map_snd)
qed

lemma poolJson_same_eni: "mwf (IPv4Addresses p) \<Longrightarrow> same_eni p p' \<Longrightarrow> poolJson zone p = poolJson zone p'"
proof -
  assume "mwf (IPv4Addresses p)" and same: "same_eni p p'"
  then have "mapJson (addressJson zone) (IPv4Addresses p) = mapJson (addressJson zone) (IPv4Addresses p')"
    by (intro mapJson_cong) (auto simp: same_eni_def same_map_def option.rel_eq)
  moreover have "IsPrimary p' = IsPrimary p" "ID p' = ID p" "DeviceNumber p' = DeviceNumber p"
      "AssignedIPv4Addresses p' = AssignedIPv4Addresses p"
    using same by (cases p; cases p'; simp add: same_eni_def)+
  ultimately show ?thesis by (simp add: poolJson_def split: res.split)
qed

lemma enis_json_reordered:
  assumes "ds_inv ds" "reordered ds ds'"
  shows "eniInfosJson zone (GetENIInfos ds) = eniInfosJson zone (GetENIInfos ds')"
proof -
  let ?m = "\<lambda>ds. ENIIPPools (GetENIInfos ds)"
  have wf: "mwf (eniIPPools ds)" "mwf (eniIPPools ds')"
    using assms ds_inv_reordered[OF assms] by (simp_all add: ds_inv_def pools_inv_def)
  have m: "mwf (?m d)" "mwf (eniIPPools d) \<Longrightarrow> map_of (?m d) = map_of (eniIPPools d)" for d
    using fold_update_id[of "eniIPPools d"] mwf_fold_update[of "[]"] by (simp_all add: GetENIInfos_def)
  have "map_option (poolJson zone) (map_of (eniIPPools ds) k) = map_option (poolJson zone) (map_of (eniIPPools ds') k)" for k
  proof -
    have "rel_option same_eni (map_of (eniIPPools ds) k) (map_of (eniIPPools ds') k)"
      using assms(2) by (simp add: reordered_def same_map_def)
    then show ?thesis
      using ds_inv_eni_ok[OF assms(1), of k] by cases (auto simp: eni_ok_def poolJson_same_eni)
  qed
  then have "mapJson (poolJson zone) (?m ds) = mapJson (poolJson zone) (?m ds')"
    using m wf by (intro mapJson_cong) auto
  moreover have "total ds' = total ds" "assigned ds' = assigned ds"
    using assms(2) by (cases ds; cases ds'; simp add: reordered_def)+
  ultimately show ?thesis by (simp add: eniInfosJson_def GetENIInfos_def split: res.split)
qed

text \<open>
  C29: the answer of \<^verbatim>\<open>/v1/enis\<close> shows the store.  On a reachable store whose times can be printed, the server answers with
  status 200 and a text that parses as JSON; the parsed value has the store's two counters, the device number of every ENI, and for
  every ENI and every address whether it is assigned, and no other ENI and no other address.  The text does not depend on the order of the
  maps.
\<close>

theorem introspection_enis_roundtrip:
  assumes "ds_reach (dataStore (i_ipam s))" "printable (i_zone s) (dataStore (i_ipam s))"
    and "reordered (dataStore (i_ipam s)) ds'" "s' = s\<lparr>i_ipam := (i_ipam s)\<lparr>dataStore := ds'\<rparr>\<rparr>"
  shows "\<exists>j. status (setupIntrospectionServer paths s ''/v1/enis'') = 200 \<and>
    parseJson (body (setupIntrospectionServer paths s ''/v1/enis'')) = Some j \<and>
    at [''TotalIPs''] j = Some (JNum (total (dataStore (i_ipam s)))) \<and>
    at [''AssignedIPs''] j = Some (JNum (assigned (dataStore (i_ipam s)))) \<and>
    (\<forall>ek. at [''ENIIPPools'', ek, ''DeviceNumber''] j = map_option JNum (s_dev (ds_abs (dataStore (i_ipam s))) ek)) \<and>
    (\<forall>ek ip. at [''ENIIPPools'', ek, ''IPv4Addresses'', ip, ''Assigned''] j =
       map_option (\<lambda>a. JBool (Assigned a)) (s_addr (ds_abs (dataStore (i_ipam s))) ek ip)) \<and>
    setupIntrospectionServer paths s' ''/v1/enis'' = setupIntrospectionServer paths s ''/v1/enis''"
proof -
  let ?ds = "dataStore (i_ipam s)"
  note inv = ds_reach_inv[OF assms(1)]
  have srv: "setupIntrospectionServer paths t ''/v1/enis'' = respond (eniInfosJson (i_zone t) (GetENIInfos (dataStore (i_ipam t))))"
    for t :: "('a, 'b, 'c) introspection"
    by (simp add: setupIntrospectionServer_def serverFunctions_def eniV1RequestHandler_def)
  have order: "setupIntrospectionServer paths s' ''/v1/enis'' = setupIntrospectionServer paths s ''/v1/enis''"
    using enis_json_reordered[OF inv assms(3), of "i_zone s"] unfolding srv by (simp add: assms(4))
  show ?thesis
  proof (rule enis_json[OF inv assms(2)])
    fix j assume "eniInfosJson (i_zone s) (GetENIInfos ?ds) = Val j" and
      "at [''TotalIPs''] j = Some (JNum (total ?ds))" "at [''AssignedIPs''] j = Some (JNum (assigned ?ds))"
      "\<And>ek. at [''ENIIPPools'', ek, ''DeviceNumber''] j = map_option JNum (s_dev (ds_abs ?ds) ek)"
      "\<And>ek ip. at [''ENIIPPools'', ek, ''IPv4Addresses'', ip, ''Assigned''] j =
        map_option (\<lambda>a. JBool (Assigned a)) (s_addr (ds_abs ?ds) ek ip)"
    then show ?thesis unfolding order unfolding srv by (intro exI[of _ j]) (simp add: respond_def parseJson_encode)
  qed
qed

section \<open>Witness\<close>

lemma printable_check:
  assumes "list_all (\<lambda>(ek, p). list_all (\<lambda>(ip, a). case timeJson zone (UnassignedTime a) of Val _ \<Rightarrow> True | _ \<Rightarrow> False)
    (IPv4Addresses p)) (eniIPPools ds)"
  shows "printable zone ds"
  using assms unfolding printable_def s_addr_iff list_all_iff by (fastforce dest!: map_of_SomeD split: res.splits)

lemma reordered_rev:
  assumes "ds_inv ds"
  shows "reordered ds (ds\<lparr>eniIPPools := rev (eniIPPools ds)\<rparr>)"
proof -
  have wf: "mwf (eniIPPools ds)" "mwf (podsIP ds)" using assms by (simp_all add: ds_inv_def pools_inv_def)
  have "same_eni p p" if "map_of (eniIPPools ds) k = Some p" for k p
    using ds_inv_eni_ok[OF assms that] by (simp add: same_eni_def same_map_def eni_ok_def option.rel_eq)
  then have "rel_option same_eni (map_of (eniIPPools ds) k) (map_of (eniIPPools ds) k)" for k
    by (cases "map_of (eniIPPools ds) k") auto
  with wf show ?thesis
    by (simp add: reordered_def same_map_def map_of_rev option.rel_eq) (simp add: mwf_def mkeys_def rev_map[symmetric])
qed

definition demoServer :: "(time, unit, Rule list) introspection" where
  "demoServer = \<lparr>i_api = sim_ipam True, i_ipam = ctx storeA 0 1 2, i_eniConfig = NewENIConfigController (\<lambda>_. None),
     i_net = NetAPI.truncate list_kernel, i_netEnv = [], i_env = (\<lambda>_. None), i_zone = (\<lambda>_. 0), i_nilGroups = (\<lambda>_. True)\<rparr>"

theorem introspection_enis_roundtrip_witness:
  "\<exists>j. parseJson (body (setupIntrospectionServer [] demoServer ''/v1/enis'')) = Some j \<and>
     at [''AssignedIPs''] j = Some (JNum 1) \<and>
     at [''ENIIPPools'', ''eni-1'', ''IPv4Addresses'', ''10.0.0.1'', ''Assigned''] j = Some (JBool True)"
proof -
  have ds: "dataStore (i_ipam demoServer) = storeA" "i_zone demoServer = (\<lambda>_. 0)" by (simp_all add: demoServer_def ctx_def)
  have pr: "printable (\<lambda>_. 0) storeA" by (rule printable_check) code_simp
  have "assigned storeA = 1" "map_option (\<lambda>a. JBool (Assigned a)) (s_addr (ds_abs storeA) ''eni-1'' ''10.0.0.1'') = Some (JBool True)"
    by code_simp+
  with introspection_enis_roundtrip[where s = demoServer and paths = "[]", unfolded ds, OF storeA_reach pr reordered_rev[OF ds_reach_inv[OF storeA_reach]] refl]
  show ?thesis by metis
qed

end
