(* ===== verification/NodeMain.thy ===== *)
theory NodeMain
  imports RpcHandler
begin

text \<open>
  The start of the daemon's process (\<^verbatim>\<open>main.go\<close>), the listener of its gRPC server (\<^verbatim>\<open>ipamd/rpc_handler.go\<close>) and the probe
  that asks it for its health (\<^verbatim>\<open>client/health-check/grpc_health_probe.go\<close>).  Starting a goroutine is recorded by name; what
  the goroutines do is in the theories of their components.  The Kubernetes client, the listener, gRPC and the files of
  the node are parameters: the files are a part of the world that only the file operations touch.  Log lines are left out.
\<close>

section \<open>Copying a file\<close>

text \<open>The calls on files, by path; \<^verbatim>\<open>io.Copy\<close> reads the first path's file and writes the second's.\<close>

record 'f FileAPI =
  f_Open :: "string \<Rightarrow> ('f, unit) go"
  f_Create :: "string \<Rightarrow> ('f, unit) go"
  f_Copy :: "string \<Rightarrow> string \<Rightarrow> ('f, unit) go"
  f_Sync :: "string \<Rightarrow> ('f, unit) go"
  f_Stat :: "string \<Rightarrow> ('f, int) go"
  f_Chmod :: "string \<Rightarrow> int \<Rightarrow> ('f, unit) go"
  f_Close :: "string \<Rightarrow> ('f, unit) go"

text \<open>
  The deferred function assigns the error of \<^verbatim>\<open>out.Close()\<close> to the local \<^verbatim>\<open>err\<close> after the result has been set, so the error
  is lost like that of \<^verbatim>\<open>in.Close()\<close>.
\<close>

definition copyFileContents :: "'f FileAPI \<Rightarrow> string \<Rightarrow> string \<Rightarrow> ('f, unit) go" where
  "copyFileContents fs src dst =
     bindG (f_Open fs src) (\<lambda>_.
     deferG (\<lambda>f. snd (f_Close fs src f)) (
       bindG (f_Create fs dst) (\<lambda>_.
       deferG (\<lambda>f. snd (f_Close fs dst f)) (
         bindG (f_Copy fs src dst) (\<lambda>_.
         bindG (f_Sync fs dst) (\<lambda>_.
         bindG (f_Stat fs src) (\<lambda>mode.
         f_Chmod fs dst mode)))))))"

section \<open>The gRPC server\<close>

definition ipamdgRPCaddress :: string where "ipamdgRPCaddress = ''127.0.0.1:50051''"

datatype healthStatus = UNKNOWN | SERVING | NOT_SERVING | SERVICE_UNKNOWN

definition healthCheck :: "string \<Rightarrow> ('e, healthStatus) go" where
  "healthCheck service = retG SERVING"

text \<open>\<open>Serve\<close> answers requests until the server fails.\<close>

record 'e ListenAPI =
  Listen :: "string \<Rightarrow> ('e, unit) go"
  Serve :: "('e ipam, unit) go"

definition RunRPCHandler :: "'e ListenAPI \<Rightarrow> ('e ipam, unit) go" where
  "RunRPCHandler l =
     bindG (wrapG ''ipamd: failed to listen to gRPC port'' (envG (Listen l ipamdgRPCaddress))) (\<lambda>_.
     wrapG ''ipamd: failed to start server on gPRC port'' (Serve l))"

section \<open>The main program\<close>

record ('e, 'f) node =
  nd_ipam :: "'e ipam"        \<comment> \<open>with the environment inside\<close>
  nd_files :: 'f
  nd_running :: "string list" \<comment> \<open>the goroutines started, oldest first\<close>

definition ipamN :: "('e ipam, 'a) go \<Rightarrow> (('e, 'f) node, 'a) go" where
  "ipamN = zoomG nd_ipam (\<lambda>c n. n\<lparr>nd_ipam := c\<rparr>)"

definition filesN :: "('f, 'a) go \<Rightarrow> (('e, 'f) node, 'a) go" where
  "filesN = zoomG nd_files (\<lambda>f n. n\<lparr>nd_files := f\<rparr>)"

definition goN :: "string \<Rightarrow> (('e, 'f) node, unit) go" where
  "goN name = modG (\<lambda>n. n\<lparr>nd_running := nd_running n @ [name]\<rparr>)"

definition newN :: "('e, 'r) IpamAPI \<Rightarrow> (('e, 'f) node, unit) go" where
  "newN api n = (case ipamdNew api (ienv (nd_ipam n)) of (r, c) \<Rightarrow> (r, n\<lparr>nd_ipam := c\<rparr>))"

text \<open>\<open>orExit m k\<close>: when \<open>m\<close> fails, the process exits with status 1; else it goes on with \<open>k\<close>.\<close>

definition orExit :: "('w, 'a) go \<Rightarrow> ('w, int) go \<Rightarrow> ('w, int) go" where
  "orExit m k = bindG (tryG m) (\<lambda>r. case r of Inl _ \<Rightarrow> retG 1 | Inr _ \<Rightarrow> k)"

definition mainProgram ::
  "('e, unit) go \<Rightarrow> ('e, 'r) IpamAPI \<Rightarrow> 'f FileAPI \<Rightarrow> 'e ListenAPI \<Rightarrow> (('e, 'f) node, int) go" where
  "mainProgram CreateKubeClient api fs l =
     orExit (ipamN (envG CreateKubeClient)) (
     bindG (goN ''DiscoverK8SPods'') (\<lambda>_.
     bindG (getG (\<lambda>n. UseCustomNetworkCfg api (ienv (nd_ipam n)))) (\<lambda>custom.
     bindG (if custom then goN ''eniConfigController.Start'' else retG ()) (\<lambda>_.
     orExit (newN api) (
     bindG (goN ''StartNodeIPPoolManager'') (\<lambda>_.
     bindG (goN ''ServeMetrics'') (\<lambda>_.
     bindG (goN ''ServeIntrospection'') (\<lambda>_.
     orExit (filesN (copyFileContents fs ''/app/aws-cni'' ''/host/opt/cni/bin/aws-cni'')) (
     orExit (filesN (copyFileContents fs ''/app/10-aws.conflist'' ''/host/etc/cni/net.d/10-aws.conflist'')) (
     orExit (ipamN (RunRPCHandler l)) (retG 0)))))))))))"

section \<open>The health probe\<close>

definition StatusInvalidArguments :: int where "StatusInvalidArguments = 1"
definition StatusConnectionFailure :: int where "StatusConnectionFailure = 2"
definition StatusRPCFailure :: int where "StatusRPCFailure = 3"
definition StatusUnhealthy :: int where "StatusUnhealthy = 4"

record probeFlags =
  remoteURL :: string
  serviceName :: string
  connTimeoutDur :: duration
  rpcTimeoutDur :: duration

record 'e ProbeAPI =
  DialContext :: "duration \<Rightarrow> string \<Rightarrow> ('e, unit) go"
  probeClose :: "'e \<Rightarrow> 'e"
  Check :: "duration \<Rightarrow> string \<Rightarrow> ('e, healthStatus) go"

text \<open>The exit status of the flags' check in \<^verbatim>\<open>init\<close>, if it exits.\<close>

definition probeInit :: "probeFlags \<Rightarrow> int option" where
  "probeInit fl =
     (if remoteURL fl = '''' then Some StatusInvalidArguments
      else if connTimeoutDur fl \<le> 0 then Some StatusInvalidArguments
      else if rpcTimeoutDur fl \<le> 0 then Some StatusInvalidArguments
      else None)"

text \<open>The exit status; \<^verbatim>\<open>os.Exit\<close> does not run deferred calls.\<close>

definition probeMain :: "'e ProbeAPI \<Rightarrow> probeFlags \<Rightarrow> ('e, int) go" where
  "probeMain api fl =
     (case probeInit fl of
        Some code \<Rightarrow> retG code
      | None \<Rightarrow>
          bindG (tryG (DialContext api (connTimeoutDur fl) (remoteURL fl))) (\<lambda>r.
          case r of
            Inl _ \<Rightarrow> retG StatusConnectionFailure
          | Inr _ \<Rightarrow>
              bindG (tryG (Check api (rpcTimeoutDur fl) (serviceName fl))) (\<lambda>r.
              case r of
                Inl _ \<Rightarrow> retG StatusRPCFailure
              | Inr resp \<Rightarrow>
                  if resp \<noteq> SERVING then retG StatusUnhealthy
                  else bindG (modG (probeClose api)) (\<lambda>_. retG 0))))"

section \<open>What a copy leaves\<close>

text \<open>
  What the code relies on of the file calls; \<open>file f p\<close> is the contents and the mode of the file at \<open>p\<close>.  No call changes another
  path than the one it writes, whatever it returns.
\<close>

definition file_laws :: "'f FileAPI \<Rightarrow> ('f \<Rightarrow> string \<Rightarrow> (string \<times> int) option) \<Rightarrow> bool" where
  "file_laws fs file \<longleftrightarrow>
     (\<forall>p f. file (snd (f_Open fs p f)) = file f \<and> file (snd (f_Close fs p f)) = file f \<and> file (snd (f_Sync fs p f)) = file f) \<and>
     (\<forall>p f. file (snd (f_Stat fs p f)) = file f \<and> (\<forall>m. fst (f_Stat fs p f) = Val m \<longrightarrow> (\<exists>c. file f p = Some (c, m)))) \<and>
     (\<forall>p f. \<exists>x. file (snd (f_Create fs p f)) = (file f)(p := x)) \<and>
     (\<forall>s d f. \<exists>x. file (snd (f_Copy fs s d f)) = (file f)(d := x) \<and>
        (fst (f_Copy fs s d f) = Val () \<and> s \<noteq> d \<longrightarrow> map_option fst x = map_option fst (file f s))) \<and>
     (\<forall>p m f. \<exists>x. file (snd (f_Chmod fs p m f)) = (file f)(p := x) \<and>
        (fst (f_Chmod fs p m f) = Val () \<longrightarrow> x = map_option (\<lambda>(c, _). (c, m)) (file f p)))"

lemma file_lawsD:
  assumes "file_laws fs file"
  shows "file (snd (f_Open fs p f)) = file f" "file (snd (f_Close fs p f)) = file f" "file (snd (f_Sync fs p f)) = file f"
    and "file (snd (f_Stat fs p f)) = file f" "fst (f_Stat fs p f) = Val m \<Longrightarrow> \<exists>c. file f p = Some (c, m)"
    and "\<exists>x. file (snd (f_Create fs p f)) = (file f)(p := x)"
    and "\<exists>x. file (snd (f_Copy fs s p f)) = (file f)(p := x) \<and>
        (fst (f_Copy fs s p f) = Val () \<and> s \<noteq> p \<longrightarrow> map_option fst x = map_option fst (file f s))"
    and "\<exists>x. file (snd (f_Chmod fs p m f)) = (file f)(p := x) \<and>
        (fst (f_Chmod fs p m f) = Val () \<longrightarrow> x = map_option (\<lambda>(c, _). (c, m)) (file f p))"
  using assms unfolding file_laws_def by blast+

text \<open>A copy, successful or not, changes at most the destination.\<close>

lemma copy_frame:
  assumes "file_laws fs file"
  shows "\<exists>x. file (snd (copyFileContents fs src dst f)) = (file f)(dst := x)"
proof -
  let ?P = "\<lambda>g. \<exists>x. file g = (file f)(dst := x)"
  have upd: "?P g \<Longrightarrow> file g' = (file g)(dst := x) \<Longrightarrow> ?P g'" for g g' x by auto
  have keep: "keeps ?P (f_Open fs src)" "keeps ?P (f_Create fs dst)" "keeps ?P (f_Copy fs src dst)" "keeps ?P (f_Sync fs dst)"
    "keeps ?P (f_Stat fs src)" "keeps ?P (f_Chmod fs dst m)" for m
    using file_lawsD[OF assms] by (auto intro!: keepsI, (metis upd)+)
  have closing: "keeps ?P m \<Longrightarrow> keeps ?P (deferG (\<lambda>f. snd (f_Close fs p f)) m)" for m p
    using file_lawsD(2)[OF assms] by (fastforce simp: keeps_def deferG_def split: prod.splits)
  have "keeps ?P (copyFileContents fs src dst)"
    unfolding copyFileContents_def by (intro keeps_bindG keep closing)
  moreover have "?P f" by (metis fun_upd_triv)
  ultimately show ?thesis by (rule keepsD)
qed

lemma copy_Val:
  assumes "file_laws fs file" "copyFileContents fs src dst f = (Val (), f')" "src \<noteq> dst"
  shows "file f' = (file f)(dst := file f src) \<and> file f src \<noteq> None"
proof -
  note laws = file_lawsD[OF assms(1)]
  obtain f1 f2 f3 f4 f5 f6 mode where r: "f_Open fs src f = (Val (), f1)" "f_Create fs dst f1 = (Val (), f2)"
      "f_Copy fs src dst f2 = (Val (), f3)" "f_Sync fs dst f3 = (Val (), f4)" "f_Stat fs src f4 = (Val mode, f5)"
      "f_Chmod fs dst mode f5 = (Val (), f6)" and f': "f' = snd (f_Close fs src (snd (f_Close fs dst f6)))"
    using assms(2) unfolding copyFileContents_def
    by (auto elim!: bindG_Val simp: deferG_def split: prod.splits)
  obtain x where x: "file f2 = (file f)(dst := x)" using laws(6)[of dst f1] laws(1)[of src f] r by auto
  obtain y where y: "file f3 = (file f2)(dst := y)" "map_option fst y = map_option fst (file f2 src)"
    using laws(7)[of src dst f2] r(3) assms(3) by auto
  have same: "file f4 = file f3" "file f5 = file f4" using laws(3)[of dst f3] laws(4)[of src f4] r by auto
  obtain c where c: "file f4 src = Some (c, mode)" using laws(5)[of src f4 mode] r(5) by auto
  have "file f6 = (file f5)(dst := map_option (\<lambda>(c, _). (c, mode)) (file f5 dst))" using laws(8)[of dst mode f5] r(6) by auto
  moreover have "file f src = Some (c, mode)" using c same x y(1) assms(3) by simp
  moreover have "map_option fst (file f5 dst) = Some c" using same x y c assms(3) by simp
  then have "map_option (\<lambda>(c, _). (c, mode)) (file f5 dst) = Some (c, mode)" by auto
  ultimately show ?thesis using same x y(1) f' laws(2) by (simp add: fun_upd_def fun_eq_iff)
qed

section \<open>When the node becomes ready\<close>

lemma orExit_run:
  "orExit m k w = (case m w of (Val _, w') \<Rightarrow> k w' | (Err _, w') \<Rightarrow> (Val 1, w') | (Panic p, w') \<Rightarrow> (Panic p, w'))"
  by (simp add: orExit_def bindG_tryG_run retG_def split: prod.split res.split)

abbreviation confFile :: string where "confFile \<equiv> ''/host/etc/cni/net.d/10-aws.conflist''"
abbreviation pluginFile :: string where "pluginFile \<equiv> ''/host/opt/cni/bin/aws-cni''"

definition installAndServe :: "'f FileAPI \<Rightarrow> 'e ListenAPI \<Rightarrow> (('e, 'f) node, int) go" where
  "installAndServe fs l =
     orExit (filesN (copyFileContents fs ''/app/aws-cni'' pluginFile)) (
     orExit (filesN (copyFileContents fs ''/app/10-aws.conflist'' confFile)) (
     orExit (ipamN (RunRPCHandler l)) (retG 0)))"

text \<open>The main program up to the files: both components must have started.\<close>

lemma mainProgram_prefix:
  assumes "mainProgram k api fs l n = (r, n')" "nd_files n' \<noteq> nd_files n"
  obtains e1 c run where "k (ienv (nd_ipam n)) = (Val (), e1)" "ipamdNew api e1 = (Val (), c)"
    and "''StartNodeIPPoolManager'' \<in> set run"
    and "installAndServe fs l (n\<lparr>nd_ipam := c, nd_running := nd_running n @ run\<rparr>) = (r, n')"
proof -
  obtain r1 e1 where k: "k (ienv (nd_ipam n)) = (r1, e1)" by fastforce
  let ?pre = "if UseCustomNetworkCfg api e1 then [''DiscoverK8SPods'', ''eniConfigController.Start''] else [''DiscoverK8SPods'']"
  let ?run = "?pre @ [''StartNodeIPPoolManager'', ''ServeMetrics'', ''ServeIntrospection'']"
  obtain r2 c where new: "ipamdNew api e1 = (r2, c)" by fastforce
  have r1: "r1 = Val ()" using assms k by (cases r1) (auto simp: mainProgram_def orExit_run ipamN_def envG_def zoomG_def)
  have step: "mainProgram k api fs l n =
    (case r2 of Val _ \<Rightarrow> installAndServe fs l (n\<lparr>nd_ipam := c, nd_running := nd_running n @ ?run\<rparr>)
     | Err _ \<Rightarrow> (Val 1, n\<lparr>nd_ipam := c, nd_running := nd_running n @ ?pre\<rparr>)
     | Panic p \<Rightarrow> (Panic p, n\<lparr>nd_ipam := c, nd_running := nd_running n @ ?pre\<rparr>))"
  proof -
    have kube: "orExit (ipamN (envG k)) K n = K (n\<lparr>nd_ipam := (nd_ipam n)\<lparr>ienv := e1\<rparr>\<rparr>)" for K :: "(('a, 'b) node, int) go"
      using k r1 by (simp add: orExit_run ipamN_def envG_def zoomG_def)
    have start: "orExit (newN api) K n1 = (case r2 of Val _ \<Rightarrow> K (n1\<lparr>nd_ipam := c\<rparr>)
        | Err _ \<Rightarrow> (Val 1, n1\<lparr>nd_ipam := c\<rparr>) | Panic p \<Rightarrow> (Panic p, n1\<lparr>nd_ipam := c\<rparr>))"
      if "ienv (nd_ipam n1) = e1" for K :: "(('a, 'b) node, int) go" and n1
      using new that by (simp add: orExit_run newN_def split: res.split)
    show ?thesis
      unfolding mainProgram_def kube
      by (cases "UseCustomNetworkCfg api e1"; cases r2) (simp_all add: goN_def go_simps start installAndServe_def)
  qed
  then have "r2 = Val ()" using assms by (cases r2) auto
  with step assms(1) k r1 new show thesis by (intro that[of e1 c ?run]) auto
qed

text \<open>
  C28: the node becomes ready only after the daemon has started.  Kubernetes takes the node for ready once the CNI configuration is
  in place.  Whatever EC2, Kubernetes, the network and gRPC do: if the main program changes the configuration file, then the
  Kubernetes client was created and the daemon initialised without an error, the pool manager was started, and the plugin's
  binary is installed with the contents and the mode of the one shipped; and if the program ends with status 0, the
  configuration is the one shipped.
\<close>

theorem node_ready_only_after_start:
  assumes "file_laws fs file" "mainProgram k api fs l n = (r, n')"
    and "file (nd_files n') confFile \<noteq> file (nd_files n) confFile"
  shows "\<exists>e1 c. k (ienv (nd_ipam n)) = (Val (), e1) \<and> ipamdNew api e1 = (Val (), c) \<and>
    ''StartNodeIPPoolManager'' \<in> set (nd_running n') \<and>
    file (nd_files n') pluginFile = file (nd_files n) ''/app/aws-cni'' \<and> file (nd_files n) ''/app/aws-cni'' \<noteq> None \<and>
    (r = Val 0 \<longrightarrow> file (nd_files n') confFile = file (nd_files n) ''/app/10-aws.conflist'')"
proof -
  have "nd_files n' \<noteq> nd_files n" using assms(3) by auto
  from mainProgram_prefix[OF assms(2) this] obtain e1 c run where
    st: "k (ienv (nd_ipam n)) = (Val (), e1)" "ipamdNew api e1 = (Val (), c)" "''StartNodeIPPoolManager'' \<in> set run"
    and ins: "installAndServe fs l (n\<lparr>nd_ipam := c, nd_running := nd_running n @ run\<rparr>) = (r, n')" by metis
  let ?n = "n\<lparr>nd_ipam := c, nd_running := nd_running n @ run\<rparr>"
  obtain r1 f1 where p: "copyFileContents fs ''/app/aws-cni'' pluginFile (nd_files n) = (r1, f1)" by fastforce
  obtain x where x: "file f1 = (file (nd_files n))(pluginFile := x)"
    using copy_frame[OF assms(1), of "''/app/aws-cni''" pluginFile "nd_files n"] p by auto
  have "r1 = Val ()"
    using ins assms(3) p x by (cases r1) (auto simp: installAndServe_def orExit_run filesN_def zoomG_def)
  with copy_Val[OF assms(1) p[unfolded \<open>r1 = Val ()\<close>]]
  have plugin: "x = file (nd_files n) ''/app/aws-cni''" "file (nd_files n) ''/app/aws-cni'' \<noteq> None"
    using x by (auto simp: fun_upd_eqD dest!: fun_cong[of _ _ pluginFile])
  obtain r2 f2 where q: "copyFileContents fs ''/app/10-aws.conflist'' confFile f1 = (r2, f2)" by fastforce
  obtain y where y: "file f2 = (file f1)(confFile := y)"
    using copy_frame[OF assms(1), of "''/app/10-aws.conflist''" confFile f1] q by auto
  have last: "nd_files n' = f2" "nd_running n' = nd_running n @ run" "r = Val 0 \<Longrightarrow> r2 = Val ()"
    using ins p q \<open>r1 = Val ()\<close>
    by (cases r2; auto simp: installAndServe_def orExit_run filesN_def ipamN_def zoomG_def retG_def split: prod.splits res.splits)+
  have "file f2 confFile = file (nd_files n) ''/app/10-aws.conflist''" if "r = Val 0"
    using copy_Val[OF assms(1), of "''/app/10-aws.conflist''" confFile f1 f2] q last(3)[OF that] x by simp
  moreover have "file f2 pluginFile = file (nd_files n) ''/app/aws-cni''" using x y plugin(1) by simp
  ultimately show ?thesis using st plugin(2) last(1,2) by auto
qed

text \<open>
  A copy whose destination cannot be closed is reported as done: when every step succeeds and closing the destination
  fails, \<^verbatim>\<open>copyFileContents\<close> returns no error: the assignment in the deferred function comes after the result is set.
\<close>

lemma close_error_is_lost:
  assumes "f_Open fs src f = (Val (), f1)" "f_Create fs dst f1 = (Val (), f2)" "f_Copy fs src dst f2 = (Val (), f3)"
    and "f_Sync fs dst f3 = (Val (), f4)" "f_Stat fs src f4 = (Val mode, f5)" "f_Chmod fs dst mode f5 = (Val (), f6)"
    and "f_Close fs dst f6 = (Err err, f7)"
  shows "copyFileContents fs src dst f = (Val (), snd (f_Close fs src f7))"
  using assms by (simp add: copyFileContents_def bindG_run deferG_def)

section \<open>Health\<close>

text \<open>The probe exits with 0 exactly when the flags are valid, the server is reached and calls itself serving.\<close>

lemma probe_zero_iff:
  "fst (probeMain api fl e) = Val 0 \<longleftrightarrow>
     remoteURL fl \<noteq> '''' \<and> 0 < connTimeoutDur fl \<and> 0 < rpcTimeoutDur fl \<and>
     (\<exists>e1. DialContext api (connTimeoutDur fl) (remoteURL fl) e = (Val (), e1) \<and>
        fst (Check api (rpcTimeoutDur fl) (serviceName fl) e1) = Val SERVING)"
  by (auto simp: probeMain_def probeInit_def bindG_tryG_run retG_def go_simps StatusInvalidArguments_def
      StatusConnectionFailure_def StatusRPCFailure_def StatusUnhealthy_def split: prod.splits res.splits)

section \<open>Witnesses\<close>

text \<open>Files as an association list; the file at \<open>bad\<close> cannot be closed.\<close>

definition sim_files :: "string \<Rightarrow> (string, string \<times> int) gomap FileAPI" where
  "sim_files bad = \<lparr>
     f_Open = (\<lambda>p f. (if map_of f p = None then Err (NewErr ''no such file'') else Val (), f)),
     f_Create = (\<lambda>p f. (Val (), AList.update p ('''', 420) f)),
     f_Copy = (\<lambda>s d f. (Val (), case map_of f s of None \<Rightarrow> AList.delete d f | Some (c, _) \<Rightarrow> AList.update d (c, 420) f)),
     f_Sync = (\<lambda>p f. (Val (), f)),
     f_Stat = (\<lambda>p f. (case map_of f p of None \<Rightarrow> Err (NewErr ''no such file'') | Some (_, m) \<Rightarrow> Val m, f)),
     f_Chmod = (\<lambda>p m f. (Val (), AList.map_entry p (\<lambda>(c, _). (c, m)) f)),
     f_Close = (\<lambda>p f. (if p = bad then Err (NewErr ''input/output error'') else Val (), f))\<rparr>"

lemma sim_files_laws: "file_laws (sim_files bad) map_of"
  unfolding file_laws_def sim_files_def
  by (auto simp: map_of_update map_of_delete map_of_map_entry fun_eq_iff split: option.splits)

definition sim_node :: "(time, (string, string \<times> int) gomap) node" where
  "sim_node = \<lparr>nd_ipam = emptyContext (1000 * second),
     nd_files = [(''/app/aws-cni'', (''elf'', 493)), (''/app/10-aws.conflist'', (''conf'', 420))], nd_running = []\<rparr>"

definition sim_main :: "int res \<times> (time, (string, string \<times> int) gomap) node" where
  "sim_main = mainProgram (retG ()) (sim_ipam True) (sim_files '''') \<lparr>Listen = (\<lambda>_. retG ()), Serve = retG ()\<rparr> sim_node"

theorem node_ready_only_after_start_witness:
  "fst sim_main = Val 0 \<and> map_of (nd_files (snd sim_main)) confFile = Some (''conf'', 420) \<and>
   map_of (nd_files (snd sim_main)) pluginFile = Some (''elf'', 493)"
proof -
  have "fst sim_main = Val 0" "map_of (nd_files (snd sim_main)) confFile = Some (''conf'', 420)" by code_simp+
  moreover from this have "map_of (nd_files (snd sim_main)) confFile \<noteq> map_of (nd_files sim_node) confFile"
    by (simp add: sim_node_def)
  note node_ready_only_after_start[OF sim_files_laws _ this, of "retG ()" "sim_ipam True" "''''" "\<lparr>Listen = (\<lambda>_. retG ()), Serve = retG ()\<rparr>" "fst sim_main"]
  then have "map_of (nd_files (snd sim_main)) pluginFile = map_of (nd_files sim_node) ''/app/aws-cni''"
    by (fastforce simp: sim_main_def)
  ultimately show ?thesis by (simp add: sim_node_def)
qed

end
