(* ===== verification/AwsLink.thy ===== *)
theory AwsLink
  imports IpamdProps AwsProps
begin

text \<open>
  The daemon on the real EC2 client: the interface \<^verbatim>\<open>awsutils.APIs\<close> that \<^verbatim>\<open>ipamd.go\<close> calls, filled
  with the operations of \<^verbatim>\<open>awsutils.go\<close>, and what follows for the network interfaces the store
  knows.  The locale \<open>eni_client\<close> states what the daemon relies on about interfaces; the EC2
  client provides it as long as EC2 itself only deletes what it is asked to delete.
\<close>

section \<open>The daemon's interface, provided by the client\<close>

text \<open>\<^verbatim>\<open>ipamd.New\<close> keeps the client that \<^verbatim>\<open>awsutils.New\<close> returns; after an error there is none.\<close>

definition connectAws :: "'e EC2API \<Rightarrow> ('e awsw, unit) go" where
  "connectAws ec2 w =
     (case awsNew ec2 (snd w) of
        (Val c, e) \<Rightarrow> (Val (), (c, e))
      | (Err x, e) \<Rightarrow> (Err x, (fst w, e))
      | (Panic p, e) \<Rightarrow> (Panic p, (fst w, e)))"

definition withAws :: "'e EC2API \<Rightarrow> ('e awsw, 'r) IpamAPI \<Rightarrow> ('e awsw, 'r) IpamAPI" where
  "withAws ec2 api = api\<lparr>
     a_New := connectAws ec2,
     a_AllocENI := AllocENI ec2,
     a_FreeENI := FreeENI ec2,
     a_GetAttachedENIs := GetAttachedENIs ec2,
     a_DescribeENI := DescribeENI ec2,
     a_AllocIPAddresses := AllocIPAddresses ec2,
     a_DeallocIPAddresses := DeallocIPAddresses ec2,
     a_GetVPCIPv4CIDR := GetVPCIPv4CIDR \<circ> fst,
     a_GetVPCIPv4CIDRs := GetVPCIPv4CIDRs \<circ> fst,
     a_GetLocalIPv4 := GetLocalIPv4 \<circ> fst,
     a_GetPrimaryENI := GetPrimaryENI \<circ> fst,
     a_GetENIipLimit := GetENIipLimit \<circ> fst,
     a_GetENILimit := GetENILimit \<circ> fst,
     a_GetPrimaryENImac := GetPrimaryENImac \<circ> fst\<rparr>"

section \<open>What the daemon relies on\<close>

definition grows :: "('e \<Rightarrow> string set) \<Rightarrow> ('e, 'a) go \<Rightarrow> bool" where
  "grows ex m \<longleftrightarrow> (\<forall>e. ex e \<subseteq> ex (snd (m e)))"

text \<open>Every interface of the store exists, and those of \<open>S\<close> too.\<close>

definition enis_exist :: "('e \<Rightarrow> string set) \<Rightarrow> string set \<Rightarrow> 'e ipam \<Rightarrow> bool" where
  "enis_exist ex S c \<longleftrightarrow> set (mkeys (eniIPPools (dataStore c))) \<union> S \<subseteq> ex (ienv c)"

definition same_enis :: "(DataStore, 'a) go \<Rightarrow> bool" where
  "same_enis m \<longleftrightarrow> (\<forall>d. set (mkeys (eniIPPools (snd (m d)))) \<subseteq> set (mkeys (eniIPPools d)))"

lemma mkeys_upd_eni [simp]: "mkeys (eniIPPools (upd_eni ek f ds)) = mkeys (eniIPPools ds)"
  by (simp add: upd_eni_def)

lemma assign_from_eni_enis:
  "assign_from_eni pod now ek eni addrs ds = Some (r, ds') \<Longrightarrow>
     mkeys (eniIPPools ds') = mkeys (eniIPPools ds)"
  by (induction addrs) (auto simp: incrementAssignedCount_def Let_def split: if_splits)

lemma assign_from_enis_enis:
  "mkeys (eniIPPools (snd (assign_from_enis pod now enis ds))) = mkeys (eniIPPools ds)"
  by (induction enis) (auto simp: assign_from_eni_enis split: option.split)

lemma same_enis_ops:
  "same_enis (AddIPv4AddressFromStore e ip)" "same_enis (DelIPv4AddressFromStore e ip)"
  "same_enis (AssignPodIPv4Address now pod)" "same_enis (RemoveENIFromDataStore e)"
  by (simp_all add: same_enis_def AddIPv4AddressFromStore_def DelIPv4AddressFromStore_def Let_def
        AssignPodIPv4Address_def assignPodIPv4AddressUnsafe_def assign_from_enis_enis
        RemoveENIFromDataStore_def split: option.split)
     (auto simp: set_mkeys gomap_simps split: if_splits)

lemma exist_dsG: "same_enis m \<Longrightarrow> keeps (enis_exist ex S) (dsG m)"
  unfolding same_enis_def enis_exist_def keeps_def dsG_run by fastforce

lemma exist_AddENI: "eni \<in> S \<Longrightarrow> keeps (enis_exist ex S) (dsG (AddENI now eni n b))"
  by (auto simp: keeps_def dsG_run enis_exist_def AddENI_def Let_def set_mkeys gomap_simps
      split: option.split)

lemma exist_envG: "grows ex m \<Longrightarrow> keeps (enis_exist ex S) (envG m)"
  by (auto simp: keeps_def envG_def zoomG_def enis_exist_def grows_def split: prod.split)
     (metis snd_conv subsetD)+

lemma exist_modG:
  "(\<And>c. dataStore (f c) = dataStore c) \<Longrightarrow> (\<And>c. ienv (f c) = ienv c) \<Longrightarrow> keeps (enis_exist ex S) (modG f)"
  by (simp add: keeps_def modG_def enis_exist_def)

text \<open>The removed ENI is no longer in the store when EC2 is asked to delete it.\<close>

lemma RemoveUnused_enis:
  assumes "RemoveUnusedENIFromStore now t d = (Val eni, d')"
  shows "set (mkeys (eniIPPools d')) \<subseteq> set (mkeys (eniIPPools d))"
    and "eni \<noteq> '''' \<Longrightarrow> eni \<notin> set (mkeys (eniIPPools d'))"
  using assms
  by (auto simp: RemoveUnusedENIFromStore_def Let_def set_mkeys gomap_simps split: option.splits if_splits)

text \<open>A first part that establishes more than the invariant for what follows it.\<close>

lemma keeps_bind_more:
  assumes "keeps I m" "\<And>w x w'. I w \<Longrightarrow> m w = (Val x, w') \<Longrightarrow> J w'"
    and "\<And>x. keeps J (f x)" "\<And>w. J w \<Longrightarrow> I w"
  shows "keeps I (bindG m f)"
proof (rule keepsI)
  fix w assume w: "I w"
  obtain r w' where r: "m w = (r, w')" by (cases "m w")
  with keepsD[OF assms(1) w] have w': "I w'" by simp
  show "I (snd (bindG m f w))"
  proof (cases r)
    case (Val x)
    with assms(2)[OF w] r have "J w'" by blast
    with assms(3,4) Val r show ?thesis by (simp add: bindG_run keepsD)
  qed (use r w' in \<open>simp_all add: bindG_run\<close>)
qed

locale eni_client =
  fixes api :: "('e, 'r) IpamAPI" and ex :: "'e \<Rightarrow> string set"
  assumes alloc: "grows ex (a_AllocENI api u sg sn)"
    and free: "ex e - {i} \<subseteq> ex (snd (a_FreeENI api i e))"
    and describe: "grows ex (a_DescribeENI api i)"
    and described: "a_DescribeENI api i e = (Val r, e') \<Longrightarrow> i \<in> ex e'"
    and client: "grows ex (a_New api)" "grows ex (a_GetAttachedENIs api)"
      "grows ex (a_AllocIPAddresses api i n)" "grows ex (a_DeallocIPAddresses api i ips)"
    and cluster: "grows ex (k_K8SGetLocalPodIPs api)" "grows ex (c_MyENIConfig api)"
    and network: "grows ex (n_SetupHostNetwork api vpc cidrs mac primary)"
      "grows ex (n_SetupENINetwork api eniIP eniMAC eniTable eniCIDR)"
      "grows ex (n_GetRuleList api)" "grows ex (n_UpdateRuleListBySrc api rules src cidrs snat)"
    and sleep: "ex e \<subseteq> ex (t_Sleep api d e)"
begin

lemma exist_sleepG: "keeps (enis_exist ex S) (sleepG api d)"
  unfolding sleepG_def keeps_def modG_def enis_exist_def using sleep by fastforce

lemmas exist_calls = exist_envG[OF alloc] exist_envG[OF describe] exist_envG[OF client(1)]
  exist_envG[OF client(2)] exist_envG[OF client(3)] exist_envG[OF client(4)]
  exist_envG[OF cluster(1)] exist_envG[OF cluster(2)] exist_envG[OF network(1)]
  exist_envG[OF network(2)] exist_envG[OF network(3)] exist_envG[OF network(4)]

lemmas exist_all = keeps_retG keeps_errG keeps_panicG keeps_bindG keeps_wrapG keeps_tryG keeps_getG
  keeps_resG keeps_ignoreG keeps_case_option keeps_case_sum keeps_case_prod keeps_if keeps_forG
  keeps_case_res keeps_case_nat keeps_nowG exist_modG exist_sleepG exist_calls exist_dsG same_enis_ops

lemma exist_getENIaddresses: "keeps (enis_exist ex S) (getENIaddresses api eni)"
  unfolding getENIaddresses_def by (intro exist_all)

lemma exist_addENIaddresses: "keeps (enis_exist ex S) (addENIaddressesToDataStore addrs eni p)"
  by (induction addrs eni p rule: addENIaddressesToDataStore.induct) (auto intro!: exist_all)

lemma getENIaddresses_exists:
  "getENIaddresses api eni c = (Val r, c') \<Longrightarrow> eni \<in> ex (ienv c')"
  unfolding getENIaddresses_def
  by (auto elim!: bindG_Val simp: wrapG_Val envG_def zoomG_def retG_def errG_def
        split: prod.splits option.splits)
     (blast intro: described)

lemma exist_setupENI: "keeps (enis_exist ex {}) (setupENI api eni m)"
  unfolding setupENI_def
proof (rule keeps_bind_more[where J = "enis_exist ex {eni}"])
  show "keeps (enis_exist ex {}) (wrapG msg (getENIaddresses api eni))" for msg
    by (intro exist_all exist_getENIaddresses)
  show "enis_exist ex {eni} c'"
    if "enis_exist ex {} c" "wrapG msg (getENIaddresses api eni) c = (Val x, c')" for c x c' msg
    using keepsD[OF exist_getENIaddresses, of "{}" c eni] getENIaddresses_exists[of eni c x c'] that
    by (auto simp: wrapG_Val enis_exist_def)
  show "enis_exist ex {} c" if "enis_exist ex {eni} c" for c
    using that by (simp add: enis_exist_def)
qed (auto intro!: exist_all exist_AddENI exist_addENIaddresses)

lemma exist_waitENIAttached: "keeps (enis_exist ex S) (waitENIAttached n api eni)"
  by (induction n) (subst waitENIAttached.simps; auto intro!: exist_all)+

lemma exist_tryAssignIPs: "keeps (enis_exist ex S) (tryAssignIPs api)"
  unfolding tryAssignIPs_def by (auto intro!: exist_all exist_getENIaddresses exist_addENIaddresses)

lemma exist_tryAllocateENI: "keeps (enis_exist ex {}) (tryAllocateENI api)"
  unfolding tryAllocateENI_def by (auto intro!: exist_all exist_setupENI exist_waitENIAttached)

lemma exist_increaseIPPool: "keeps (enis_exist ex {}) (increaseIPPool api)"
  unfolding increaseIPPool_def updateLastNodeIPPoolAction_def
  by (auto intro!: exist_all exist_tryAssignIPs exist_tryAllocateENI)

lemma exist_decreaseIPPool: "keeps (enis_exist ex S) (decreaseIPPool api d)"
proof -
  have "keeps (enis_exist ex S) (delete_ips eni ips)" for eni ips
    by (induction ips) (auto intro!: exist_all)
  then have "keeps (enis_exist ex S) (unassign_loop api enis)" for enis
    by (induction enis) (auto intro!: exist_all)
  then show ?thesis
    unfolding decreaseIPPool_def tryUnassignIPsFromAll_def by (auto intro!: exist_all)
qed

lemma exist_tryFreeENI: "keeps (enis_exist ex {}) (tryFreeENI api)"
proof (rule keepsI)
  fix c assume c: "enis_exist ex {} c"
  let ?t = "t_Now api (ienv c)"
  obtain r d' where r: "RemoveUnusedENIFromStore ?t (warmIPTarget c) (dataStore c) = (r, d')"
    by (cases "RemoveUnusedENIFromStore ?t (warmIPTarget c) (dataStore c)")
  show "enis_exist ex {} (snd (tryFreeENI api c))"
  proof (cases r)
    case (Val eni)
    note sub = RemoveUnused_enis[OF r[unfolded Val]]
    have run: "snd (tryFreeENI api c) = (let c1 = c\<lparr>dataStore := d'\<rparr> in
        if eni = '''' then c1 else c1\<lparr>ienv := snd (a_FreeENI api eni (ienv c))\<rparr>)"
      using r Val
      by (simp add: tryFreeENI_def nowG_def go_simps bindG_run dsG_run retG_def ignoreG_def envG_def
          zoomG_def bindG_tryG_run split: prod.split res.split)
    show ?thesis
    proof (cases "eni = ''''")
      case False
      from c sub free[of "ienv c" eni] False
      have "set (mkeys (eniIPPools d')) \<subseteq> ex (snd (a_FreeENI api eni (ienv c)))"
        unfolding enis_exist_def by blast
      with False show ?thesis unfolding run enis_exist_def by simp
    qed (use c sub(1) in \<open>auto simp: run enis_exist_def\<close>)
  next
    case (Err x)
    then show ?thesis using r by (auto simp: RemoveUnusedENIFromStore_def Let_def split: option.splits)
  next
    case (Panic p)
    then have "d' = dataStore c"
      using r by (auto simp: RemoveUnusedENIFromStore_def Let_def split: option.splits)
    with r c Panic show ?thesis
      by (simp add: tryFreeENI_def nowG_def go_simps bindG_run(3)[where p = p] dsG_run)
  qed
qed

lemma exist_updateIPPool: "keeps (enis_exist ex {}) (updateIPPoolIfRequired api)"
  unfolding updateIPPoolIfRequired_def
  by (auto intro!: exist_all exist_increaseIPPool exist_decreaseIPPool exist_tryFreeENI)

lemma exist_reconcile_enis: "keeps (enis_exist ex {}) (reconcile_enis api enis cur)"
proof -
  have "keeps (enis_exist ex {}) (reconcile_mark api eni ips pool)" for eni ips pool
    by (induction ips arbitrary: pool) (auto intro!: exist_all exist_getENIaddresses)
  then have "keeps (enis_exist ex {}) (eniIPPoolReconcile api pool m eni)" for pool m eni
    unfolding eniIPPoolReconcile_def by (auto intro!: exist_all)
  then show ?thesis
    by (induction enis arbitrary: cur) (auto intro!: exist_all exist_setupENI)
qed

lemma exist_reconcile: "keeps (enis_exist ex {}) (nodeIPPoolReconcile api d)"
  unfolding nodeIPPoolReconcile_def by (auto intro!: exist_all exist_reconcile_enis)

lemma exist_manager: "keeps (enis_exist ex {}) (StartNodeIPPoolManager n api)"
  by (induction n) (auto simp: Let_def intro!: exist_all exist_updateIPPool exist_reconcile)

lemma exist_setup_retry: "keeps (enis_exist ex {}) (setup_retry n api eni)"
  by (induction n) (subst setup_retry.simps; auto intro!: exist_all exist_setupENI)+

lemma exist_local_pods: "keeps (enis_exist ex S) (getLocalPodsWithRetry api)"
proof -
  have "keeps (enis_exist ex S) (local_pods_loop n api r)" for n r
    by (induction n arbitrary: r) (auto intro!: exist_all)
  then show ?thesis unfolding getLocalPodsWithRetry_def by (auto intro!: exist_all)
qed

lemma exist_NewDataStore: "keeps (enis_exist ex {}) (modG (\<lambda>c. c\<lparr>dataStore := NewDataStore\<rparr>))"
  by (simp add: keeps_def modG_def enis_exist_def NewDataStore_def)

lemma exist_nodeInit: "keeps (enis_exist ex {}) (nodeInit api)"
  unfolding nodeInit_def recoverPod_def
  by (auto intro!: exist_NewDataStore exist_all exist_setup_retry exist_local_pods)

lemma exist_New: "enis_exist ex {} (snd (ipamdNew api e))"
  unfolding ipamdNew_def
  by (rule keepsD[where I = "enis_exist ex {}"])
     (auto intro!: exist_all exist_nodeInit simp: enis_exist_def emptyContext_def NewDataStore_def)

end

section \<open>What the client provides\<close>

text \<open>
  What EC2 promises whether or not a call succeeds, with \<open>ex\<close> the set of interfaces that exist:
  a new interface has a new ID, a deletion touches no other interface, an interface
  that is described exists, and no other call makes an interface disappear.
\<close>

definition ec2_frame :: "'e EC2API \<Rightarrow> ('e \<Rightarrow> string set) \<Rightarrow> bool" where
  "ec2_frame ec2 ex \<longleftrightarrow>
     (\<forall>d sg sn. grows ex (CreateNetworkInterface ec2 d sg sn)) \<and>
     (\<forall>d sg sn e i. fst (CreateNetworkInterface ec2 d sg sn e) = Val (Some i) \<longrightarrow> StringValue i \<notin> ex e) \<and>
     (\<forall>i e. ex e - {i} \<subseteq> ex (snd (DeleteNetworkInterface ec2 i e))) \<and>
     (\<forall>i. grows ex (DescribeNetworkInterfaces ec2 i)) \<and>
     (\<forall>i e ni nis e'. DescribeNetworkInterfaces ec2 i e = (Val (ni # nis), e') \<longrightarrow> i \<in> ex e') \<and>
     (\<forall>a. grows ex (DetachNetworkInterface ec2 a)) \<and>
     (\<forall>i. grows ex (DescribeInstances ec2 i)) \<and>
     (\<forall>i t. grows ex (CreateTags ec2 i t)) \<and>
     (\<forall>d i n. grows ex (AttachNetworkInterface ec2 d i n)) \<and>
     (\<forall>a b i. grows ex (ModifyNetworkInterfaceAttribute ec2 a b i)) \<and>
     (\<forall>i n. grows ex (AssignPrivateIpAddresses ec2 i n)) \<and>
     (\<forall>i ips. grows ex (UnassignPrivateIpAddresses ec2 i ips)) \<and>
     (\<forall>p. grows ex (GetMetadata ec2 p)) \<and> grows ex (Region ec2) \<and> (\<forall>r. grows ex (NewSession ec2 r)) \<and>
     (\<forall>d e. ex e \<subseteq> ex (Sleep ec2 d e))"

text \<open>Kubernetes, the kernel's network and the passing of time make no interface disappear.\<close>

definition node_frame :: "('e, 'r) IpamAPI \<Rightarrow> ('e \<Rightarrow> string set) \<Rightarrow> bool" where
  "node_frame api ex \<longleftrightarrow>
     grows ex (k_K8SGetLocalPodIPs api) \<and> grows ex (c_MyENIConfig api) \<and>
     (\<forall>vpc cidrs mac primary. grows ex (n_SetupHostNetwork api vpc cidrs mac primary)) \<and>
     (\<forall>ip mac table cidr. grows ex (n_SetupENINetwork api ip mac table cidr)) \<and>
     grows ex (n_GetRuleList api) \<and>
     (\<forall>rules src cidrs snat. grows ex (n_UpdateRuleListBySrc api rules src cidrs snat)) \<and>
     (\<forall>d e. ex e \<subseteq> ex (t_Sleep api d e))"

abbreviation has :: "('e \<Rightarrow> string set) \<Rightarrow> string set \<Rightarrow> 'e awsw \<Rightarrow> bool" where
  "has ex S \<equiv> \<lambda>w. S \<subseteq> ex (snd w)"

lemma has_svc: "grows ex m \<Longrightarrow> keeps (has ex S) (svc m)"
  by (fastforce simp: keeps_def grows_def)

lemma has_sleep: "(\<And>e. ex e \<subseteq> ex (f e)) \<Longrightarrow> keeps (has ex S) (modG (\<lambda>(c, e). (c, f e)))"
  by (fastforce simp: keeps_def modG_def)

lemma has_setC: "keeps (has ex S) (setC f)"
  by (auto simp: keeps_def setC_def modG_def)

lemma grows_iff_has: "grows (ex \<circ> snd) m \<longleftrightarrow> (\<forall>S. keeps (has ex S) m)"
  by (auto simp: grows_def keeps_def)

lemma ec2_frame_svc:
  assumes "ec2_frame ec2 ex"
  shows "keeps (has ex S) (svc (CreateNetworkInterface ec2 d sg sn))"
    "keeps (has ex S) (svc (DescribeNetworkInterfaces ec2 i))"
    "keeps (has ex S) (svc (DetachNetworkInterface ec2 a))"
    "keeps (has ex S) (svc (DescribeInstances ec2 i))"
    "keeps (has ex S) (svc (CreateTags ec2 i t))"
    "keeps (has ex S) (svc (AttachNetworkInterface ec2 dv i n))"
    "keeps (has ex S) (svc (ModifyNetworkInterfaceAttribute ec2 at b i))"
    "keeps (has ex S) (svc (AssignPrivateIpAddresses ec2 i k))"
    "keeps (has ex S) (svc (UnassignPrivateIpAddresses ec2 i ips))"
    "keeps (has ex S) (svc (GetMetadata ec2 p))"
    "keeps (has ex S) (modG (\<lambda>(c, e). (c, Sleep ec2 dl e)))"
    "i \<notin> S \<Longrightarrow> keeps (has ex S) (svc (DeleteNetworkInterface ec2 i))"
  using assms unfolding ec2_frame_def
  by (simp_all add: has_svc has_sleep) (fastforce simp: keeps_def)

lemmas has_all = keeps_retG keeps_errG keeps_panicG keeps_bindG keeps_wrapG keeps_tryG keeps_getG
  keeps_resG keeps_ignoreG keeps_case_option keeps_case_sum keeps_case_prod keeps_if keeps_forG
  keeps_case_res keeps_case_nat keeps_list_case keeps_cacheG has_setC

lemma has_metadata:
  assumes "ec2_frame ec2 ex"
  shows "keeps (has ex S) (GetAttachedENIs ec2)" "keeps (has ex S) (initWithEC2Metadata ec2)"
proof -
  note calls = has_all ec2_frame_svc[OF assms]
  have "keeps (has ex S) (getENIMetadata ec2 m)" for m
    unfolding getENIMetadata_def getIPsAndCIDR_def getENIDeviceNumber_def Let_def
    by (auto intro!: calls)
  then have "keeps (has ex S) (attachedENIs_loop ec2 macs)" for macs
    by (induction macs) (auto intro!: calls)
  then show "keeps (has ex S) (GetAttachedENIs ec2)"
    unfolding GetAttachedENIs_def Let_def by (auto intro!: calls)
  have "keeps (has ex S) (findPrimaryENI ec2 macs)" for macs
    by (induction macs) (auto simp: Let_def intro!: calls)
  then show "keeps (has ex S) (initWithEC2Metadata ec2)"
    unfolding initWithEC2Metadata_def setPrimaryENI_def readMeta_def Let_def by (auto intro!: calls)
qed

lemma has_DescribeENI: "ec2_frame ec2 ex \<Longrightarrow> keeps (has ex S) (DescribeENI ec2 i)"
  unfolding DescribeENI_def by (auto intro!: has_all ec2_frame_svc split: goerr.split)

lemma has_FreeENI:
  assumes "ec2_frame ec2 ex" "i \<notin> S"
  shows "keeps (has ex S) (deleteENI ec2 i d)" "keeps (has ex S) (FreeENI ec2 i)"
proof -
  note calls = has_all ec2_frame_svc[OF assms(1)] has_DescribeENI[OF assms(1)]
  have "keeps (has ex S) (delete_loop n ec2 i d)" for n d
    by (induction n) (auto intro!: calls assms(2))
  then show del: "keeps (has ex S) (deleteENI ec2 i d)" for d unfolding deleteENI_def by blast
  have "keeps (has ex S) (detach_loop n ec2 a d)" for n a d
    by (induction n) (subst detach_loop.simps; auto intro!: calls)+
  then show "keeps (has ex S) (FreeENI ec2 i)"
    unfolding FreeENI_def freeENI_def by (auto intro!: calls del)
qed

lemma keeps_bind_post:
  assumes "keeps I m" "\<And>w x w'. I w \<Longrightarrow> m w = (Val x, w') \<Longrightarrow> Q x" "\<And>x. Q x \<Longrightarrow> keeps I (f x)"
  shows "keeps I (bindG m f)"
  using assms unfolding keeps_def bindG_def by (fastforce split: prod.split res.split)

lemma createENI_fresh:
  assumes "ec2_frame ec2 ex" "has ex S w" "createENI ec2 u sg sn w = (Val i, w')"
  shows "i \<notin> S"
proof -
  from assms(3) obtain d g s j where
    "fst (CreateNetworkInterface ec2 d g s (snd w)) = Val (Some j)" "i = StringValue j"
    unfolding createENI_def Let_def
    by (auto elim!: bindG_Val simp: wrapG_Val svc_Val cacheG_def getG_def retG_def panicG_def
        split: option.splits prod.splits)
  moreover from this assms(1) have "StringValue j \<notin> ex (snd w)"
    unfolding ec2_frame_def by (metis (no_types))
  ultimately show ?thesis using assms(2) by blast
qed

lemma has_AllocENI:
  assumes "ec2_frame ec2 ex"
  shows "keeps (has ex S) (AllocENI ec2 u sg sn)"
proof -
  note calls = has_all ec2_frame_svc[OF assms]
  have "keeps (has ex S) (createENI ec2 u sg sn)" "keeps (has ex S) (tagENI ec2 i)"
    "keeps (has ex S) (attachENI ec2 i)" for i
    unfolding createENI_def tagENI_def attachENI_def awsGetFreeDeviceNumber_def Let_def
    by (auto intro!: calls)
  then show ?thesis unfolding AllocENI_def
    by (intro keeps_bind_post[where Q = "\<lambda>i. i \<notin> S"])
       (auto intro!: calls has_FreeENI assms simp: wrapG_Val dest: createENI_fresh[OF assms])
qed

lemma has_connectAws:
  assumes "ec2_frame ec2 ex"
  shows "keeps (has ex S) (connectAws ec2)"
proof (rule keepsI)
  fix w assume w: "has ex S w"
  have g: "grows ex (Region ec2)" "\<And>r. grows ex (NewSession ec2 r)" using assms unfolding ec2_frame_def by blast+
  have i: "S \<subseteq> ex e \<Longrightarrow> initWithEC2Metadata ec2 (c, e) = (r, (c', e')) \<Longrightarrow> S \<subseteq> ex e'" for c e r c' e'
    using keepsD[OF has_metadata(2)[OF assms], of S "(c, e)"] by simp
  have "S \<subseteq> ex (snd (awsNew ec2 (snd w)))"
    unfolding awsNew_def
  proof (rule keepsD[where I = "\<lambda>e. S \<subseteq> ex e", OF _ w], intro keeps_bindG keeps_wrapG)
    show "keeps (\<lambda>e. S \<subseteq> ex e) (Region ec2)" "keeps (\<lambda>e. S \<subseteq> ex e) (NewSession ec2 r)" for r
      using g unfolding keeps_def grows_def by (meson subset_trans)+
  qed (auto simp: keeps_def dest: i split: prod.splits res.splits)
  then show "has ex S (snd (connectAws ec2 w))"
    by (auto simp: connectAws_def split: prod.splits res.splits)
qed

text \<open>
  The interfaces that exist, as far as the daemon can rely on it: where the services do not keep
  their promises nothing is said.
\<close>

definition existing :: "'e EC2API \<Rightarrow> ('e awsw, 'r) IpamAPI \<Rightarrow> ('e \<Rightarrow> string set) \<Rightarrow> 'e awsw \<Rightarrow> string set" where
  "existing ec2 api ex w = (if ec2_frame ec2 ex \<and> node_frame api (ex \<circ> snd) then ex (snd w) else UNIV)"

lemma DescribeENI_exists:
  assumes "ec2_frame ec2 ex" "DescribeENI ec2 i w = (Val r, w')"
  shows "i \<in> ex (snd w')"
  using assms(2)
proof (cases "DescribeNetworkInterfaces ec2 i (snd w)")
  case (Pair x e')
  with assms(2) obtain ni nis where "x = Val (ni # nis)" "snd w' = e'"
    by (cases w) (auto simp: DescribeENI_def bindG_tryG_run errG_def retG_def panicG_def
        split: res.splits list.splits goerr.splits if_splits option.splits)
  with Pair assms(1) show ?thesis unfolding ec2_frame_def by metis
qed

lemma grows_existing:
  "(\<And>S. ec2_frame ec2 ex \<Longrightarrow> node_frame api (ex \<circ> snd) \<Longrightarrow> keeps (has ex S) m) \<Longrightarrow>
     grows (existing ec2 api ex) m"
  by (auto simp: grows_def existing_def keeps_def)

interpretation linked: eni_client "withAws cloud api" "existing cloud api ex"
proof unfold_locales
  let ?ex = "existing cloud api ex" and ?api = "withAws cloud api"
  show "?ex e - {i} \<subseteq> ?ex (snd (a_FreeENI ?api i e))" for e i
    using keepsD[OF has_FreeENI(2)[of cloud ex i "ex (snd e) - {i}"], of e]
    by (auto simp: existing_def withAws_def)
  show "i \<in> ?ex e'" if "a_DescribeENI ?api i e = (Val r, e')" for i e r e'
    using that DescribeENI_exists[of cloud ex i e r e'] by (auto simp: existing_def withAws_def)
  show "?ex e \<subseteq> ?ex (t_Sleep ?api d e)" for e d
    by (cases e) (auto simp: existing_def withAws_def node_frame_def)
qed (auto simp: withAws_def node_frame_def grows_iff_has AllocIPAddresses_def DeallocIPAddresses_def Let_def
    intro!: grows_existing has_AllocENI has_DescribeENI has_metadata has_connectAws has_all ec2_frame_svc)

section \<open>Addresses lie on interfaces that exist\<close>

text \<open>
  Every ENI of the store exists, and an address that the store gives to a new pod lies on one
  that does.
\<close>

definition addressesExist :: "('e \<Rightarrow> string set) \<Rightarrow> 'e awsw ipam \<Rightarrow> bool" where
  "addressesExist ex c \<longleftrightarrow>
     set (mkeys (eniIPPools (dataStore c))) \<subseteq> ex (snd (ienv c)) \<and>
     (\<forall>now pod ip dev ds'.
        map_of (podsIP (dataStore c)) (podKey pod) = None \<and>
        AssignPodIPv4Address now pod (dataStore c) = (Val (ip, dev), ds') \<longrightarrow>
        (\<exists>eni p. map_of (eniIPPools (dataStore c)) eni = Some p \<and> eni \<in> ex (snd (ienv c)) \<and>
                 ip \<in> set (mkeys (IPv4Addresses p)) \<and> dev = DeviceNumber p))"

lemma addressesExistI:
  assumes "ds_reach (dataStore c)" "enis_exist (ex \<circ> snd) {} c"
  shows "addressesExist ex c"
proof -
  have sub: "set (mkeys (eniIPPools (dataStore c))) \<subseteq> ex (snd (ienv c))"
    using assms(2) by (simp add: enis_exist_def)
  moreover have "\<exists>eni p. map_of (eniIPPools (dataStore c)) eni = Some p \<and> eni \<in> ex (snd (ienv c)) \<and>
      ip \<in> set (mkeys (IPv4Addresses p)) \<and> dev = DeviceNumber p"
    if "map_of (podsIP (dataStore c)) (podKey pod) = None"
      "AssignPodIPv4Address now pod (dataStore c) = (Val (ip, dev), ds')" for now pod ip dev ds'
    using AssignPodIPv4Address_Val[OF ds_reach_inv[OF assms(1)] that(2,1)] sub
    by (metis domI set_mkeys subsetD)
  ultimately show ?thesis unfolding addressesExist_def by blast
qed

text \<open>
  C5: the daemon never offers an address of an interface that does not exist.  The daemon runs on
  the real EC2 client; EC2 may refuse any call at any time, and only deletes the interfaces it is asked
  to delete.  Then after the daemon's start, and after any number of rounds of the pool manager
  (allocation with its clean-up, freeing, reconciliation with the instance metadata), every ENI of
  the store exists in EC2, and an address assigned to a new pod lies on such an ENI.
\<close>

theorem daemon_offers_existing_addresses:
  assumes "ec2_frame ec2 ex" "node_frame api (ex \<circ> snd)"
    and "ds_reach (dataStore c)" "set (mkeys (eniIPPools (dataStore c))) \<subseteq> ex (snd (ienv c))"
  shows "addressesExist ex (snd (StartNodeIPPoolManager n (withAws ec2 api) c)) \<and>
         addressesExist ex (snd (ipamdNew (withAws ec2 api) w))"
proof -
  have ex: "existing ec2 api ex = ex \<circ> snd" using assms(1,2) by (simp add: existing_def fun_eq_iff)
  note keep = linked.exist_manager[where cloud = ec2 and api = api and ex = ex, unfolded ex]
    linked.exist_New[where cloud = ec2 and api = api and ex = ex, unfolded ex]
  have "enis_exist (ex \<circ> snd) {} c" using assms(4) by (simp add: enis_exist_def)
  from keepsD[OF keep(1) this] keepsD[OF reach.keep_manager assms(3)]
  have "addressesExist ex (snd (StartNodeIPPoolManager n (withAws ec2 api) c))"
    by (intro addressesExistI)
  moreover have "addressesExist ex (snd (ipamdNew (withAws ec2 api) w))"
    by (intro addressesExistI keep(2) reach.keep_New ds_reach.start)
  ultimately show ?thesis ..
qed

text \<open>
  A simulated EC2 whose environment is the list of interfaces and a clock.  An interface's MAC
  address is its ID; deletions fail, and the metadata show every interface.
\<close>

definition sim_dev :: "string \<Rightarrow> string list \<Rightarrow> string" where
  "sim_dev i l = (if i = ''eni-1'' then ''0'' else ''1'')"

definition sim_cloud :: "(string list \<times> time) EC2API" where
  "sim_cloud = \<lparr>Region = retG ''us-west-2'', NewSession = (\<lambda>_. retG ()),
     GetMetadata = (\<lambda>p (l, t).
       (if p = metadataMAC then Val ''eni-1''
        else if p = metadataInstanceType then Val ''m5.large''
        else if p = metadataMACPath then Val (Join l '' '')
        else case find (\<lambda>i. take (length (metadataMACPath @ i @ ''/'')) p = metadataMACPath @ i @ ''/'') l of
          None \<Rightarrow> Val ''''
        | Some i \<Rightarrow>
            let what = drop (length (metadataMACPath @ i)) p in
            if what = metadataDeviceNum then Val (sim_dev i l)
            else if what = metadataInterface then Val i
            else if what = metadataIPv4s
            then Val (''10.0.'' @ sim_dev i l @ ''.1 10.0.'' @ sim_dev i l @ ''.2'')
            else Val ''10.0.0.0/16'', (l, t))),
     DescribeInstances = (\<lambda>_. retG [[[\<lparr>DeviceIndex = Some (Some 0)\<rparr>]]]),
     CreateNetworkInterface = (\<lambda>_ _ _ (l, t). (Val (Some (Some (''x'' @ concat l))), (l @ [''x'' @ concat l], t))),
     CreateTags = (\<lambda>_ _. retG ()), AttachNetworkInterface = (\<lambda>_ _ _. retG (Some ''att'')),
     ModifyNetworkInterfaceAttribute = (\<lambda>_ _ _. retG ()),
     DetachNetworkInterface = (\<lambda>_. retG ()),
     DeleteNetworkInterface = (\<lambda>_. errG (AwsErr ''RequestLimitExceeded'' '''')),
     DescribeNetworkInterfaces = (\<lambda>i (l, t).
       (if i \<in> set l then Val [\<lparr>PrivateIpAddresses =
            [\<lparr>Primary = Some True, PrivateIpAddress = Some (''10.0.'' @ sim_dev i l @ ''.1'')\<rparr>,
             \<lparr>Primary = Some False, PrivateIpAddress = Some (''10.0.'' @ sim_dev i l @ ''.2'')\<rparr>],
            AttachmentId = Some (Some ''att'')\<rparr>]
        else Err (AwsErr ''InvalidNetworkInterfaceID.NotFound'' ''''), (l, t))),
     AssignPrivateIpAddresses = (\<lambda>_ _. retG ()), UnassignPrivateIpAddresses = (\<lambda>_ _. retG ()),
     Sleep = (\<lambda>d (l, t). (l, t + d)), Getenv = (\<lambda>_ _. '''')\<rparr>"

definition sim_host :: "((string list \<times> time) awsw, unit) IpamAPI" where
  "sim_host = \<lparr>a_New = retG (), a_AllocENI = (\<lambda>_ _ _. retG ''''), a_FreeENI = (\<lambda>_. retG ()),
     a_GetAttachedENIs = retG [], a_DescribeENI = (\<lambda>_. retG ([], None)),
     a_AllocIPAddresses = (\<lambda>_ _. retG ()), a_DeallocIPAddresses = (\<lambda>_ _. retG ()),
     a_GetVPCIPv4CIDR = (\<lambda>_. ''''), a_GetVPCIPv4CIDRs = (\<lambda>_. []), a_GetLocalIPv4 = (\<lambda>_. ''''),
     a_GetPrimaryENI = (\<lambda>_. ''''), a_GetENIipLimit = (\<lambda>_. Val 0), a_GetENILimit = (\<lambda>_. Val 0),
     a_GetPrimaryENImac = (\<lambda>_. ''''), k_K8SGetLocalPodIPs = retG [], c_MyENIConfig = errG (NewErr ''none''),
     n_SetupHostNetwork = (\<lambda>_ _ _ _. retG ()), n_SetupENINetwork = (\<lambda>_ _ _ _. retG ()),
     n_UseExternalSNAT = (\<lambda>_. False), n_GetExcludeSNATCIDRs = (\<lambda>_. []), n_GetRuleList = retG [],
     n_UpdateRuleListBySrc = (\<lambda>_ _ _ _. retG ()), t_Now = (\<lambda>(_, _, t). t),
     t_Sleep = (\<lambda>d (c, l, t). (c, l, t + d)), LookupEnv = (\<lambda>_ _. None)\<rparr>"

lemma sim_cloud_frame: "ec2_frame sim_cloud (set \<circ> fst)"
proof -
  have "''x'' @ concat e \<notin> set e" for e :: "string list"
  proof
    assume "''x'' @ concat e \<in> set e"
    then obtain a b where "e = a @ (''x'' @ concat e) # b" by (meson split_list)
    from arg_cong[OF this, of "\<lambda>l. length (concat l)"] show False by simp
  qed
  then show ?thesis
    by (auto simp: ec2_frame_def grows_def sim_cloud_def retG_def errG_def StringValue_def)
qed

lemma sim_host_frame: "node_frame sim_host ((set \<circ> fst) \<circ> snd)"
  by (auto simp: node_frame_def grows_def sim_host_def retG_def errG_def)

definition sim_started :: "(string list \<times> time) awsw ipam" where
  "sim_started = snd (ipamdNew (withAws sim_cloud sim_host) (emptyCache, [''eni-1''], 1000 * second))"

theorem daemon_offers_existing_addresses_witness:
  "let c = sim_started\<lparr>maxIPsPerENI := 1, warmENITarget := 2\<rparr>;
       c' = snd (StartNodeIPPoolManager 1 (withAws sim_cloud sim_host) c)
   in mkeys (eniIPPools (dataStore sim_started)) = [''eni-1''] \<and> addressesExist (set \<circ> fst) sim_started \<and>
      mkeys (eniIPPools (dataStore c')) = [''eni-1'', ''xeni-1''] \<and> addressesExist (set \<circ> fst) c'"
proof -
  let ?c = "sim_started\<lparr>maxIPsPerENI := 1, warmENITarget := 2\<rparr>"
  have "(let s = sim_started in (mkeys (eniIPPools (dataStore s)), fst (snd (ienv s)))) = ([''eni-1''], [''eni-1''])"
    by code_simp
  then have k: "mkeys (eniIPPools (dataStore sim_started)) = [''eni-1'']"
    and i: "fst (snd (ienv sim_started)) = [''eni-1'']" by (simp_all add: Let_def)
  have "ds_reach (dataStore ?c)"
    unfolding sim_started_def by (simp add: reach.keep_New ds_reach.start)
  moreover have "set (mkeys (eniIPPools (dataStore ?c))) \<subseteq> (set \<circ> fst) (snd (ienv ?c))"
    by (simp add: k i)
  ultimately have "addressesExist (set \<circ> fst) (snd (StartNodeIPPoolManager 1 (withAws sim_cloud sim_host) ?c)) \<and>
      addressesExist (set \<circ> fst) sim_started"
    unfolding sim_started_def by (rule daemon_offers_existing_addresses[OF sim_cloud_frame sim_host_frame])
  moreover have "mkeys (eniIPPools (dataStore (snd (StartNodeIPPoolManager 1 (withAws sim_cloud sim_host) ?c)))) =
      [''eni-1'', ''xeni-1'']" by code_simp
  ultimately show ?thesis using k by (simp add: Let_def)
qed

end
