(* ===== verification/Spec2Isabelle.thy ===== *)
theory Spec2Isabelle
  imports DataStoreThms AwsProps IpamdProps RpcHandler NetworkProps DriverProps PluginProps
    DiscoveryProps EniConfig UtilsMisc Backoff Publisher MetricsProps RestartRules Introspect NodeMain AwsLink
begin

text \<open>
  A model of the Amazon VPC CNI plugin for Kubernetes, and the theorems that make it correct.

  \<^bold>\<open>The program.\<close>  On every node a daemon (\<^verbatim>\<open>ipamd\<close>) keeps a pool of secondary IP addresses on the
  node's network interfaces (ENIs).  Its pool manager compares the pool with its targets, asks EC2
  for more ENIs and addresses or gives them back, and reconciles its store with the instance metadata.  The
  container runtime calls the CNI plugin (\<^verbatim>\<open>plugins/routed-eni\<close>) for every pod; the plugin
  asks the daemon for an address over gRPC, its driver connects the pod's network namespace, and on
  deletion it returns the address.  A controller watches the pods of the cluster, another one the
  ENIConfig resources that say how a new ENI is attached.  Beside the daemon, the metrics helper polls all
  nodes and publishes sums to CloudWatch.  The main program starts the daemon and then installs the plugin, which
  makes the node ready.

  \<^bold>\<open>The theories\<close>, each with the code under \<^verbatim>\<open>src/\<close> it models:

  \<^item> \<^verbatim>\<open>GoBase\<close>: the prelude.  Errors as values (\<open>goerr\<close>), results \<open>'a res\<close> (value, error or panic), computations
    \<open>('w, 'a) go\<close> over a world with the combinators of the code's control flow, times, Go maps as association lists.
    \<^verbatim>\<open>GoStrings\<close>, \<^verbatim>\<open>GoNet\<close>, \<^verbatim>\<open>GoFloat\<close>, \<^verbatim>\<open>GoJson\<close>: what the sources use of \<^verbatim>\<open>strings\<close>, \<^verbatim>\<open>strconv\<close>, \<^verbatim>\<open>net\<close>, of
    \<^verbatim>\<open>float64\<close> and of \<^verbatim>\<open>encoding/json\<close>, the last with a reference parser that reads back what is printed.
  \<^item> \<^verbatim>\<open>DataStore\<close> (\<^verbatim>\<open>ipamd/datastore/data_store.go\<close>): the store of ENIs, addresses and pods, one record and one
    function per method.  \<^verbatim>\<open>DataStoreInv\<close>: the invariant and that every operation keeps it.  \<^verbatim>\<open>AllocatorSpec\<close>: the
    contract of an address allocator (locale \<open>ip_allocator\<close>).  \<^verbatim>\<open>DataStoreProps\<close>: reachable stores, exclusive use, and
    the interpretation of the contract on the store.  \<^verbatim>\<open>DataStoreThms\<close>: the store's theorems: counters, one pod per
    address, refinement of an abstract store (\<open>spec_step\<close>), every branch of assignment and release, the cooling period,
    and which ENIs may go.
  \<^item> \<^verbatim>\<open>InstanceLimits\<close>, \<^verbatim>\<open>AwsUtils\<close>, \<^verbatim>\<open>AwsProps\<close> (\<^verbatim>\<open>pkg/awsutils/vpc_ip_resource_limit.go\<close>, \<^verbatim>\<open>awsutils.go\<close>): the client of
    EC2 and of the metadata service; free device numbers, limits, retry loops, and no leaked ENI on any error path.
  \<^item> \<^verbatim>\<open>Ipamd\<close>, \<^verbatim>\<open>IpamdProps\<close> (\<^verbatim>\<open>ipamd/ipamd.go\<close>): start, pool manager, reconciliation.  The locales \<open>del_client\<close>, \<open>add_client\<close> and
    \<open>store_client\<close> say which operations of the store the daemon calls; their interpretations carry the store's
    invariant, and the addresses in use, through every daemon operation, whatever the outside world does.
  \<^item> \<^verbatim>\<open>AwsLink\<close>: the daemon's interface to EC2 filled with the operations of \<^verbatim>\<open>awsutils.go\<close>.  The locale \<open>eni_client\<close> says
    what the daemon relies on about network interfaces; its interpretation on the client shows that the store
    only ever holds interfaces that exist, whichever calls of EC2 fail.
  \<^item> \<^verbatim>\<open>RpcHandler\<close> (\<^verbatim>\<open>ipamd/rpc_handler.go\<close>): the two gRPC handlers, on the allocator's contract.
  \<^item> \<^verbatim>\<open>Restart\<close>: the daemon's start composed with the handlers and with the pod controller: which pods keep their address over a
    restart, which cannot return it, and which are forgotten.
  \<^item> \<^verbatim>\<open>RestartRules\<close>: the daemon's interface to the host's network filled with the operations of \<^verbatim>\<open>network.go\<close>.  The locale
    \<open>env_client\<close> says which calls the start makes before it reads the policy rules; its interpretation shows that these leave
    a pod's rules alone.  A restart then gives a running pod the rules that adding it now would.
  \<^item> \<^verbatim>\<open>Introspect\<close> (\<^verbatim>\<open>ipamd/introspect.go\<close>, \<^verbatim>\<open>ipamd/metrics.go\<close>): the answers of the two HTTP servers; what they print is the store.
  \<^item> \<^verbatim>\<open>NodeMain\<close> (\<^verbatim>\<open>main.go\<close>, \<^verbatim>\<open>client/health-check/grpc_health_probe.go\<close> and the rest of \<^verbatim>\<open>rpc_handler.go\<close>): process start, copying
    of files, the gRPC listener, the health check and its probe; a node is ready only after the daemon has started.
  \<^item> \<^verbatim>\<open>NetworkUtils\<close>, \<^verbatim>\<open>NetworkProps\<close> (\<^verbatim>\<open>pkg/networkutils/network.go\<close>, \<^verbatim>\<open>pkg/netlinkwrapper/netlink.go\<close>): iptables rules,
    routes and policy rules of the node; which packets the installed chains rewrite.
  \<^item> \<^verbatim>\<open>CniDriver\<close>, \<^verbatim>\<open>DriverProps\<close> (\<^verbatim>\<open>plugins/routed-eni/driver/driver.go\<close>): the network of one pod; tearing down undoes setting up.
  \<^item> \<^verbatim>\<open>CniPlugin\<close>, \<^verbatim>\<open>PluginProps\<close> (\<^verbatim>\<open>plugins/routed-eni/cni.go\<close>): the commands \<^verbatim>\<open>add\<close> and \<^verbatim>\<open>del\<close> with the interface name and its
    SHA-1; the plugin composed with the daemon's handlers: a failed \<^verbatim>\<open>add\<close> returns the address, \<^verbatim>\<open>del\<close> tears down
    what \<^verbatim>\<open>add\<close> set up, and the interface's name is always valid.
  \<^item> \<^verbatim>\<open>Discovery\<close>, \<^verbatim>\<open>DiscoveryProps\<close> (\<^verbatim>\<open>pkg/k8sapi/discovery.go\<close> and the vendored work queue): informer, queue and worker as a
    step relation that interleaves them in every order; the contract of the queue is the locale \<open>work_queue\<close>, interpreted
    on its model; an idle worker has listed every local pod.
  \<^item> \<^verbatim>\<open>EniConfig\<close> (\<^verbatim>\<open>pkg/eniconfig/eniconfig.go\<close>): the controller's answer after any history of events, and what a new ENI
    is then attached with.
  \<^item> \<^verbatim>\<open>Utils\<close>, \<^verbatim>\<open>UtilsMisc\<close>, \<^verbatim>\<open>Backoff\<close> (\<^verbatim>\<open>pkg/utils\<close>): comparing slices, retrying, errors, zero values, random names, pauses
    that grow with jitter.
  \<^item> \<^verbatim>\<open>Publisher\<close> (\<^verbatim>\<open>pkg/publisher/publisher.go\<close>): the queue of data points and its batches.
  \<^item> \<^verbatim>\<open>Metrics\<close>, \<^verbatim>\<open>MetricsProps\<close> (\<^verbatim>\<open>cni-metrics-helper\<close>): aggregation over nodes, post-processing, publishing; sums of gauges,
    increments of counters.

  \<^bold>\<open>How code and model correspond.\<close>  A struct is a record, a method a function that takes and returns the state;
  code that calls the outside world is a computation \<open>('w, 'a) go\<close> whose world holds the component's state and an
  environment \<open>'e\<close>.  Whatever is not under \<^verbatim>\<open>src/\<close> is a field of an interface record (\<open>EC2API\<close>, \<open>IpamAPI\<close>, \<open>NetAPI\<close>, \<open>DriverAPI\<close>,
  \<open>PluginAPI\<close>, \<open>CloudWatchAPI\<close> and so on), an arbitrary function of the environment; a theorem that needs more of it says so in a
  hypothesis.  Each lock of the code makes the operations it guards atomic.  A Go map's iteration order
  is open, so theorems hold for every order.  A nil dereference, an index out of range and a send on a bad slice are
  the result \<open>Panic\<close>.

  \<^bold>\<open>Loops and bounds.\<close>  Loops over slices and maps are structural recursions; the retry loops count down the code's
  own number of attempts.  \<open>StartNodeIPPoolManager n\<close> is the first \<open>n\<close> rounds of a loop that never ends, and its theorems hold
  for every \<open>n\<close>; \<open>metricLoop\<close> likewise.  \<open>push\<close> and \<open>runWorker\<close> are functions with a
  termination proof.  \<open>RetryWithBackoffCtx\<close>, which may retry for ever, is a partial function into an option, and the
  theorem on \<open>RetryNWithBackoff\<close> shows that it returns.  The evaluation of iptables chains in \<^verbatim>\<open>NetworkProps\<close> takes one more than the number of
  rules as fuel, enough because every jump goes to a later chain.  Integers are unbounded where the code cannot overflow, words where the width shows
  (addresses, marks, device numbers of replies, SHA-1), and floats are exact up to \<open>2 ^ 53\<close> and rounded beyond.

  \<^bold>\<open>Where the code falls short.\<close>  Some theorems show behaviour the authors will not have meant: device index 128
  panics, an allocation error is lost, a detached ENI makes its deletion panic, a warm target of zero ENIs thrashes,
  an unconfigured ENI's primary address may reach a pod, counters of several nodes are mixed up, the two
  caches of the pod controller keep stale entries, a pod that was recovered after a restart cannot return its address,
  a daemon that starts before the pod controller's worker has run forgets the pods, and a CIDR that is listed twice
  costs the running pods their later rules at a restart.

  \<^bold>\<open>Not modelled.\<close>  The wrappers that forward calls to libraries, generated code, log lines, the registration of Prometheus
  metrics, the loops of the two HTTP servers that listen again for ever (their pauses are in \<^verbatim>\<open>Backoff\<close>), creating the Kubernetes client and parsing
  of flags.
\<close>

end
